(* ===== verification/Prelude.thy ===== *)
theory Prelude
  imports Main "HOL-Library.Word" "HOL-Library.While_Combinator"
begin

text \<open>
  The vocabulary every component shares: the ways a C function can fail to return
  (\<open>fault\<close>), programs as state transformers that may fault (\<open>prog\<close>), sequencing, loops
  that may run for ever, and the rules that carry an invariant or a postcondition through
  a program.  The collections \<open>prog_simps\<close>, \<open>keeps_intro\<close> and \<open>ends_intro\<close> are what the
  component proofs pass to the simplifier and to \<open>intro\<close>.
\<close>

section \<open>Programs\<close>

datatype fault =
    NullDeref       \<comment> \<open>a null pointer is dereferenced\<close>
  | UseAfterFree    \<comment> \<open>a released block is read, written or released again\<close>
  | UninitRead      \<comment> \<open>a variable or field is used before it is set\<close>
  | StaleString     \<comment> \<open>a temporary string is read after its buffer was used again\<close>
  | OutOfBounds     \<comment> \<open>an access outside of an array\<close>
  | AssertFail      \<comment> \<open>an \<open>assert\<close> fails\<close>
  | Blocked         \<comment> \<open>a mutex or a semaphore is never granted\<close>
  | Diverges        \<comment> \<open>a loop runs for ever\<close>

type_synonym ('s, 'a) prog = "'s \<Rightarrow> fault + ('a \<times> 's)"

named_theorems prog_simps "equations that run a program on a state"
named_theorems keeps_intro "rules that carry an invariant through a program"
named_theorems ends_intro "rules that carry a postcondition through a program"

definition ret :: "'a \<Rightarrow> ('s, 'a) prog" where
  "ret a = (\<lambda>s. Inr (a, s))"

definition crash :: "fault \<Rightarrow> ('s, 'a) prog" where
  "crash f = (\<lambda>s. Inl f)"

definition seqM :: "('s, 'a) prog \<Rightarrow> ('a \<Rightarrow> ('s, 'b) prog) \<Rightarrow> ('s, 'b) prog" where
  "seqM m k = (\<lambda>s. case m s of Inl f \<Rightarrow> Inl f | Inr (a, s') \<Rightarrow> k a s')"

definition getS :: "('s \<Rightarrow> 'a) \<Rightarrow> ('s, 'a) prog" where
  "getS f = (\<lambda>s. Inr (f s, s))"

definition modS :: "('s \<Rightarrow> 's) \<Rightarrow> ('s, unit) prog" where
  "modS f = (\<lambda>s. Inr ((), f s))"

text \<open>\<open>derefM f x\<close> is the value of an optional \<open>x\<close>, or the fault \<open>f\<close>.\<close>

definition derefM :: "fault \<Rightarrow> 'a option \<Rightarrow> ('s, 'a) prog" where
  "derefM f x = (case x of None \<Rightarrow> crash f | Some a \<Rightarrow> ret a)"

lemma ret_apply [simp, prog_simps]: "ret a s = Inr (a, s)"
  by (simp add: ret_def)

lemma crash_apply [simp, prog_simps]: "crash f s = Inl f"
  by (simp add: crash_def)

lemma getS_apply [simp, prog_simps]: "getS f s = Inr (f s, s)"
  by (simp add: getS_def)

lemma modS_apply [simp, prog_simps]: "modS f s = Inr ((), f s)"
  by (simp add: modS_def)

lemma seqM_apply [prog_simps]:
  "seqM m k s = (case m s of Inl f \<Rightarrow> Inl f | Inr (a, s') \<Rightarrow> k a s')"
  by (simp add: seqM_def)

lemma derefM_simps [simp, prog_simps]:
  "derefM f None = crash f"
  "derefM f (Some a) = ret a"
  by (simp_all add: derefM_def)

lemma seqM_ret [simp]: "seqM (ret a) k = k a"
  by (simp add: seqM_def fun_eq_iff)

lemma seqM_crash [simp]: "seqM (crash f) k = crash f"
  by (simp add: seqM_def fun_eq_iff)

lemma seqM_ret_right [simp]: "seqM m ret = m"
  by (simp add: seqM_def ret_def fun_eq_iff split: sum.splits prod.splits)

lemma seqM_assoc: "seqM (seqM m k) l = seqM m (\<lambda>a. seqM (k a) l)"
  by (simp add: seqM_def fun_eq_iff split: sum.splits prod.splits)

lemma seqM_Inr:
  assumes "seqM m k s = Inr (b, s'')"
  obtains a s' where "m s = Inr (a, s')" "k a s' = Inr (b, s'')"
  using assms by (auto simp: seqM_def split: sum.splits prod.splits)

section \<open>Loops\<close>

text \<open>
  \<open>loopM body x\<close> runs \<open>body x\<close>: the result \<open>Inl x'\<close> goes round again with \<open>x'\<close>, the
  result \<open>Inr a\<close> leaves the loop with \<open>a\<close>.  A loop that never leaves is the fault
  \<open>Diverges\<close>.
\<close>

datatype ('s, 'x, 'a) loop_state = Running 'x 's | Finished "fault + ('a \<times> 's)"

fun loop_running :: "('s, 'x, 'a) loop_state \<Rightarrow> bool" where
  "loop_running (Running x s) = True"
| "loop_running (Finished r) = False"

fun loop_step ::
  "('x \<Rightarrow> ('s, 'x + 'a) prog) \<Rightarrow> ('s, 'x, 'a) loop_state \<Rightarrow> ('s, 'x, 'a) loop_state" where
  "loop_step body (Running x s) =
     (case body x s of
        Inl f \<Rightarrow> Finished (Inl f)
      | Inr (Inl x', s') \<Rightarrow> Running x' s'
      | Inr (Inr a, s') \<Rightarrow> Finished (Inr (a, s')))"
| "loop_step body (Finished r) = Finished r"

definition loopM :: "('x \<Rightarrow> ('s, 'x + 'a) prog) \<Rightarrow> 'x \<Rightarrow> ('s, 'a) prog" where
  "loopM body x s =
     (case while_option loop_running (loop_step body) (Running x s) of
        Some (Finished r) \<Rightarrow> r
      | _ \<Rightarrow> Inl Diverges)"

lemma while_loop_finished:
  "while_option loop_running (loop_step body) st = Some st' \<Longrightarrow> \<exists>r. st' = Finished r"
  by (cases st') (auto dest: while_option_stop)

lemma loopM_unfold [code]:
  "loopM body x s =
     (case body x s of
        Inl f \<Rightarrow> Inl f
      | Inr (Inl x', s') \<Rightarrow> loopM body x' s'
      | Inr (Inr a, s') \<Rightarrow> Inr (a, s'))"
proof -
  have fin: "while_option loop_running (loop_step body) (Finished r) = Some (Finished r)" for r
    by (subst while_option_unfold) simp
  show ?thesis
    unfolding loopM_def
    by (subst while_option_unfold) (simp add: fin split: sum.split prod.split)
qed

lemmas loopM_run = loopM_unfold seqM_apply

text \<open>A loop leaves by its measure, and keeps what its body keeps.\<close>

lemma loopM_rule:
  fixes m :: "'x \<Rightarrow> 's \<Rightarrow> nat"
  assumes "I x s"
    and step: "\<And>x s. I x s \<Longrightarrow>
      (case body x s of
         Inl f \<Rightarrow> F f
       | Inr (Inl x', s') \<Rightarrow> I x' s' \<and> m x' s' < m x s
       | Inr (Inr a, s') \<Rightarrow> Q a s')"
  shows "case loopM body x s of Inl f \<Rightarrow> F f | Inr (a, s') \<Rightarrow> Q a s'"
  using \<open>I x s\<close>
proof (induction "m x s" arbitrary: x s rule: less_induct)
  case less
  have IH: "I x' s' \<Longrightarrow> m x' s' < m x s \<Longrightarrow>
      (case loopM body x' s' of Inl f \<Rightarrow> F f | Inr (a, t) \<Rightarrow> Q a t)" for x' s'
    by (rule less.hyps)
  from step [OF less.prems] show ?case
    by (subst loopM_unfold) (force split: sum.splits prod.splits dest: IH)
qed

text \<open>A loop whose body always goes round again runs for ever, and faults in no round.\<close>

lemma loopM_forever:
  assumes "I x s"
    and step: "\<And>x s. I x s \<Longrightarrow> \<exists>x' s'. body x s = Inr (Inl x', s') \<and> I x' s'"
  shows "loopM body x s = Inl Diverges"
proof (cases "while_option loop_running (loop_step body) (Running x s)")
  case (Some st)
  have "\<exists>x s. st = Running x s \<and> I x s"
  proof (rule while_option_rule [OF _ Some, where P = "\<lambda>st. \<exists>x s. st = Running x s \<and> I x s"])
    show "\<exists>x s. loop_step body t = Running x s \<and> I x s"
      if "\<exists>x s. t = Running x s \<and> I x s" "loop_running t" for t
      using that step by fastforce
  qed (use \<open>I x s\<close> in blast)
  with while_option_stop [OF Some] show ?thesis by auto
qed (simp add: loopM_def)

text \<open>The same without a measure: what the loop guarantees if it leaves.\<close>

lemma loopM_partial:
  assumes "loopM body x s = Inr (a, s')" and "I x s"
    and step: "\<And>x s r s'. I x s \<Longrightarrow> body x s = Inr (r, s') \<Longrightarrow>
      (case r of Inl x' \<Rightarrow> I x' s' | Inr a \<Rightarrow> Q a s')"
  shows "Q a s'"
proof -
  define J where "J st = (case st of Running x s \<Rightarrow> I x s
     | Finished r \<Rightarrow> (case r of Inl f \<Rightarrow> True | Inr (a, s') \<Rightarrow> Q a s'))" for st
  from assms(1) obtain st where
    w: "while_option loop_running (loop_step body) (Running x s) = Some st"
    and st: "st = Finished (Inr (a, s'))"
    by (auto simp: loopM_def split: option.splits loop_state.splits)
  have "J st"
  proof (rule while_option_rule [OF _ w, where P = J])
    show "J (Running x s)" using \<open>I x s\<close> by (simp add: J_def)
    show "J (loop_step body t)" if "J t" "loop_running t" for t
      using that step by (cases t) (fastforce simp: J_def split: sum.splits prod.splits)+
  qed
  then show ?thesis by (simp add: st J_def)
qed

section \<open>Carrying properties through programs\<close>

text \<open>
  \<open>keeps I m\<close>: when \<open>m\<close> returns from a state with \<open>I\<close>, \<open>I\<close> holds again (a fault ends the
  process, so nothing is left to keep).  \<open>ends P m Q\<close>: from a state with \<open>P\<close>, whenever \<open>m\<close>
  returns \<open>a\<close> in \<open>s\<close>, \<open>Q a s\<close>.
\<close>

definition keeps :: "('s \<Rightarrow> bool) \<Rightarrow> ('s, 'a) prog \<Rightarrow> bool" where
  "keeps I m \<longleftrightarrow> (\<forall>s a s'. I s \<longrightarrow> m s = Inr (a, s') \<longrightarrow> I s')"

definition ends :: "('s \<Rightarrow> bool) \<Rightarrow> ('s, 'a) prog \<Rightarrow> ('a \<Rightarrow> 's \<Rightarrow> bool) \<Rightarrow> bool" where
  "ends P m Q \<longleftrightarrow> (\<forall>s a s'. P s \<longrightarrow> m s = Inr (a, s') \<longrightarrow> Q a s')"

lemma keepsD: "keeps I m \<Longrightarrow> I s \<Longrightarrow> m s = Inr (a, s') \<Longrightarrow> I s'"
  by (simp add: keeps_def)

lemma keepsI: "(\<And>s a s'. I s \<Longrightarrow> m s = Inr (a, s') \<Longrightarrow> I s') \<Longrightarrow> keeps I m"
  by (simp add: keeps_def)

lemma endsD: "ends P m Q \<Longrightarrow> P s \<Longrightarrow> m s = Inr (a, s') \<Longrightarrow> Q a s'"
  by (simp add: ends_def)

lemma endsI: "(\<And>s a s'. P s \<Longrightarrow> m s = Inr (a, s') \<Longrightarrow> Q a s') \<Longrightarrow> ends P m Q"
  by (simp add: ends_def)

lemma keeps_iff_ends: "keeps I m \<longleftrightarrow> ends I m (\<lambda>_. I)"
  by (simp add: keeps_def ends_def)

lemma keeps_ret [keeps_intro]: "keeps I (ret a)"
  by (simp add: keeps_def)

lemma keeps_crash [keeps_intro]: "keeps I (crash f)"
  by (simp add: keeps_def)

lemma keeps_getS [keeps_intro]: "keeps I (getS f)"
  by (simp add: keeps_def)

lemma keeps_derefM [keeps_intro]: "keeps I (derefM f x)"
  by (cases x) (simp_all add: keeps_def)

lemma keeps_modS: "(\<And>s. I s \<Longrightarrow> I (f s)) \<Longrightarrow> keeps I (modS f)"
  by (auto simp: keeps_def)

lemma keeps_seqM [keeps_intro]:
  "keeps I m \<Longrightarrow> (\<And>a. keeps I (k a)) \<Longrightarrow> keeps I (seqM m k)"
  unfolding keeps_def by (blast elim: seqM_Inr)

lemma keeps_if [keeps_intro]:
  "(b \<Longrightarrow> keeps I m) \<Longrightarrow> (\<not> b \<Longrightarrow> keeps I n) \<Longrightarrow> keeps I (if b then m else n)"
  by simp

lemma keeps_option [keeps_intro]:
  "(x = None \<Longrightarrow> keeps I m) \<Longrightarrow> (\<And>a. x = Some a \<Longrightarrow> keeps I (n a)) \<Longrightarrow>
   keeps I (case x of None \<Rightarrow> m | Some a \<Rightarrow> n a)"
  by (cases x) simp_all

lemma keeps_sum [keeps_intro]:
  "(\<And>e. x = Inl e \<Longrightarrow> keeps I (m e)) \<Longrightarrow> (\<And>a. x = Inr a \<Longrightarrow> keeps I (n a)) \<Longrightarrow>
   keeps I (case x of Inl e \<Rightarrow> m e | Inr a \<Rightarrow> n a)"
  by (cases x) simp_all

lemma keeps_prod [keeps_intro]:
  "(\<And>a b. x = (a, b) \<Longrightarrow> keeps I (m a b)) \<Longrightarrow> keeps I (case x of (a, b) \<Rightarrow> m a b)"
  by (cases x) simp

lemma keeps_let [keeps_intro]: "keeps I (f x) \<Longrightarrow> keeps I (let y = x in f y)"
  by simp

lemma keeps_loopM [keeps_intro]:
  "(\<And>x. keeps I (body x)) \<Longrightarrow> keeps I (loopM body x)"
  by (rule keepsI, erule loopM_partial [where I = "\<lambda>_. I"])
     (auto split: sum.splits dest: keepsD)

lemma ends_ret [ends_intro]: "(\<And>s. P s \<Longrightarrow> Q a s) \<Longrightarrow> ends P (ret a) Q"
  by (simp add: ends_def)

lemma ends_crash [ends_intro]: "ends P (crash f) Q"
  by (simp add: ends_def)

lemma ends_branch [ends_intro]:
  "(b \<Longrightarrow> ends P m Q) \<Longrightarrow> (\<not> b \<Longrightarrow> ends P n Q) \<Longrightarrow> ends P (if b then m else n) Q"
  "(x = None \<Longrightarrow> ends P m Q) \<Longrightarrow> (\<And>a. x = Some a \<Longrightarrow> ends P (k a) Q) \<Longrightarrow>
   ends P (case x of None \<Rightarrow> m | Some a \<Rightarrow> k a) Q"
  "(\<And>e. y = Inl e \<Longrightarrow> ends P (l e) Q) \<Longrightarrow> (\<And>a. y = Inr a \<Longrightarrow> ends P (r a) Q) \<Longrightarrow>
   ends P (case y of Inl e \<Rightarrow> l e | Inr a \<Rightarrow> r a) Q"
  "(\<And>a b. z = (a, b) \<Longrightarrow> ends P (q a b) Q) \<Longrightarrow> ends P (case z of (a, b) \<Rightarrow> q a b) Q"
  by (simp_all split: option.split sum.split prod.split)

lemma ends_seqM:
  "ends P m R \<Longrightarrow> (\<And>a. ends (R a) (k a) Q) \<Longrightarrow> ends P (seqM m k) Q"
  unfolding ends_def by (blast elim: seqM_Inr)

lemma ends_weaken: "ends P m R \<Longrightarrow> (\<And>a s. R a s \<Longrightarrow> Q a s) \<Longrightarrow> ends P m Q"
  by (auto simp: ends_def)

lemma ends_at: "ends P m (\<lambda>x s. x = v \<and> R s) \<Longrightarrow> ends R (k v) Q \<Longrightarrow> ends P (seqM m k) Q"
  unfolding ends_def by (blast elim: seqM_Inr)

lemma ends_keeps: "keeps I m \<Longrightarrow> (\<And>s. P s \<Longrightarrow> I s) \<Longrightarrow> ends P m (\<lambda>_. I)"
  unfolding keeps_def ends_def by blast

lemma ends_through: "keeps I m \<Longrightarrow> (\<And>a. ends I (k a) Q) \<Longrightarrow> ends I (seqM m k) Q"
  by (rule ends_seqM [where R = "\<lambda>_. I"]) (simp_all add: keeps_iff_ends)

lemma ends_any: "(\<And>a. ends (\<lambda>_. True) (k a) Q) \<Longrightarrow> ends P (seqM m k) Q"
  by (rule ends_seqM [where R = "\<lambda>_ _. True"]) (simp_all add: ends_def)

lemma ends_from: "ends P' m Q \<Longrightarrow> (\<And>s. P s \<Longrightarrow> P' s) \<Longrightarrow> ends P m Q"
  by (auto simp: ends_def)

lemma ends_pre: "(A \<Longrightarrow> ends P m Q) \<Longrightarrow> ends (\<lambda>s. A \<and> P s) m Q"
  by (auto simp: ends_def)

lemma ends_all: "keeps I m \<Longrightarrow> keeps J m \<Longrightarrow> ends (\<lambda>s. I s \<and> J s) m (\<lambda>_ s. I s \<and> J s)"
  unfolding keeps_def ends_def by blast

section \<open>Memory\<close>

text \<open>
  Addresses are natural numbers and an allocation never reuses one, so a pointer to a
  released block stays recognisably dangling.
\<close>

type_synonym addr = nat

section \<open>Machine integers\<close>

text \<open>C's \<open>int\<close>: the value of the low 32 bits, read as two's complement.\<close>

definition to_int32 :: "64 word \<Rightarrow> int" where
  "to_int32 w = sint (ucast w :: 32 word)"

lemma to_int32_range: "- (2 ^ 31) \<le> to_int32 w \<and> to_int32 w < 2 ^ 31"
  unfolding to_int32_def
  using sint_greater_eq [of "ucast w :: 32 word"] sint_less [of "ucast w :: 32 word"] by simp

end
