(* ===== verification/Cstring.thy ===== *)
theory Cstring
  imports Prelude
begin

text \<open>
  The string functions of the C library that the program uses, on character lists without
  their terminating NUL: searching, comparing, decimal conversion.  A null pointer is
  \<open>None\<close> of an option.  The round trip of the decimal conversion is what the metadata
  component rests on.
\<close>

section \<open>Searching\<close>

text \<open>\<open>strchr\<close> and \<open>strstr\<close> return the rest of the string from the place they found.\<close>

definition strchr :: "string \<Rightarrow> char \<Rightarrow> string option" where
  "strchr s c = (case dropWhile (\<lambda>x. x \<noteq> c) s of [] \<Rightarrow> None | t \<Rightarrow> Some t)"

definition strrchr :: "string \<Rightarrow> char \<Rightarrow> nat option" where
  "strrchr s c =
     (case dropWhile (\<lambda>x. x \<noteq> c) (rev s) of [] \<Rightarrow> None | x # t \<Rightarrow> Some (length t))"

fun strstr :: "string \<Rightarrow> string \<Rightarrow> string option" where
  "strstr [] pat = (if pat = [] then Some [] else None)"
| "strstr (c # cs) pat =
     (if take (length pat) (c # cs) = pat then Some (c # cs) else strstr cs pat)"

lemma dropWhile_neq_Cons:
  "dropWhile (\<lambda>x. x \<noteq> c) s = y # t \<Longrightarrow> y = c \<and> (\<exists>p. s = p @ c # t \<and> c \<notin> set p)"
proof (induction s)
  case (Cons a s)
  then show ?case
  proof (cases "a = c")
    case False
    with Cons obtain p where "y = c" "s = p @ c # t" "c \<notin> set p" by auto
    with False show ?thesis by (intro conjI exI [of _ "a # p"]) auto
  qed auto
qed simp

lemma strchr_Some: "strchr s c = Some t \<Longrightarrow> \<exists>p r. s = p @ c # r \<and> t = c # r \<and> c \<notin> set p"
proof (cases "dropWhile (\<lambda>x. x \<noteq> c) s")
  case (Cons y r)
  moreover assume "strchr s c = Some t"
  ultimately have "t = y # r" by (simp add: strchr_def)
  then show ?thesis using dropWhile_neq_Cons [OF Cons] by blast
qed (simp add: strchr_def)

lemma strchr_None: "strchr s c = None \<longleftrightarrow> c \<notin> set s"
  by (auto simp: strchr_def dropWhile_eq_Nil_conv split: list.splits dest!: dropWhile_neq_Cons)

lemma strrchr_None: "strrchr s c = None \<longleftrightarrow> c \<notin> set s"
  by (auto simp: strrchr_def dropWhile_eq_Nil_conv rev_swap split: list.splits dest!: dropWhile_neq_Cons)

lemma strrchr_split: "c \<notin> set r \<Longrightarrow> strrchr (p @ c # r) c = Some (length p)"
  by (simp add: strrchr_def dropWhile_append)

lemma strrchr_Some:
  assumes "strrchr s c = Some i"
  shows "i < length s \<and> s ! i = c \<and> c \<notin> set (drop (Suc i) s)"
proof -
  from assms have "c \<in> set s" by (metis option.distinct(1) strrchr_None)
  then obtain p r where s: "s = p @ c # r" "c \<notin> set r" by (metis split_list_last)
  with assms have "i = length p" by (simp add: strrchr_split)
  with s show ?thesis by simp
qed

lemma strstr_suffix: "strstr s pat = Some t \<Longrightarrow> \<exists>p. s = p @ t \<and> take (length pat) t = pat"
proof (induction s pat rule: strstr.induct)
  case (2 c cs pat)
  then show ?case by (auto split: if_splits intro: exI [of _ "c # _"])
qed (auto split: if_splits)

section \<open>Comparing\<close>

definition tolower :: "char \<Rightarrow> char" where
  "tolower c = (let n = of_char c :: nat in
     if 65 \<le> n \<and> n \<le> 90 then ''abcdefghijklmnopqrstuvwxyz'' ! (n - 65) else c)"

definition isspace :: "char \<Rightarrow> bool" where
  "isspace c \<longleftrightarrow> c \<in> {CHR '' '', CHR 0x09, CHR 0x0A, CHR 0x0B, CHR 0x0C, CHR 0x0D}"

text \<open>
  \<open>strncmp\<close> and \<open>strncasecmp\<close> are only ever compared with zero: \<open>True\<close> is a zero result.
\<close>

definition strncmp_eq :: "string \<Rightarrow> string \<Rightarrow> nat \<Rightarrow> bool" where
  "strncmp_eq s t n \<longleftrightarrow> take n s = take n t"

definition strncasecmp_eq :: "string \<Rightarrow> string \<Rightarrow> nat \<Rightarrow> bool" where
  "strncasecmp_eq s t n \<longleftrightarrow> map tolower (take n s) = map tolower (take n t)"

section \<open>Decimal conversion\<close>

definition digit_char :: "nat \<Rightarrow> char" where
  "digit_char d = ''0123456789'' ! d"

definition is_digit :: "char \<Rightarrow> bool" where
  "is_digit c \<longleftrightarrow> 48 \<le> (of_char c :: nat) \<and> (of_char c :: nat) \<le> 57"

fun show_nat :: "nat \<Rightarrow> string" where
  "show_nat n = (if n < 10 then [digit_char n] else show_nat (n div 10) @ [digit_char (n mod 10)])"

declare show_nat.simps [simp del]

fun read_nat :: "nat \<Rightarrow> string \<Rightarrow> nat" where
  "read_nat acc [] = acc"
| "read_nat acc (c # cs) = read_nat (10 * acc + (of_char c - 48)) cs"

text \<open>\<open>printf ("%lu", w)\<close>, and \<open>strtoul (s, NULL, 10)\<close> with its saturation and sign.\<close>

definition show_ulong :: "64 word \<Rightarrow> string" where
  "show_ulong w = show_nat (unat w)"

definition strtoul :: "string \<Rightarrow> 64 word" where
  "strtoul s =
     (let t = dropWhile isspace s;
          neg = (t \<noteq> [] \<and> hd t = CHR ''-'');
          u = (if t \<noteq> [] \<and> (hd t = CHR ''-'' \<or> hd t = CHR ''+'') then tl t else t);
          v = read_nat 0 (takeWhile is_digit u)
      in if 2 ^ 64 \<le> v then - 1 else if neg then - word_of_nat v else word_of_nat v)"

lemma of_char_digit [simp]: "d < 10 \<Longrightarrow> (of_char (digit_char d) :: nat) = 48 + d"
  by (simp add: digit_char_def less_Suc_eq numeral_eq_Suc) (elim disjE; simp)

lemma is_digit_digit_char [simp]: "d < 10 \<Longrightarrow> is_digit (digit_char d)"
  by (simp add: is_digit_def)

lemma show_nat_digits: "list_all is_digit (show_nat n)"
  by (induction n rule: show_nat.induct) (subst show_nat.simps, simp)

lemma show_nat_Nil [simp]: "show_nat n \<noteq> []"
  by (subst show_nat.simps) simp

lemma read_nat_append: "read_nat acc (xs @ ys) = read_nat (read_nat acc xs) ys"
  by (induction xs arbitrary: acc) auto

lemma read_show_nat: "read_nat 0 (show_nat n) = n"
proof (induction n rule: show_nat.induct)
  case (1 n)
  then show ?case by (subst show_nat.simps) (simp add: read_nat_append)
qed

lemma is_digit_not_space: "is_digit c \<Longrightarrow> \<not> isspace c \<and> c \<noteq> CHR ''-'' \<and> c \<noteq> CHR ''+''"
  by (auto simp: is_digit_def isspace_def)

lemma strtoul_show_ulong [simp]: "strtoul (show_ulong w) = w"
proof -
  let ?s = "show_nat (unat w)"
  have d: "list_all is_digit ?s" and "?s \<noteq> []" by (simp_all add: show_nat_digits)
  then have h: "is_digit (hd ?s)" by (cases ?s) auto
  then have "dropWhile isspace ?s = ?s"
    using \<open>?s \<noteq> []\<close> is_digit_not_space by (cases ?s) auto
  moreover have "takeWhile is_digit ?s = ?s"
    using d by (simp add: takeWhile_eq_all_conv list_all_iff)
  moreover have "unat w < 2 ^ 64" using unsigned_less [of w] by simp
  ultimately show ?thesis
    using is_digit_not_space [OF h]
    by (simp add: strtoul_def show_ulong_def Let_def read_show_nat del: takeWhile_eq_all_conv)
qed

lemma length_show_nat: "n < 10 ^ k \<Longrightarrow> 0 < k \<Longrightarrow> length (show_nat n) \<le> k"
proof (induction n arbitrary: k rule: show_nat.induct)
  case (1 n)
  show ?case
  proof (cases "n < 10")
    case True
    with 1 show ?thesis by (subst show_nat.simps) simp
  next
    case False
    then obtain j where k: "k = Suc j" "0 < j" using 1 by (cases k; cases "k = 1") auto
    with 1 False have "length (show_nat (n div 10)) \<le> j" by simp
    with False k show ?thesis by (subst show_nat.simps) simp
  qed
qed

lemma length_show_ulong: "length (show_ulong w) \<le> 20"
proof -
  have "unat w < 2 ^ 64" using unsigned_less [of w] by simp
  then show ?thesis unfolding show_ulong_def by (intro length_show_nat) simp_all
qed

lemmas string_eval =
  strchr_def strrchr_def strncmp_eq_def strncasecmp_eq_def tolower_def isspace_def
  is_digit_def digit_char_def show_nat.simps show_ulong_def strtoul_def

section \<open>Formatted strings\<close>

text \<open>
  The value of a buffer filled by \<open>tmpstr_printf\<close>: \<open>vsnprintf\<close> keeps 2047 characters and
  the NUL.  (Which buffer it is, and for how long it lives, is modelled in \<open>Tmpstr\<close>.)
  A null string printed with \<open>%s\<close> is the C library's \<open>(null)\<close>.
\<close>

definition tmpstr_max :: nat where
  "tmpstr_max = 2048"

definition fmt :: "string \<Rightarrow> string" where
  "fmt s = take (tmpstr_max - 1) s"

definition cstr :: "string option \<Rightarrow> string" where
  "cstr p = (case p of None \<Rightarrow> ''(null)'' | Some s \<Rightarrow> s)"

lemma fmt_short [simp]: "length s < tmpstr_max \<Longrightarrow> fmt s = s"
  by (simp add: fmt_def)

lemma length_fmt: "length (fmt s) < tmpstr_max"
  by (simp add: fmt_def tmpstr_max_def)

lemma cstr_Some [simp]: "cstr (Some s) = s"
  by (simp add: cstr_def)

end
