(* ===== verification/Clist.thy ===== *)
theory Clist
  imports Cstring
begin

text \<open>
  The singly linked lists of \<open>src/list.c\<close>, on an explicit heap of cells and of the strings
  their \<open>data\<close> pointers own.  Every access to a released cell or string is the fault
  \<open>UseAfterFree\<close>, so a result \<open>Inr\<close> says the operation was memory safe.  \<open>dlist h p xs\<close>
  relates the list at \<open>p\<close> to its contents; each operation is shown to refine its functional
  counterpart on the contents, to release exactly what it removes and to leave the rest of
  the heap alone.
\<close>

section \<open>The heap\<close>

record cell =
  cdata :: "addr option"
  cnext :: "addr option"

record lheap =
  cells :: "addr \<rightharpoonup> cell"
  blocks :: "addr \<rightharpoonup> string"
  brk :: addr

definition read_cell :: "addr \<Rightarrow> (lheap, cell) prog" where
  "read_cell a h =
     (case cells h a of None \<Rightarrow> Inl UseAfterFree | Some c \<Rightarrow> Inr (c, h))"

definition read_block :: "addr option \<Rightarrow> (lheap, string) prog" where
  "read_block p h =
     (case p of None \<Rightarrow> Inl NullDeref
     | Some d \<Rightarrow> (case blocks h d of None \<Rightarrow> Inl UseAfterFree | Some s \<Rightarrow> Inr (s, h)))"

definition set_next :: "addr \<Rightarrow> addr option \<Rightarrow> (lheap, unit) prog" where
  "set_next a n h =
     (case cells h a of None \<Rightarrow> Inl UseAfterFree
     | Some c \<Rightarrow> Inr ((), h\<lparr>cells := (cells h)(a \<mapsto> c\<lparr>cnext := n\<rparr>)\<rparr>))"

definition set_data :: "addr \<Rightarrow> addr option \<Rightarrow> (lheap, unit) prog" where
  "set_data a d h =
     (case cells h a of None \<Rightarrow> Inl UseAfterFree
     | Some c \<Rightarrow> Inr ((), h\<lparr>cells := (cells h)(a \<mapsto> c\<lparr>cdata := d\<rparr>)\<rparr>))"

definition free_cell :: "addr \<Rightarrow> (lheap, unit) prog" where
  "free_cell a h =
     (case cells h a of None \<Rightarrow> Inl UseAfterFree
     | Some c \<Rightarrow> Inr ((), h\<lparr>cells := (cells h)(a := None)\<rparr>))"

text \<open>\<open>free\<close> of a null pointer does nothing.\<close>

definition free_block :: "addr option \<Rightarrow> (lheap, unit) prog" where
  "free_block p h =
     (case p of None \<Rightarrow> Inr ((), h)
     | Some d \<Rightarrow> (case blocks h d of None \<Rightarrow> Inl UseAfterFree
         | Some s \<Rightarrow> Inr ((), h\<lparr>blocks := (blocks h)(d := None)\<rparr>)))"

lemmas heap_ops =
  read_cell_def read_block_def set_next_def set_data_def free_cell_def free_block_def

section \<open>The operations of list.c\<close>

type_synonym compare_cb = "addr option \<Rightarrow> addr option \<Rightarrow> (lheap, bool) prog"

definition list_ctor :: "(lheap, addr option) prog" where
  "list_ctor = ret None"

text \<open>The boolean argument is whether \<open>malloc\<close> succeeds.\<close>

definition list_add :: "bool \<Rightarrow> addr option \<Rightarrow> addr option \<Rightarrow> (lheap, addr option) prog" where
  "list_add malloc_ok ll data =
     (if \<not> malloc_ok then ret ll
      else seqM (getS brk) (\<lambda>n.
           seqM (modS (\<lambda>h. h\<lparr>cells := (cells h)(n \<mapsto> \<lparr>cdata = data, cnext = ll\<rparr>), brk := Suc n\<rparr>))
                (\<lambda>_. ret (Some n))))"

text \<open>One round of the \<open>while\<close> loop of \<open>list_remove\<close>; its variables are \<open>prev\<close> and \<open>ll\<close>.\<close>

definition list_remove_body ::
  "addr \<Rightarrow> addr option \<Rightarrow> compare_cb \<Rightarrow> addr \<times> addr option \<Rightarrow>
   (lheap, (addr \<times> addr option) + addr option) prog" where
  "list_remove_body orig data fn = (\<lambda>(prev, ll).
     case ll of None \<Rightarrow> ret (Inr (Some orig))
     | Some l \<Rightarrow>
        seqM (read_cell l) (\<lambda>c.
        seqM (fn data (cdata c)) (\<lambda>b.
        if b then
          if l = orig then
            seqM (read_cell orig) (\<lambda>oc.
            seqM (free_block (cdata oc)) (\<lambda>_.
            seqM (free_cell orig) (\<lambda>_. ret (Inr (cnext oc)))))
          else
            seqM (set_next prev (cnext c)) (\<lambda>_.
            seqM (free_block (cdata c)) (\<lambda>_.
            seqM (free_cell l) (\<lambda>_. ret (Inr (Some orig)))))
        else ret (Inl (l, cnext c)))))"

definition list_remove ::
  "addr option \<Rightarrow> addr option \<Rightarrow> compare_cb \<Rightarrow> (lheap, addr option) prog" where
  "list_remove ll data fn =
     (if data = None then ret ll
      else case ll of None \<Rightarrow> ret None
      | Some orig \<Rightarrow> loopM (list_remove_body orig data fn) (orig, Some orig))"

text \<open>
  The loop variables are \<open>orig\<close>, \<open>prev\<close> and \<open>ll\<close>.  After the loop \<open>ll\<close> is null, so the test
  on it that follows in the source never holds.
\<close>

definition list_remove_all_body ::
  "addr option \<Rightarrow> compare_cb \<Rightarrow> addr option \<times> addr option \<times> addr option \<Rightarrow>
   (lheap, (addr option \<times> addr option \<times> addr option) + addr option) prog" where
  "list_remove_all_body data fn = (\<lambda>(orig, prev, ll).
     case ll of None \<Rightarrow> ret (Inr orig)
     | Some l \<Rightarrow>
        seqM (read_cell l) (\<lambda>c.
        seqM (fn data (cdata c)) (\<lambda>b.
        if b then
          if orig = ll then
            seqM (free_block (cdata c)) (\<lambda>_.
            seqM (free_cell l) (\<lambda>_. ret (Inl (cnext c, cnext c, cnext c))))
          else
            seqM (free_block (cdata c)) (\<lambda>_.
            seqM (free_cell l) (\<lambda>_.
            seqM (derefM NullDeref prev) (\<lambda>p.
            seqM (set_next p (cnext c)) (\<lambda>_. ret (Inl (orig, prev, cnext c))))))
        else ret (Inl (orig, ll, cnext c)))))"

definition list_remove_all ::
  "addr option \<Rightarrow> addr option \<Rightarrow> compare_cb \<Rightarrow> (lheap, addr option) prog" where
  "list_remove_all ll data fn =
     (if data = None then ret ll
      else case ll of None \<Rightarrow> ret None
      | Some _ \<Rightarrow> loopM (list_remove_all_body data fn) (ll, ll, ll))"

definition list_search ::
  "addr option \<Rightarrow> addr option \<Rightarrow> compare_cb \<Rightarrow> (lheap, addr option) prog" where
  "list_search ll data fn =
     loopM (\<lambda>ll. case ll of None \<Rightarrow> ret (Inr None)
       | Some l \<Rightarrow>
          seqM (read_cell l) (\<lambda>c.
          seqM (fn data (cdata c)) (\<lambda>b.
          if b then ret (Inr (cdata c)) else ret (Inl (cnext c))))) ll"

text \<open>
  The macro \<open>__filter\<close>: the criterion is \<open>pred fn\<close>, negated for \<open>list_rfilter\<close>; the cells
  that meet it are released.
\<close>

definition filter_body ::
  "(bool \<Rightarrow> bool) \<Rightarrow> (addr option \<Rightarrow> (lheap, bool) prog) \<Rightarrow> addr option \<times> addr \<times> addr option \<Rightarrow>
   (lheap, (addr option \<times> addr \<times> addr option) + addr option) prog" where
  "filter_body pred fn = (\<lambda>(orig, prev, ll).
     case ll of None \<Rightarrow> ret (Inr orig)
     | Some l \<Rightarrow>
        seqM (read_cell l) (\<lambda>c.
        seqM (if cdata c = None then ret True
              else seqM (fn (cdata c)) (\<lambda>b. ret (pred b))) (\<lambda>b.
        if b then
          seqM (if orig = Some l then seqM (read_cell l) (\<lambda>oc. ret (cnext oc))
                else ret orig) (\<lambda>orig'.
          seqM (set_next prev (cnext c)) (\<lambda>_.
          seqM (read_cell prev) (\<lambda>pc.
          seqM (free_block (cdata c)) (\<lambda>_.
          seqM (free_cell l) (\<lambda>_. ret (Inl (orig', prev, cnext pc)))))))
        else ret (Inl (orig, l, cnext c)))))"

definition filter_macro ::
  "(bool \<Rightarrow> bool) \<Rightarrow> addr option \<Rightarrow> (addr option \<Rightarrow> (lheap, bool) prog) \<Rightarrow>
   (lheap, addr option) prog" where
  "filter_macro pred ll fn =
     (case ll of None \<Rightarrow> ret None
      | Some first \<Rightarrow> loopM (filter_body pred fn) (Some first, first, Some first))"

definition list_filter ::
  "addr option \<Rightarrow> (addr option \<Rightarrow> (lheap, bool) prog) \<Rightarrow> (lheap, addr option) prog" where
  "list_filter ll fn = filter_macro (\<lambda>b. b) ll fn"

definition list_rfilter ::
  "addr option \<Rightarrow> (addr option \<Rightarrow> (lheap, bool) prog) \<Rightarrow> (lheap, addr option) prog" where
  "list_rfilter ll fn = filter_macro Not ll fn"

definition list_free_body :: "addr option \<Rightarrow> (lheap, addr option + unit) prog" where
  "list_free_body = (\<lambda>ll. case ll of None \<Rightarrow> ret (Inr ())
     | Some l \<Rightarrow>
        seqM (read_cell l) (\<lambda>c.
        seqM (case cdata c of None \<Rightarrow> ret ()
              | Some d \<Rightarrow> seqM (free_block (Some d)) (\<lambda>_. set_data l None)) (\<lambda>_.
        seqM (free_cell l) (\<lambda>_. ret (Inl (cnext c))))))"

definition list_free :: "addr option \<Rightarrow> (lheap, unit) prog" where
  "list_free ll = loopM list_free_body ll"

definition list_length :: "addr option \<Rightarrow> (lheap, int) prog" where
  "list_length ll =
     loopM (\<lambda>(r, ll). case ll of None \<Rightarrow> ret (Inr r)
       | Some l \<Rightarrow> seqM (read_cell l) (\<lambda>c. ret (Inl (r + 1, cnext c)))) (0, ll)"

definition list_nb_cells :: "addr option \<Rightarrow> (lheap, int) prog" where
  "list_nb_cells ll =
     loopM (\<lambda>(r, ll). case ll of None \<Rightarrow> ret (Inr r)
       | Some l \<Rightarrow> seqM (read_cell l) (\<lambda>c.
           ret (Inl (if cdata c = None then r else r + 1, cnext c)))) (0, ll)"

text \<open>\<open>list_map\<close> runs a callback on every cell that has data.\<close>

definition list_map :: "addr option \<Rightarrow> (addr option \<Rightarrow> (lheap, unit) prog) \<Rightarrow> (lheap, unit) prog" where
  "list_map ll fn =
     loopM (\<lambda>ll. case ll of None \<Rightarrow> ret (Inr ())
       | Some l \<Rightarrow> seqM (read_cell l) (\<lambda>c.
          seqM (if cdata c = None then ret () else fn (cdata c)) (\<lambda>_. ret (Inl (cnext c))))) ll"

text \<open>\<open>list_print\<close> stops at the first cell without data.\<close>

definition list_print :: "addr option \<Rightarrow> (addr option \<Rightarrow> (lheap, unit) prog) \<Rightarrow> (lheap, unit) prog" where
  "list_print ll print =
     loopM (\<lambda>ll. case ll of None \<Rightarrow> ret (Inr ())
       | Some l \<Rightarrow> seqM (read_cell l) (\<lambda>c.
          if cdata c = None then ret (Inr ())
          else seqM (print (cdata c)) (\<lambda>_. ret (Inl (cnext c))))) ll"

section \<open>Lists on the heap\<close>

text \<open>An element is its cell's address, its data's address and the string there.\<close>

type_synonym elem = "addr \<times> addr \<times> string"

abbreviation cell_of :: "elem \<Rightarrow> addr" where "cell_of x \<equiv> fst x"
abbreviation data_of :: "elem \<Rightarrow> addr" where "data_of x \<equiv> fst (snd x)"
abbreviation val_of :: "elem \<Rightarrow> string" where "val_of x \<equiv> snd (snd x)"

fun lseg :: "lheap \<Rightarrow> addr option \<Rightarrow> elem list \<Rightarrow> addr option \<Rightarrow> bool" where
  "lseg h p [] q \<longleftrightarrow> p = q"
| "lseg h p (x # xs) q \<longleftrightarrow> p = Some (cell_of x) \<and> blocks h (data_of x) = Some (val_of x) \<and>
     (\<exists>n. cells h (cell_of x) = Some \<lparr>cdata = Some (data_of x), cnext = n\<rparr> \<and> lseg h n xs q)"

definition dlist :: "lheap \<Rightarrow> addr option \<Rightarrow> elem list \<Rightarrow> bool" where
  "dlist h p xs \<longleftrightarrow> lseg h p xs None \<and> distinct (map cell_of xs) \<and> distinct (map data_of xs)"

text \<open>
  \<open>shrinks h h' xs ys\<close>: of the list \<open>xs\<close> the cells and strings of \<open>ys\<close> are left, the others
  are released, and nothing else of the heap has changed.
\<close>

definition released :: "('k \<rightharpoonup> 'v) \<Rightarrow> ('k \<rightharpoonup> 'v) \<Rightarrow> 'k set \<Rightarrow> 'k set \<Rightarrow> bool" where
  "released m m' A B \<longleftrightarrow> (\<forall>a. a \<notin> A \<longrightarrow> m' a = m a) \<and> (\<forall>a. a \<in> A \<longrightarrow> a \<notin> B \<longrightarrow> m' a = None)"

definition shrinks :: "lheap \<Rightarrow> lheap \<Rightarrow> elem list \<Rightarrow> elem list \<Rightarrow> bool" where
  "shrinks h h' xs ys \<longleftrightarrow>
     released (cells h) (cells h') (cell_of ` set xs) (cell_of ` set ys) \<and>
     released (blocks h) (blocks h') (data_of ` set xs) (data_of ` set ys) \<and>
     brk h' = brk h"

lemma released_refl: "released m m A A"
  by (simp add: released_def)

lemma released_trans: "released m m1 A B \<Longrightarrow> released m1 m2 B C \<Longrightarrow> B \<subseteq> A \<Longrightarrow> released m m2 A C"
  unfolding released_def by (metis subsetD)

text \<open>\<open>rem_first R xs\<close> is \<open>xs\<close> without its first element that satisfies \<open>R\<close>.\<close>

fun rem_first :: "('a \<Rightarrow> bool) \<Rightarrow> 'a list \<Rightarrow> 'a list" where
  "rem_first R [] = []"
| "rem_first R (x # xs) = (if R x then xs else x # rem_first R xs)"

text \<open>
  The callbacks of the list functions: a comparison reads the key and the element's string
  and changes nothing.
\<close>

definition compares :: "compare_cb \<Rightarrow> (string \<Rightarrow> string \<Rightarrow> bool) \<Rightarrow> bool" where
  "compares fn R \<longleftrightarrow> (\<forall>h k d s t. blocks h k = Some s \<longrightarrow> blocks h d = Some t \<longrightarrow>
     fn (Some k) (Some d) h = Inr (R s t, h))"

definition decides :: "(addr option \<Rightarrow> (lheap, bool) prog) \<Rightarrow> (string \<Rightarrow> bool) \<Rightarrow> bool" where
  "decides fn R \<longleftrightarrow> (\<forall>h d t. blocks h d = Some t \<longrightarrow> fn (Some d) h = Inr (R t, h))"

lemma lseg_append: "lseg h p (xs @ ys) q \<longleftrightarrow> (\<exists>r. lseg h p xs r \<and> lseg h r ys q)"
  by (induction xs arbitrary: p) auto

lemma lseg_frame:
  "lseg h p xs q \<Longrightarrow> \<forall>a \<in> cell_of ` set xs. cells h' a = cells h a \<Longrightarrow>
   \<forall>d \<in> data_of ` set xs. blocks h' d = blocks h d \<Longrightarrow> lseg h' p xs q"
  by (induction xs arbitrary: p) auto

lemma rem_first_subset: "set (rem_first R xs) \<subseteq> set xs"
  by (induction xs) auto

lemma distinct_rem_first: "distinct (map f xs) \<Longrightarrow> distinct (map f (rem_first R xs))"
  by (induction xs) (use rem_first_subset in fastforce)+

lemma map_rem_first: "map f (rem_first (\<lambda>x. R (f x)) xs) = rem_first R (map f xs)"
  by (induction xs) auto

lemma rem_first_remove1: "rem_first (\<lambda>x. k = x) xs = remove1 k xs"
  by (induction xs) auto

text \<open>Appending the element that ends a segment, and cutting the one after it.\<close>

lemma lseg_snoc_upd:
  assumes "lseg h p zs (Some a)" and "a \<notin> cell_of ` set zs"
    and "blocks h d = Some s"
    and "cells h' = (cells h)(a \<mapsto> \<lparr>cdata = Some d, cnext = q\<rparr>)" "blocks h' = blocks h"
  shows "lseg h' p (zs @ [(a, d, s)]) q"
  unfolding lseg_append using assms
  by (intro exI [of _ "Some a"] conjI lseg_frame [OF assms(1)]) auto

section \<open>Cutting a list\<close>

lemma shrinks_refl: "shrinks h h xs xs"
  by (simp add: shrinks_def released_refl)

lemma shrinks_trans:
  "shrinks h h1 xs ys \<Longrightarrow> shrinks h1 h2 ys zs \<Longrightarrow> set ys \<subseteq> set xs \<Longrightarrow> shrinks h h2 xs zs"
  unfolding shrinks_def
  by (elim conjE, intro conjI; (erule (1) released_trans [OF _ _ image_mono])?) simp_all

text \<open>The heap after the first element is released, and after the successor of \<open>x\<close> is.\<close>

definition drop_head :: "lheap \<Rightarrow> elem \<Rightarrow> lheap" where
  "drop_head h y = h\<lparr>cells := (cells h)(cell_of y := None),
                     blocks := (blocks h)(data_of y := None)\<rparr>"

definition cut_next :: "lheap \<Rightarrow> elem \<Rightarrow> elem \<Rightarrow> addr option \<Rightarrow> lheap" where
  "cut_next h x y n = h\<lparr>cells := (cells h)
       (cell_of x \<mapsto> \<lparr>cdata = Some (data_of x), cnext = n\<rparr>, cell_of y := None),
     blocks := (blocks h)(data_of y := None)\<rparr>"

lemma drop_head_lseg:
  assumes "lseg h n ys None" and "distinct (map cell_of (y # ys))" "distinct (map data_of (y # ys))"
  shows "lseg (drop_head h y) n ys None" and "shrinks h (drop_head h y) (y # ys) ys"
proof -
  show "lseg (drop_head h y) n ys None"
    by (rule lseg_frame [OF assms(1)]) (use assms(2,3) in \<open>auto simp: drop_head_def image_iff\<close>)
  show "shrinks h (drop_head h y) (y # ys) ys"
    using assms(2,3) by (auto simp: shrinks_def released_def drop_head_def)
qed

lemma cut_next_lseg:
  assumes zs: "lseg h p (zs @ [x]) q" and n: "lseg h n ys None"
    and "distinct (map cell_of (zs @ x # y # ys))" "distinct (map data_of (zs @ x # y # ys))"
  shows "lseg (cut_next h x y n) p (zs @ [x]) n"
    and "lseg (cut_next h x y n) n ys None"
    and "shrinks h (cut_next h x y n) (zs @ x # y # ys) (zs @ x # ys)"
proof -
  let ?h = "cut_next h x y n"
  have fresh: "cell_of x \<notin> cell_of ` set zs" "cell_of y \<notin> cell_of ` set zs"
    "data_of y \<notin> data_of ` set zs" "cell_of x \<notin> cell_of ` set ys"
    "cell_of y \<notin> cell_of ` set ys" "data_of y \<notin> data_of ` set ys"
    "cell_of x \<noteq> cell_of y" "data_of x \<noteq> data_of y"
    using assms(3,4) by auto
  from zs have "lseg h p zs (Some (cell_of x))" "blocks h (data_of x) = Some (val_of x)"
    by (auto simp: lseg_append)
  moreover from this(1) have "lseg ?h p zs (Some (cell_of x))"
    by (rule lseg_frame) (use fresh in \<open>auto simp: cut_next_def image_iff\<close>)
  ultimately show "lseg ?h p (zs @ [x]) n"
    using fresh by (subst lseg_append) (auto simp: cut_next_def)
  show "lseg ?h n ys None"
    by (rule lseg_frame [OF n]) (use fresh in \<open>auto simp: cut_next_def image_iff\<close>)
  show "shrinks h ?h (zs @ x # y # ys) (zs @ x # ys)"
    using fresh by (auto simp: shrinks_def released_def cut_next_def)
qed

lemma lseg_step:
  assumes "lseg h p (zs @ [x]) q" and "lseg h q (y # ys) None"
  obtains n where "q = Some (cell_of y)" "lseg h n ys None" "lseg h p ((zs @ [x]) @ [y]) n"
    "cells h (cell_of y) = Some \<lparr>cdata = Some (data_of y), cnext = n\<rparr>"
    "blocks h (data_of y) = Some (val_of y)"
    "\<exists>m. cells h (cell_of x) = Some \<lparr>cdata = Some (data_of x), cnext = m\<rparr>"
proof -
  from assms(2) obtain n where n: "q = Some (cell_of y)" "lseg h n ys None"
    "cells h (cell_of y) = Some \<lparr>cdata = Some (data_of y), cnext = n\<rparr>"
    "blocks h (data_of y) = Some (val_of y)" by auto
  moreover have "lseg h p ((zs @ [x]) @ [y]) n"
    using assms(1) n by (subst lseg_append) auto
  moreover have "\<exists>m. cells h (cell_of x) = Some \<lparr>cdata = Some (data_of x), cnext = m\<rparr>"
    using assms(1) by (auto simp: lseg_append)
  ultimately show ?thesis using that by blast
qed

lemma lseg_head_neq:
  "lseg h (Some orig) (zs @ [x]) q \<Longrightarrow> distinct (map cell_of (zs @ x # y # ys)) \<Longrightarrow> cell_of y \<noteq> orig"
  by (cases zs) auto

lemma dlist_step:
  assumes "dlist h p (x # ys)"
  obtains n where "p = Some (cell_of x)" "lseg h n ys None" "lseg h p ([] @ [x]) n"
    "cells h (cell_of x) = Some \<lparr>cdata = Some (data_of x), cnext = n\<rparr>"
    "blocks h (data_of x) = Some (val_of x)"
    "distinct (map cell_of (x # ys))" "distinct (map data_of (x # ys))"
  using assms by (auto simp: dlist_def)

section \<open>Removing\<close>

lemma remove_tail:
  assumes "compares fn R" and "blocks h k = Some key"
    and "lseg h (Some orig) (zs @ [x]) ll" and "lseg h ll ys None"
    and "distinct (map cell_of (zs @ x # ys))" and "distinct (map data_of (zs @ x # ys))"
  shows "\<exists>h'. loopM (list_remove_body orig (Some k) fn) (cell_of x, ll) h = Inr (Some orig, h') \<and>
     dlist h' (Some orig) (zs @ x # rem_first (\<lambda>y. R key (val_of y)) ys) \<and>
     shrinks h h' (zs @ x # ys) (zs @ x # rem_first (\<lambda>y. R key (val_of y)) ys)"
  using assms(3-)
proof (induction ys arbitrary: zs x ll)
  case Nil
  then show ?case
    by (subst loopM_unfold) (simp add: list_remove_body_def dlist_def shrinks_refl)
next
  case (Cons y ys)
  from Cons.prems(1,2) obtain n where y: "ll = Some (cell_of y)" "lseg h n ys None"
    "lseg h (Some orig) ((zs @ [x]) @ [y]) n"
    "cells h (cell_of y) = Some \<lparr>cdata = Some (data_of y), cnext = n\<rparr>"
    "blocks h (data_of y) = Some (val_of y)"
    and "\<exists>m. cells h (cell_of x) = Some \<lparr>cdata = Some (data_of x), cnext = m\<rparr>"
    by (rule lseg_step)
  moreover have neq: "cell_of y \<noteq> orig" "cell_of x \<noteq> cell_of y"
    using lseg_head_neq [OF Cons.prems(1,3)] Cons.prems(3) by auto
  moreover have fn: "fn (Some k) (Some (data_of y)) h = Inr (R key (val_of y), h)"
    using assms(1,2) y by (simp add: compares_def)
  ultimately have body: "list_remove_body orig (Some k) fn (cell_of x, ll) h =
      (if R key (val_of y) then Inr (Inr (Some orig), cut_next h x y n) else Inr (Inl (cell_of y, n), h))"
    by (auto simp: list_remove_body_def seqM_apply heap_ops cut_next_def)
  show ?case
  proof (cases "R key (val_of y)")
    case False
    with Cons.IH [OF y(3,2)] Cons.prems(3,4) body show ?thesis
      by (subst loopM_unfold) simp
  next
    case True
    have "dlist (cut_next h x y n) (Some orig) (zs @ x # ys)"
      using cut_next_lseg(1,2) [OF Cons.prems(1) y(2) Cons.prems(3,4)] Cons.prems(3,4)
      by (auto simp: dlist_def lseg_append)
    then show ?thesis
      using body True cut_next_lseg(3) [OF Cons.prems(1) y(2) Cons.prems(3,4)]
      by (subst loopM_unfold) simp
  qed
qed

theorem list_remove_correct:
  assumes "compares fn R" and "blocks h k = Some key" and "dlist h p xs"
  shows "\<exists>p' h'. list_remove p (Some k) fn h = Inr (p', h') \<and>
     dlist h' p' (rem_first (\<lambda>x. R key (val_of x)) xs) \<and>
     shrinks h h' xs (rem_first (\<lambda>x. R key (val_of x)) xs)"
proof (cases xs)
  case Nil
  with assms(3) show ?thesis
    by (auto simp: list_remove_def dlist_def shrinks_refl)
next
  case (Cons x ys)
  from assms(3) [unfolded Cons] obtain n where x: "p = Some (cell_of x)" "lseg h n ys None"
    "lseg h p ([] @ [x]) n"
    "cells h (cell_of x) = Some \<lparr>cdata = Some (data_of x), cnext = n\<rparr>"
    "blocks h (data_of x) = Some (val_of x)"
    "distinct (map cell_of (x # ys))" "distinct (map data_of (x # ys))" by (rule dlist_step)
  moreover have "fn (Some k) (Some (data_of x)) h = Inr (R key (val_of x), h)"
    using assms(1,2) x by (simp add: compares_def)
  ultimately have body: "list_remove_body (cell_of x) (Some k) fn (cell_of x, p) h =
      (if R key (val_of x) then Inr (Inr n, drop_head h x) else Inr (Inl (cell_of x, n), h))"
    by (simp add: list_remove_body_def seqM_apply heap_ops drop_head_def)
  have run: "list_remove p (Some k) fn h =
      loopM (list_remove_body (cell_of x) (Some k) fn) (cell_of x, p) h"
    by (simp add: list_remove_def x(1))
  show ?thesis
  proof (cases "R key (val_of x)")
    case True
    with body drop_head_lseg [OF x(2,6,7)] x(6,7) show ?thesis
      unfolding run Cons by (subst loopM_unfold) (simp add: dlist_def)
  next
    case False
    with body remove_tail [OF assms(1,2) x(3) [unfolded x(1)] x(2)] x(6,7) show ?thesis
      unfolding run Cons by (subst loopM_unfold) auto
  qed
qed

lemma lseg_join:
  "lseg h p (zs @ [x]) n \<Longrightarrow> lseg h n ys None \<Longrightarrow> distinct (map cell_of (zs @ x # ys)) \<Longrightarrow>
   distinct (map data_of (zs @ x # ys)) \<Longrightarrow> dlist h p (zs @ x # ys)"
  using lseg_append [of h p "zs @ [x]" ys None] by (auto simp: dlist_def)

lemma remove_all_tail:
  assumes "compares fn R" and "blocks h k = Some key" and "k \<notin> data_of ` set (zs @ x # ys)"
    and "lseg h (Some orig) (zs @ [x]) ll" and "lseg h ll ys None"
    and "distinct (map cell_of (zs @ x # ys))" and "distinct (map data_of (zs @ x # ys))"
  shows "\<exists>h'. loopM (list_remove_all_body (Some k) fn) (Some orig, Some (cell_of x), ll) h =
       Inr (Some orig, h') \<and>
     dlist h' (Some orig) (zs @ x # filter (\<lambda>y. \<not> R key (val_of y)) ys) \<and>
     shrinks h h' (zs @ x # ys) (zs @ x # filter (\<lambda>y. \<not> R key (val_of y)) ys)"
  using assms(2-)
proof (induction ys arbitrary: zs x ll h)
  case Nil
  then show ?case
    by (subst loopM_unfold) (simp add: list_remove_all_body_def dlist_def shrinks_refl)
next
  case (Cons y ys)
  from Cons.prems(3,4) obtain n where y: "ll = Some (cell_of y)" "lseg h n ys None"
    "lseg h (Some orig) ((zs @ [x]) @ [y]) n"
    "cells h (cell_of y) = Some \<lparr>cdata = Some (data_of y), cnext = n\<rparr>"
    "blocks h (data_of y) = Some (val_of y)"
    and "\<exists>m. cells h (cell_of x) = Some \<lparr>cdata = Some (data_of x), cnext = m\<rparr>"
    by (rule lseg_step)
  moreover have "cell_of y \<noteq> orig" "cell_of x \<noteq> cell_of y"
    using lseg_head_neq [OF Cons.prems(3,5)] Cons.prems(5) by auto
  moreover have "fn (Some k) (Some (data_of y)) h = Inr (R key (val_of y), h)"
    using assms(1) Cons.prems(1) y by (simp add: compares_def)
  ultimately have body: "list_remove_all_body (Some k) fn (Some orig, Some (cell_of x), ll) h =
      (if R key (val_of y) then Inr (Inl (Some orig, Some (cell_of x), n), cut_next h x y n)
       else Inr (Inl (Some orig, Some (cell_of y), n), h))"
    by (auto simp: list_remove_all_body_def seqM_apply heap_ops cut_next_def fun_upd_twist)
  show ?case
  proof (cases "R key (val_of y)")
    case False
    with Cons.IH [OF Cons.prems(1) _ y(3,2)] Cons.prems(2,5,6) body show ?thesis
      by (subst loopM_unfold) simp
  next
    case True
    note cut = cut_next_lseg [OF Cons.prems(3) y(2) Cons.prems(5,6)]
    have "blocks (cut_next h x y n) k = Some key"
      using Cons.prems(1,2) by (auto simp: cut_next_def)
    from Cons.IH [OF this _ cut(1,2)] Cons.prems(2,5,6) obtain h' where
      "loopM (list_remove_all_body (Some k) fn) (Some orig, Some (cell_of x), n) (cut_next h x y n)
         = Inr (Some orig, h')"
      "dlist h' (Some orig) (zs @ x # filter (\<lambda>y. \<not> R key (val_of y)) ys)"
      "shrinks (cut_next h x y n) h' (zs @ x # ys) (zs @ x # filter (\<lambda>y. \<not> R key (val_of y)) ys)"
      by auto
    with body True shrinks_trans [OF cut(3)] show ?thesis
      by (subst loopM_unfold) auto
  qed
qed

text \<open>
  C24. \<open>list_remove_all\<close> takes out every element that the callback finds equal to the key and
  keeps the others in their order; exactly the cells and the strings of the removed elements
  are released, and no other memory is touched.
\<close>

theorem list_remove_all_correct:
  assumes "compares fn R" and "blocks h k = Some key" and "k \<notin> data_of ` set xs" and "dlist h p xs"
  shows "\<exists>p' h'. list_remove_all p (Some k) fn h = Inr (p', h') \<and>
     dlist h' p' (filter (\<lambda>x. \<not> R key (val_of x)) xs) \<and>
     shrinks h h' xs (filter (\<lambda>x. \<not> R key (val_of x)) xs)"
proof -
  have "\<exists>p' h'. loopM (list_remove_all_body (Some k) fn) (p, p, p) h = Inr (p', h') \<and>
     dlist h' p' (filter (\<lambda>x. \<not> R key (val_of x)) xs) \<and>
     shrinks h h' xs (filter (\<lambda>x. \<not> R key (val_of x)) xs)"
    using assms(2-)
  proof (induction xs arbitrary: h p)
    case Nil
    then show ?case
      by (subst loopM_unfold) (auto simp: list_remove_all_body_def dlist_def shrinks_refl)
  next
    case (Cons x ys)
    from Cons.prems(3) obtain n where x: "p = Some (cell_of x)" "lseg h n ys None"
      "lseg h p ([] @ [x]) n"
      "cells h (cell_of x) = Some \<lparr>cdata = Some (data_of x), cnext = n\<rparr>"
      "blocks h (data_of x) = Some (val_of x)"
      "distinct (map cell_of (x # ys))" "distinct (map data_of (x # ys))" by (rule dlist_step)
    moreover have "fn (Some k) (Some (data_of x)) h = Inr (R key (val_of x), h)"
      using assms(1) Cons.prems(1) x by (simp add: compares_def)
    ultimately have body: "list_remove_all_body (Some k) fn (p, p, p) h =
        (if R key (val_of x) then Inr (Inl (n, n, n), drop_head h x) else Inr (Inl (p, p, n), h))"
      by (simp add: list_remove_all_body_def seqM_apply heap_ops drop_head_def)
    show ?case
    proof (cases "R key (val_of x)")
      case True
      note drop = drop_head_lseg [OF x(2,6,7)]
      have "blocks (drop_head h x) k = Some key" "dlist (drop_head h x) n ys"
        using Cons.prems(1,2) drop(1) x(6,7) by (auto simp: drop_head_def dlist_def)
      from Cons.IH [OF this(1) _ this(2)] Cons.prems(2) obtain p' h' where
        "loopM (list_remove_all_body (Some k) fn) (n, n, n) (drop_head h x) = Inr (p', h')"
        "dlist h' p' (filter (\<lambda>x. \<not> R key (val_of x)) ys)"
        "shrinks (drop_head h x) h' ys (filter (\<lambda>x. \<not> R key (val_of x)) ys)"
        by auto
      with body True shrinks_trans [OF drop(2)] show ?thesis
        by (subst loopM_unfold) auto
    next
      case False
      with body remove_all_tail [OF assms(1) Cons.prems(1) _ x(3) [unfolded x(1)] x(2)] x(1,6,7)
        Cons.prems(2)
      show ?thesis by (subst loopM_unfold) auto
    qed
  qed
  with assms(4) show ?thesis
    by (cases xs) (auto simp: list_remove_all_def dlist_def shrinks_refl)
qed

section \<open>Filtering\<close>

lemma filter_body_run:
  assumes "decides fn R"
    and "cells h (cell_of y) = Some \<lparr>cdata = Some (data_of y), cnext = n\<rparr>"
    and "blocks h (data_of y) = Some (val_of y)"
  shows "filter_body pred fn (orig, prev, Some (cell_of y)) h =
     (if \<not> pred (R (val_of y)) then Inr (Inl (orig, cell_of y, n), h)
      else case (cells h)(prev := map_option (\<lambda>c. c\<lparr>cnext := n\<rparr>) (cells h prev)) of cs \<Rightarrow>
        if cells h prev = None then Inl UseAfterFree
        else Inr (Inl (if orig = Some (cell_of y) then n else orig, prev, n),
               h\<lparr>cells := cs(cell_of y := None), blocks := (blocks h)(data_of y := None)\<rparr>))"
proof -
  have "fn (Some (data_of y)) h = Inr (R (val_of y), h)"
    using assms by (simp add: decides_def)
  with assms(2,3) show ?thesis
    by (auto simp: filter_body_def seqM_apply heap_ops fun_upd_twist split: option.splits)
qed

lemma filter_tail:
  assumes "decides fn R"
    and "lseg h (Some orig) (zs @ [x]) ll" and "lseg h ll ys None"
    and "distinct (map cell_of (zs @ x # ys))" and "distinct (map data_of (zs @ x # ys))"
  shows "\<exists>h'. loopM (filter_body pred fn) (Some orig, cell_of x, ll) h = Inr (Some orig, h') \<and>
     dlist h' (Some orig) (zs @ x # filter (\<lambda>y. \<not> pred (R (val_of y))) ys) \<and>
     shrinks h h' (zs @ x # ys) (zs @ x # filter (\<lambda>y. \<not> pred (R (val_of y))) ys)"
  using assms(2-)
proof (induction ys arbitrary: zs x ll h)
  case Nil
  then show ?case
    by (subst loopM_unfold) (simp add: filter_body_def dlist_def shrinks_refl)
next
  case (Cons y ys)
  from Cons.prems(1,2) obtain n where y: "ll = Some (cell_of y)" "lseg h n ys None"
    "lseg h (Some orig) ((zs @ [x]) @ [y]) n"
    "cells h (cell_of y) = Some \<lparr>cdata = Some (data_of y), cnext = n\<rparr>"
    "blocks h (data_of y) = Some (val_of y)"
    and "\<exists>m. cells h (cell_of x) = Some \<lparr>cdata = Some (data_of x), cnext = m\<rparr>"
    by (rule lseg_step)
  moreover have "orig \<noteq> cell_of y" "cell_of x \<noteq> cell_of y"
    using lseg_head_neq [OF Cons.prems(1,3)] Cons.prems(3) by auto
  ultimately have body: "filter_body pred fn (Some orig, cell_of x, ll) h =
      (if pred (R (val_of y)) then Inr (Inl (Some orig, cell_of x, n), cut_next h x y n)
       else Inr (Inl (Some orig, cell_of y, n), h))"
    using filter_body_run [OF assms(1) y(4,5)] by (auto simp: cut_next_def)
  show ?case
  proof (cases "pred (R (val_of y))")
    case False
    with Cons.IH [OF y(3,2)] Cons.prems(3,4) body show ?thesis
      by (subst loopM_unfold) simp
  next
    case True
    note cut = cut_next_lseg [OF Cons.prems(1) y(2) Cons.prems(3,4)]
    from Cons.IH [OF cut(1,2)] Cons.prems(3,4) obtain h' where
      "loopM (filter_body pred fn) (Some orig, cell_of x, n) (cut_next h x y n) = Inr (Some orig, h')"
      "dlist h' (Some orig) (zs @ x # filter (\<lambda>y. \<not> pred (R (val_of y))) ys)"
      "shrinks (cut_next h x y n) h' (zs @ x # ys) (zs @ x # filter (\<lambda>y. \<not> pred (R (val_of y))) ys)"
      by auto
    with body True shrinks_trans [OF cut(3)] show ?thesis
      by (subst loopM_unfold) auto
  qed
qed

text \<open>
  The macro never updates \<open>prev\<close> when it releases the head, so a second element that
  meets the criterion writes through the released first cell.
\<close>

fun two_heads_match :: "(elem \<Rightarrow> bool) \<Rightarrow> elem list \<Rightarrow> bool" where
  "two_heads_match P (x # y # xs) \<longleftrightarrow> P x \<and> P y"
| "two_heads_match P _ \<longleftrightarrow> False"

lemma filter_second_bad:
  assumes "decides fn R" and "dlist h p (x # y # ys)"
    and "pred (R (val_of x))" "pred (R (val_of y))"
  shows "filter_macro pred p fn h = Inl UseAfterFree"
proof -
  from assms(2) obtain n where x: "p = Some (cell_of x)" "lseg h n (y # ys) None"
    "lseg h p ([] @ [x]) n"
    "cells h (cell_of x) = Some \<lparr>cdata = Some (data_of x), cnext = n\<rparr>"
    "blocks h (data_of x) = Some (val_of x)"
    "distinct (map cell_of (x # y # ys))" "distinct (map data_of (x # y # ys))" by (rule dlist_step)
  have "filter_body pred fn (p, cell_of x, p) h = Inr (Inl (n, cell_of x, n), drop_head h x)"
    using filter_body_run [OF assms(1) x(4,5)] assms(3) x(1,4) by (simp add: drop_head_def)
  moreover from drop_head_lseg(1) [OF x(2,6,7)] obtain m where n: "n = Some (cell_of y)"
    and y: "cells (drop_head h x) (cell_of y) = Some \<lparr>cdata = Some (data_of y), cnext = m\<rparr>"
      "blocks (drop_head h x) (data_of y) = Some (val_of y)" by auto
  moreover have "filter_body pred fn (n, cell_of x, n) (drop_head h x) = Inl UseAfterFree"
    using filter_body_run [OF assms(1) y] assms(4) by (simp add: n drop_head_def)
  ultimately show ?thesis
    by (simp add: filter_macro_def x(1)) (simp add: loopM_unfold)
qed

lemma filter_macro_good:
  assumes "decides fn R" and "dlist h p xs"
    and "\<not> two_heads_match (\<lambda>x. pred (R (val_of x))) xs"
  shows "\<exists>p' h'. filter_macro pred p fn h = Inr (p', h') \<and>
     dlist h' p' (filter (\<lambda>x. \<not> pred (R (val_of x))) xs) \<and>
     shrinks h h' xs (filter (\<lambda>x. \<not> pred (R (val_of x))) xs)"
proof (cases xs)
  case Nil
  with assms(2) show ?thesis by (auto simp: filter_macro_def dlist_def shrinks_refl)
next
  case (Cons x ys)
  from assms(2) [unfolded Cons] obtain n where x: "p = Some (cell_of x)" "lseg h n ys None"
    "lseg h p ([] @ [x]) n"
    "cells h (cell_of x) = Some \<lparr>cdata = Some (data_of x), cnext = n\<rparr>"
    "blocks h (data_of x) = Some (val_of x)"
    "distinct (map cell_of (x # ys))" "distinct (map data_of (x # ys))" by (rule dlist_step)
  have run: "filter_macro pred p fn h = loopM (filter_body pred fn) (p, cell_of x, p) h"
    by (simp add: filter_macro_def x(1))
  have body: "filter_body pred fn (p, cell_of x, p) h =
      (if pred (R (val_of x)) then Inr (Inl (n, cell_of x, n), drop_head h x)
       else Inr (Inl (p, cell_of x, n), h))"
    using filter_body_run [OF assms(1) x(4,5)] x(1,4) by (simp add: drop_head_def)
  note drop = drop_head_lseg [OF x(2,6,7)]
  show ?thesis
  proof (cases "pred (R (val_of x))")
    case False
    with body filter_tail [OF assms(1) x(3) [unfolded x(1)] x(2), of pred] x(1,6,7) show ?thesis
      unfolding run Cons by (subst loopM_unfold) auto
  next
    case match: True
    show ?thesis
    proof (cases ys)
      case Nil
      with match body drop x(2) show ?thesis
        unfolding run Cons
        by (subst loopM_unfold) (simp add: loopM_unfold filter_body_def dlist_def)
    next
      case ys: (Cons y zs)
      with assms(3) Cons match have nm: "\<not> pred (R (val_of y))" by simp
      from drop(1) [unfolded ys] obtain m where n: "n = Some (cell_of y)"
        and y: "cells (drop_head h x) (cell_of y) = Some \<lparr>cdata = Some (data_of y), cnext = m\<rparr>"
          "blocks (drop_head h x) (data_of y) = Some (val_of y)"
        and m: "lseg (drop_head h x) m zs None" by auto
      have "filter_body pred fn (n, cell_of x, n) (drop_head h x) =
          Inr (Inl (n, cell_of y, m), drop_head h x)"
        using filter_body_run [OF assms(1) y] nm by (simp add: n)
      moreover have "lseg (drop_head h x) (Some (cell_of y)) ([] @ [y]) m" using y by simp
      from filter_tail [OF assms(1) this m, of pred] x(6,7) ys obtain h' where
        "loopM (filter_body pred fn) (n, cell_of y, m) (drop_head h x) = Inr (n, h')"
        "dlist h' n (y # filter (\<lambda>y. \<not> pred (R (val_of y))) zs)"
        "shrinks (drop_head h x) h' (y # zs) (y # filter (\<lambda>y. \<not> pred (R (val_of y))) zs)"
        by (auto simp: n)
      moreover from shrinks_trans [OF drop(2) [unfolded ys] this(3)]
      have "shrinks h h' (x # y # zs) (y # filter (\<lambda>y. \<not> pred (R (val_of y))) zs)" by auto
      ultimately show ?thesis
        using match body nm unfolding run Cons ys
        by (subst loopM_unfold) (simp, subst loopM_unfold, simp)
    qed
  qed
qed

text \<open>
  C25. \<open>list_filter\<close> removes the elements the callback selects and releases exactly their
  memory, unless it selects the first two: then the cell of the first one is written to after
  it was released.
\<close>

theorem list_filter_correct:
  assumes "decides fn R" and "dlist h p xs"
  shows "if two_heads_match (\<lambda>x. R (val_of x)) xs then list_filter p fn h = Inl UseAfterFree
     else \<exists>p' h'. list_filter p fn h = Inr (p', h') \<and>
       dlist h' p' (filter (\<lambda>x. \<not> R (val_of x)) xs) \<and>
       shrinks h h' xs (filter (\<lambda>x. \<not> R (val_of x)) xs)"
  using filter_second_bad [OF assms(1), where pred = "\<lambda>b. b"]
    filter_macro_good [OF assms, where pred = "\<lambda>b. b"] assms(2)
  by (cases "(\<lambda>x. R (val_of x), xs)" rule: two_heads_match.cases) (auto simp: list_filter_def)

theorem list_rfilter_correct:
  assumes "decides fn R" and "dlist h p xs"
  shows "if two_heads_match (\<lambda>x. \<not> R (val_of x)) xs then list_rfilter p fn h = Inl UseAfterFree
     else \<exists>p' h'. list_rfilter p fn h = Inr (p', h') \<and>
       dlist h' p' (filter (\<lambda>x. R (val_of x)) xs) \<and>
       shrinks h h' xs (filter (\<lambda>x. R (val_of x)) xs)"
  using filter_second_bad [OF assms(1), where pred = Not]
    filter_macro_good [OF assms, where pred = Not] assms(2)
  by (cases "(\<lambda>x. \<not> R (val_of x), xs)" rule: two_heads_match.cases) (auto simp: list_rfilter_def)

section \<open>Adding, searching, counting, releasing\<close>

text \<open>
  \<open>list_add\<close> with fresh memory for the cell and a string that no element owns yet;
  \<open>bounded h\<close>: the heap is allocated below \<open>brk h\<close>.
\<close>

definition bounded :: "lheap \<Rightarrow> bool" where
  "bounded h \<longleftrightarrow> (\<forall>a. cells h a \<noteq> None \<longrightarrow> a < brk h) \<and> (\<forall>d. blocks h d \<noteq> None \<longrightarrow> d < brk h)"

lemma lseg_live: "lseg h p xs q \<Longrightarrow> x \<in> set xs \<Longrightarrow> cells h (cell_of x) \<noteq> None \<and> blocks h (data_of x) \<noteq> None"
  by (induction xs arbitrary: p) auto

lemma list_add_correct:
  assumes "bounded h" and "dlist h p xs" and "blocks h d = Some s" and "d \<notin> data_of ` set xs"
  shows "\<exists>p' h'. list_add True p (Some d) h = Inr (p', h') \<and> dlist h' p' ((brk h, d, s) # xs) \<and>
     bounded h' \<and> blocks h' = blocks h"
proof -
  have fresh: "brk h \<notin> cell_of ` set xs"
  proof
    assume "brk h \<in> cell_of ` set xs"
    then have "cells h (brk h) \<noteq> None" using assms(2) lseg_live by (fastforce simp: dlist_def)
    with assms(1) show False by (auto simp: bounded_def)
  qed
  let ?h = "h\<lparr>cells := (cells h)(brk h \<mapsto> \<lparr>cdata = Some d, cnext = p\<rparr>), brk := Suc (brk h)\<rparr>"
  have "lseg ?h p xs None"
    by (rule lseg_frame [where h = h]) (use assms(2) fresh in \<open>auto simp: dlist_def image_iff\<close>)
  then show ?thesis
    using assms fresh by (auto simp: list_add_def seqM_apply dlist_def bounded_def less_Suc_eq)
qed

lemma list_add_no_memory: "list_add False p d h = Inr (p, h)"
  by (simp add: list_add_def)

lemma list_free_correct:
  assumes "dlist h p xs"
  shows "\<exists>h'. list_free p h = Inr ((), h') \<and> shrinks h h' xs []"
  unfolding list_free_def using assms
proof (induction xs arbitrary: p h)
  case Nil
  then show ?case by (subst loopM_unfold) (auto simp: list_free_body_def dlist_def shrinks_refl)
next
  case (Cons x ys)
  from Cons.prems obtain n where x: "p = Some (cell_of x)" "lseg h n ys None"
    "cells h (cell_of x) = Some \<lparr>cdata = Some (data_of x), cnext = n\<rparr>"
    "blocks h (data_of x) = Some (val_of x)"
    "distinct (map cell_of (x # ys))" "distinct (map data_of (x # ys))" by (rule dlist_step)
  note drop = drop_head_lseg [OF x(2,5,6)]
  have body: "list_free_body p h = Inr (Inl n, drop_head h x)"
    using x(1,3,4) by (simp add: list_free_body_def seqM_apply heap_ops drop_head_def)
  from Cons.IH [of "drop_head h x" n] drop(1) x(5,6) obtain h' where
    "loopM list_free_body n (drop_head h x) = Inr ((), h')" "shrinks (drop_head h x) h' ys []"
    by (auto simp: dlist_def)
  with body shrinks_trans [OF drop(2) this(2)] show ?case
    by (subst loopM_unfold) auto
qed

lemma list_search_correct:
  assumes "compares fn R" and "blocks h k = Some key" and "lseg h p xs None"
  shows "list_search p (Some k) fn h =
     Inr (map_option data_of (find (\<lambda>x. R key (val_of x)) xs), h)"
  unfolding list_search_def using assms(3)
proof (induction xs arbitrary: p)
  case Nil
  then show ?case by (subst loopM_unfold) simp
next
  case (Cons x ys)
  moreover have "fn (Some k) (Some (data_of x)) h = Inr (R key (val_of x), h)"
    using assms(1,2) Cons.prems by (auto simp: compares_def)
  ultimately show ?case by (subst loopM_unfold) (auto simp: seqM_apply heap_ops)
qed

lemma list_length_correct: "lseg h p xs None \<Longrightarrow> list_length p h = Inr (int (length xs), h)"
proof -
  have "lseg h p xs None \<Longrightarrow> loopM (\<lambda>(r, ll). case ll of None \<Rightarrow> ret (Inr r)
       | Some l \<Rightarrow> seqM (read_cell l) (\<lambda>c. ret (Inl (r + 1, cnext c)))) (r, p) h =
     Inr (r + int (length xs), h)" for r
    by (induction xs arbitrary: p r)
       (auto simp: loopM_unfold [of _ "(_, None)"] loopM_unfold [of _ "(_, Some _)"] seqM_apply heap_ops)
  then show "lseg h p xs None \<Longrightarrow> ?thesis" by (simp add: list_length_def)
qed

lemma list_nb_cells_correct: "lseg h p xs None \<Longrightarrow> list_nb_cells p h = Inr (int (length xs), h)"
proof -
  have "lseg h p xs None \<Longrightarrow> loopM (\<lambda>(r, ll). case ll of None \<Rightarrow> ret (Inr r)
       | Some l \<Rightarrow> seqM (read_cell l) (\<lambda>c. ret (Inl (if cdata c = None then r else r + 1, cnext c))))
       (r, p) h = Inr (r + int (length xs), h)" for r
    by (induction xs arbitrary: p r)
       (auto simp: loopM_unfold [of _ "(_, None)"] loopM_unfold [of _ "(_, Some _)"] seqM_apply heap_ops)
  then show "lseg h p xs None \<Longrightarrow> ?thesis" by (simp add: list_nb_cells_def)
qed

section \<open>Witnesses\<close>

text \<open>A list of the two names \<open>a\<close> and \<open>b\<close>, and the key \<open>a\<close> in a block of its own.\<close>

definition two_names :: lheap where
  "two_names = \<lparr>cells = [0 \<mapsto> \<lparr>cdata = Some 10, cnext = Some 1\<rparr>, 1 \<mapsto> \<lparr>cdata = Some 11, cnext = None\<rparr>],
     blocks = [10 \<mapsto> ''a'', 11 \<mapsto> ''b'', 12 \<mapsto> ''a''], brk = 13\<rparr>"

definition two_elems :: "elem list" where
  "two_elems = [(0, 10, ''a''), (1, 11, ''b'')]"

definition same_text :: compare_cb where
  "same_text p q = seqM (read_block p) (\<lambda>s. seqM (read_block q) (\<lambda>t. ret (s = t)))"

definition any_text :: "addr option \<Rightarrow> (lheap, bool) prog" where
  "any_text p = seqM (read_block p) (\<lambda>s. ret True)"

lemma two_names_dlist: "dlist two_names (Some 0) two_elems"
  by (simp add: dlist_def two_names_def two_elems_def)

lemma same_text_compares: "compares same_text (=)"
  by (simp add: compares_def same_text_def read_block_def seqM_apply)

lemma any_text_decides: "decides any_text (\<lambda>_. True)"
  by (simp add: decides_def any_text_def read_block_def seqM_apply)

lemma list_remove_all_correct_witness:
  "\<exists>p' h'. list_remove_all (Some 0) (Some 12) same_text two_names = Inr (p', h') \<and>
     dlist h' p' [(1, 11, ''b'')]"
  using list_remove_all_correct [OF same_text_compares, of two_names 12 "''a''" two_elems "Some 0"]
    two_names_dlist by (auto simp: two_elems_def two_names_def)

lemma list_filter_correct_witness:
  "list_filter (Some 0) any_text two_names = Inl UseAfterFree"
  using list_filter_correct [OF any_text_decides two_names_dlist] by (simp add: two_elems_def)

end
