(* ===== verification/Dirents.thy ===== *)
theory Dirents
  imports Clist
begin

text \<open>
  The interface between \<open>list.c\<close> and its client \<open>hash.c\<close>: a path entry keeps the names of
  a directory's entries in a list, adds duplicated strings at its head and removes a
  string by comparing contents (\<open>cb_compare_path\<close>).  The locale \<open>dirent_store\<close> states what
  the client relies on; it is interpreted on the heap lists of \<open>list.c\<close> and on the plain
  lists of strings by which \<open>Hash\<close> represents the field \<open>dirent\<close>.
\<close>

text \<open>A history of additions (\<open>True\<close>) and removals (\<open>False\<close>), on a store and on lists.\<close>

fun run_history ::
  "(string \<Rightarrow> 'p \<Rightarrow> ('h, 'p) prog) \<Rightarrow> (string \<Rightarrow> 'p \<Rightarrow> ('h, 'p) prog) \<Rightarrow>
   (bool \<times> string) list \<Rightarrow> 'p \<Rightarrow> ('h, 'p) prog" where
  "run_history add remove [] p = ret p"
| "run_history add remove ((b, s) # ops) p =
     seqM (if b then add s p else remove s p) (\<lambda>p. run_history add remove ops p)"

fun list_history :: "(bool \<times> string) list \<Rightarrow> string list \<Rightarrow> string list" where
  "list_history [] xs = xs"
| "list_history ((b, s) # ops) xs = list_history ops (if b then s # xs else remove1 s xs)"

locale dirent_store =
  fixes holds :: "'h \<Rightarrow> 'p \<Rightarrow> string list \<Rightarrow> bool"
    and add :: "string \<Rightarrow> 'p \<Rightarrow> ('h, 'p) prog"
    and remove :: "string \<Rightarrow> 'p \<Rightarrow> ('h, 'p) prog"
  assumes add_ok: "holds h p xs \<Longrightarrow> \<exists>p' h'. add s p h = Inr (p', h') \<and> holds h' p' (s # xs)"
    and remove_ok: "holds h p xs \<Longrightarrow> \<exists>p' h'. remove s p h = Inr (p', h') \<and> holds h' p' (remove1 s xs)"
begin

lemma run_history_ok:
  "holds h p xs \<Longrightarrow> \<exists>p' h'. run_history add remove ops p h = Inr (p', h') \<and> holds h' p' (list_history ops xs)"
proof (induction ops arbitrary: h p xs)
  case (Cons op ops)
  obtain b s where op: "op = (b, s)" by (cases op)
  obtain p1 h1 where "(if b then add s p else remove s p) h = Inr (p1, h1)"
    and "holds h1 p1 (if b then s # xs else remove1 s xs)"
    using add_ok [OF Cons.prems, of s] remove_ok [OF Cons.prems, of s] by (cases b) auto
  with Cons.IH [OF this(2)] show ?case by (auto simp: op seqM_apply)
qed simp

lemma add_then_remove:
  assumes "holds h p xs"
  shows "\<exists>p' h'. seqM (add s p) (remove s) h = Inr (p', h') \<and> holds h' p' xs"
proof -
  have "run_history add remove [] = ret" by (rule ext) simp
  then have "run_history add remove [(False, s)] = remove s" by (intro ext) simp
  then have "run_history add remove [(True, s), (False, s)] p = seqM (add s p) (remove s)" by simp
  with run_history_ok [OF assms, of "[(True, s), (False, s)]"] show ?thesis by simp
qed

end

section \<open>The store of list.c\<close>

definition cb_compare_path :: compare_cb where
  "cb_compare_path p1 p2 =
     (if p1 = None \<or> p2 = None then crash AssertFail
      else seqM (read_block p1) (\<lambda>s1. seqM (read_block p2) (\<lambda>s2. ret (s1 = s2))))"

text \<open>\<open>pentry_add_dirent\<close> duplicates the string, \<open>pentry_remove_dirent\<close> passes its own.\<close>

definition heap_add :: "string \<Rightarrow> addr option \<Rightarrow> (lheap, addr option) prog" where
  "heap_add s p =
     seqM (getS brk) (\<lambda>d.
     seqM (modS (\<lambda>h. h\<lparr>blocks := (blocks h)(d \<mapsto> s), brk := Suc d\<rparr>)) (\<lambda>_.
     list_add True p (Some d)))"

definition heap_remove :: "string \<Rightarrow> addr option \<Rightarrow> (lheap, addr option) prog" where
  "heap_remove s p =
     seqM (getS brk) (\<lambda>k.
     seqM (modS (\<lambda>h. h\<lparr>blocks := (blocks h)(k \<mapsto> s), brk := Suc k\<rparr>)) (\<lambda>_.
     seqM (list_remove p (Some k) cb_compare_path) (\<lambda>p'.
     seqM (modS (\<lambda>h. h\<lparr>blocks := (blocks h)(k := None)\<rparr>)) (\<lambda>_. ret p'))))"

definition heap_holds :: "lheap \<Rightarrow> addr option \<Rightarrow> string list \<Rightarrow> bool" where
  "heap_holds h p xs \<longleftrightarrow> bounded h \<and> (\<exists>es. dlist h p es \<and> map val_of es = xs)"

lemma cb_compare_path_compares: "compares cb_compare_path (=)"
  by (simp add: compares_def cb_compare_path_def seqM_apply heap_ops)

lemma dlist_alloc:
  fixes s :: string
  assumes "bounded h" and "dlist h p es"
  defines "h' \<equiv> h\<lparr>blocks := (blocks h)(brk h \<mapsto> s), brk := Suc (brk h)\<rparr>"
  shows "dlist h' p es" and "brk h \<notin> data_of ` set es" and "bounded h'"
proof -
  show fresh: "brk h \<notin> data_of ` set es"
  proof
    assume "brk h \<in> data_of ` set es"
    then have "blocks h (brk h) \<noteq> None" using assms(2) lseg_live by (fastforce simp: dlist_def)
    with assms(1) show False by (auto simp: bounded_def)
  qed
  have "lseg h' p es None"
    by (rule lseg_frame [where h = h]) (use assms(2) fresh in \<open>auto simp: h'_def dlist_def image_iff\<close>)
  with assms(2) show "dlist h' p es" by (simp add: dlist_def)
  show "bounded h'" using assms(1) by (auto simp: bounded_def h'_def less_Suc_eq)
qed

lemma shrinks_bounded:
  assumes "bounded h" "dlist h p xs" "shrinks h h' xs ys" shows "bounded h'"
  unfolding bounded_def
proof (intro conjI allI impI)
  have live: "cells h (cell_of x) \<noteq> None \<and> blocks h (data_of x) \<noteq> None" if "x \<in> set xs" for x
    using assms(2) that by (auto simp: dlist_def dest: lseg_live)
  fix a
  show "a < brk h'" if "cells h' a \<noteq> None"
    using that live assms(1,3)
    by (cases "a \<in> cell_of ` set xs") (auto simp: bounded_def shrinks_def released_def)
  show "a < brk h'" if "blocks h' a \<noteq> None"
    using that live assms(1,3)
    by (cases "a \<in> data_of ` set xs") (auto simp: bounded_def shrinks_def released_def)
qed

lemma heap_add_ok:
  assumes "heap_holds h p xs"
  shows "\<exists>p' h'. heap_add s p h = Inr (p', h') \<and> heap_holds h' p' (s # xs)"
proof -
  from assms obtain es where "bounded h" "dlist h p es" and xs: "map val_of es = xs"
    by (auto simp: heap_holds_def)
  note a = dlist_alloc(1,3) [OF this(1,2), of s] dlist_alloc(2) [OF this(1,2)]
  from list_add_correct [OF a(2,1) _ a(3), of s] xs show ?thesis
    by (fastforce simp: heap_add_def heap_holds_def seqM_apply)
qed

lemma heap_remove_ok:
  assumes "heap_holds h p xs"
  shows "\<exists>p' h'. heap_remove s p h = Inr (p', h') \<and> heap_holds h' p' (remove1 s xs)"
proof -
  from assms obtain es where "bounded h" "dlist h p es" and xs: "map val_of es = xs"
    by (auto simp: heap_holds_def)
  note a = dlist_alloc(1,3) [OF this(1,2), of s] dlist_alloc(2) [OF this(1,2)]
  let ?h = "h\<lparr>blocks := (blocks h)(brk h \<mapsto> s), brk := Suc (brk h)\<rparr>"
  let ?ys = "rem_first (\<lambda>x. s = val_of x) es"
  from list_remove_correct [OF cb_compare_path_compares _ a(1), of "brk h" s]
  obtain p' h' where r: "list_remove p (Some (brk h)) cb_compare_path ?h = Inr (p', h')"
    and d: "dlist h' p' ?ys" and sh: "shrinks ?h h' es ?ys" by auto
  let ?h' = "h'\<lparr>blocks := (blocks h')(brk h := None)\<rparr>"
  have "brk h \<notin> data_of ` set ?ys"
    using a(3) rem_first_subset [of "\<lambda>x. s = val_of x" es] by auto
  moreover from d have "lseg h' p' ?ys None" by (simp add: dlist_def)
  ultimately have "lseg ?h' p' ?ys None"
    by (elim lseg_frame) (auto simp: image_iff)
  then have "dlist ?h' p' ?ys" using d by (simp add: dlist_def)
  moreover have "bounded ?h'"
    using shrinks_bounded [OF a(2,1) sh] by (auto simp: bounded_def)
  moreover have "map val_of ?ys = remove1 s xs"
    using xs map_rem_first [of val_of "\<lambda>x. s = x"] by (simp add: rem_first_remove1)
  ultimately have "heap_holds ?h' p' (remove1 s xs)" unfolding heap_holds_def by blast
  then show ?thesis using r by (simp add: heap_remove_def seqM_apply)
qed

interpretation heap_dirents: dirent_store heap_holds heap_add heap_remove
  by unfold_locales (auto intro: heap_add_ok heap_remove_ok)

section \<open>The field dirent as a list of strings\<close>

definition dirent_add :: "string \<Rightarrow> string list \<Rightarrow> string list" where
  "dirent_add s xs = s # xs"

definition dirent_remove :: "string \<Rightarrow> string list \<Rightarrow> string list" where
  "dirent_remove s xs = remove1 s xs"

interpretation plain_dirents: dirent_store
  "\<lambda>(h :: unit) p xs. p = xs" "\<lambda>s p. ret (dirent_add s p)" "\<lambda>s p. ret (dirent_remove s p)"
  by unfold_locales (simp_all add: dirent_add_def dirent_remove_def)

section \<open>Properties\<close>

text \<open>
  C26. The list of names of a directory, as \<open>pentry_add_dirent\<close> and \<open>pentry_remove_dirent\<close> keep it
  with the cells of \<open>list.c\<close>, refines a list of strings: any history of additions and removals
  runs without a fault and leaves the cells of the list that adding at the head and removing
  the first equal string give.
\<close>

theorem dirent_history_refines:
  assumes "heap_holds h p xs"
  shows "\<exists>p' h'. run_history heap_add heap_remove ops p h = Inr (p', h') \<and>
     heap_holds h' p' (list_history ops xs)"
  using assms by (rule heap_dirents.run_history_ok)

lemma dirent_history_refines_witness:
  "\<exists>p' h'. run_history heap_add heap_remove [(True, ''a''), (True, ''b''), (True, ''a''), (False, ''a'')] None
       \<lparr>cells = Map.empty, blocks = Map.empty, brk = 0\<rparr> = Inr (p', h') \<and> heap_holds h' p' [''b'', ''a'']"
proof -
  have "heap_holds \<lparr>cells = Map.empty, blocks = Map.empty, brk = 0\<rparr> None []"
    by (simp add: heap_holds_def bounded_def dlist_def)
  from dirent_history_refines [OF this, of "[(True, ''a''), (True, ''b''), (True, ''a''), (False, ''a'')]"]
  show ?thesis by simp
qed

end
