(* ===== verification/State.thy ===== *)
theory State
  imports Cstring
begin

text \<open>
  The data of the program and its surroundings: the configuration (\<open>struct conf\<close> of
  \<open>conf.h\<close>), the path entries (\<open>tpath_entry\<close> of \<open>hash.h\<close>), the process state with the hash
  table and the heap of entries and dictionaries, and the interface \<open>env\<close> of everything the
  process calls but does not implement: the C library and the kernel (\<open>os_\<close>), and
  libdroplet with the cloud behind it (\<open>d_\<close>).  The state \<open>'w\<close> of that outside world is a
  type variable; each call takes it and returns it, so nothing is assumed of it but what a
  property names as a hypothesis.
\<close>

unbundle bit_operations_syntax

section \<open>Constants of the system headers\<close>

definition EPERM :: int where "EPERM = 1"
definition ENOENT :: int where "ENOENT = 2"
definition EINTR :: int where "EINTR = 4"
definition EBADF :: int where "EBADF = 9"
definition EBUSY :: int where "EBUSY = 16"
definition EEXIST :: int where "EEXIST = 17"
definition EBADFD :: int where "EBADFD = 77"

type_synonym mode_t = "32 word"

abbreviation (input) S_IFMT :: mode_t where "S_IFMT \<equiv> 0xF000"
abbreviation (input) S_IFREG :: mode_t where "S_IFREG \<equiv> 0x8000"
abbreviation (input) S_IFDIR :: mode_t where "S_IFDIR \<equiv> 0x4000"
abbreviation (input) S_IFLNK :: mode_t where "S_IFLNK \<equiv> 0xA000"
abbreviation (input) S_IRUSR :: mode_t where "S_IRUSR \<equiv> 0x100"
abbreviation (input) S_IWUSR :: mode_t where "S_IWUSR \<equiv> 0x80"
abbreviation (input) S_IXUSR :: mode_t where "S_IXUSR \<equiv> 0x40"
abbreviation (input) S_IRWXU :: mode_t where "S_IRWXU \<equiv> 0x1C0"

abbreviation (input) O_RDONLY :: "32 word" where "O_RDONLY \<equiv> 0"
abbreviation (input) O_WRONLY :: "32 word" where "O_WRONLY \<equiv> 1"
abbreviation (input) O_RDWR :: "32 word" where "O_RDWR \<equiv> 2"
abbreviation (input) O_ACCMODE :: "32 word" where "O_ACCMODE \<equiv> 3"
abbreviation (input) O_CREAT :: "32 word" where "O_CREAT \<equiv> 0x40"
abbreviation (input) O_TRUNC :: "32 word" where "O_TRUNC \<equiv> 0x200"
abbreviation (input) O_APPEND :: "32 word" where "O_APPEND \<equiv> 0x400"

record stat =
  st_mode :: mode_t
  st_nlink :: "64 word"
  st_uid :: "32 word"
  st_gid :: "32 word"
  st_size :: "64 word"
  st_atime :: "64 word"
  st_mtime :: "64 word"
  st_ctime :: "64 word"

text \<open>\<open>memset (st, 0, sizeof *st)\<close>\<close>

definition zero_stat :: stat where
  "zero_stat = \<lparr>st_mode = 0, st_nlink = 0, st_uid = 0, st_gid = 0, st_size = 0,
     st_atime = 0, st_mtime = 0, st_ctime = 0\<rparr>"

text \<open>The levels of \<open>syslog\<close>.\<close>

definition LOG_EMERG :: int where "LOG_EMERG = 0"
definition LOG_ALERT :: int where "LOG_ALERT = 1"
definition LOG_CRIT :: int where "LOG_CRIT = 2"
definition LOG_ERR :: int where "LOG_ERR = 3"
definition LOG_WARNING :: int where "LOG_WARNING = 4"
definition LOG_NOTICE :: int where "LOG_NOTICE = 5"
definition LOG_INFO :: int where "LOG_INFO = 6"
definition LOG_DEBUG :: int where "LOG_DEBUG = 7"

lemmas log_levels = LOG_EMERG_def LOG_ALERT_def LOG_CRIT_def LOG_ERR_def LOG_WARNING_def
  LOG_NOTICE_def LOG_INFO_def LOG_DEBUG_def

section \<open>The names of libdroplet the program uses\<close>

datatype dpl_status =
  DPL_SUCCESS | DPL_FAILURE | DPL_ENOENT | DPL_EINVAL | DPL_EISDIR | DPL_OTHER int

datatype dpl_ftype = DPL_FTYPE_REG | DPL_FTYPE_DIR | DPL_FTYPE_OTHER

text \<open>A \<open>dpl_dict_t\<close> is what its lookups return.\<close>

type_synonym dict = "string \<rightharpoonup> string"

section \<open>The outside world\<close>

text \<open>
  A failing system call returns its \<open>errno\<close>: \<open>Inl e\<close>, or \<open>Some e\<close> where success carries no
  value.
\<close>

record 'w os =
  os_alloc :: "'w \<Rightarrow> bool \<times> 'w"
  os_sync_init :: "'w \<Rightarrow> bool \<times> 'w"
  os_time :: "'w \<Rightarrow> 64 word \<times> 'w"
  os_getuid :: "'w \<Rightarrow> 32 word"
  os_getgid :: "'w \<Rightarrow> 32 word"
  os_getenv :: "string \<Rightarrow> 'w \<Rightarrow> string option"
  os_sleep :: "32 word \<Rightarrow> 'w \<Rightarrow> 'w"
  os_open :: "string \<Rightarrow> 32 word \<Rightarrow> mode_t \<Rightarrow> 'w \<Rightarrow> (int + nat) \<times> 'w"
  os_close :: "int \<Rightarrow> 'w \<Rightarrow> int option \<times> 'w"
  os_read :: "int \<Rightarrow> nat \<Rightarrow> 'w \<Rightarrow> (int + string) \<times> 'w"
  os_write :: "int \<Rightarrow> string \<Rightarrow> 'w \<Rightarrow> (int + nat) \<times> 'w"
  os_pread :: "int \<Rightarrow> nat \<Rightarrow> int \<Rightarrow> 'w \<Rightarrow> (int + string) \<times> 'w"
  os_pwrite :: "int \<Rightarrow> string \<Rightarrow> int \<Rightarrow> 'w \<Rightarrow> (int + nat) \<times> 'w"
  os_rewind :: "int \<Rightarrow> 'w \<Rightarrow> int option \<times> 'w"
  os_fstat :: "int \<Rightarrow> 'w \<Rightarrow> (int + stat) \<times> 'w"
  os_stat :: "string \<Rightarrow> 'w \<Rightarrow> (int + stat) \<times> 'w"
  os_access :: "string \<Rightarrow> 'w \<Rightarrow> int option \<times> 'w"
  os_unlink :: "string \<Rightarrow> 'w \<Rightarrow> int option \<times> 'w"
  os_rmdir :: "string \<Rightarrow> 'w \<Rightarrow> int option \<times> 'w"
  os_mkdir :: "string \<Rightarrow> mode_t \<Rightarrow> 'w \<Rightarrow> int option \<times> 'w"
  os_rename :: "string \<Rightarrow> string \<Rightarrow> 'w \<Rightarrow> int option \<times> 'w"
  os_fchmod :: "int \<Rightarrow> mode_t \<Rightarrow> 'w \<Rightarrow> int option \<times> 'w"
  os_fchown :: "int \<Rightarrow> 32 word \<Rightarrow> 32 word \<Rightarrow> 'w \<Rightarrow> int option \<times> 'w"
  os_fsync :: "int \<Rightarrow> 'w \<Rightarrow> int option \<times> 'w"
  os_fopen :: "string \<Rightarrow> string \<Rightarrow> 'w \<Rightarrow> (int + nat) \<times> 'w"
  os_fgets :: "nat \<Rightarrow> nat \<Rightarrow> 'w \<Rightarrow> string option \<times> 'w"
  os_fread :: "nat \<Rightarrow> nat \<Rightarrow> 'w \<Rightarrow> (string \<times> bool \<times> bool) \<times> 'w"
  os_fwrite :: "nat \<Rightarrow> string \<Rightarrow> 'w \<Rightarrow> bool \<times> 'w"
  os_fclose :: "nat \<Rightarrow> 'w \<Rightarrow> 'w"
  os_fflush :: "nat \<Rightarrow> 'w \<Rightarrow> 'w"
  os_fileno :: "nat \<Rightarrow> 'w \<Rightarrow> int"
  os_regcomp :: "string \<Rightarrow> int \<Rightarrow> bool"
  os_regexec :: "string \<times> int \<Rightarrow> string \<Rightarrow> bool"

text \<open>
  The streams of zlib (\<open>z_\<close>) live in the outside world; \<open>z_deflate\<close> and \<open>z_inflate\<close> take the
  stream, the input, whether it is the last, and the room for output, and return the
  code, the output and the input that is left.  \<open>g_keys\<close> is the order in which GLib visits a
  table.
  \<open>d_namei\<close> takes the inode to start from, \<open>None\<close> where the program passes an uninitialised
  one, and returns the status, the file type if it was set, and the object's key.
  \<open>d_openread\<close> hands the downloaded data to the callback it is given.
\<close>

record 'w env = "'w os" +
  z_deflateInit :: "int \<Rightarrow> 'w \<Rightarrow> (int \<times> nat) \<times> 'w"
  z_deflate :: "nat \<Rightarrow> string \<Rightarrow> bool \<Rightarrow> nat \<Rightarrow> 'w \<Rightarrow> (int \<times> string \<times> string) \<times> 'w"
  z_deflateEnd :: "nat \<Rightarrow> 'w \<Rightarrow> 'w"
  z_inflateInit :: "'w \<Rightarrow> (int \<times> nat) \<times> 'w"
  z_inflate :: "nat \<Rightarrow> string \<Rightarrow> nat \<Rightarrow> 'w \<Rightarrow> (int \<times> string \<times> string) \<times> 'w"
  z_inflateEnd :: "nat \<Rightarrow> 'w \<Rightarrow> 'w"
  g_keys :: "(string \<rightharpoonup> nat) \<Rightarrow> string list"
  d_status_code :: "dpl_status \<Rightarrow> int"
  d_flag_creat :: "32 word"
  d_flag_md5 :: "32 word"
  d_flag_encrypt :: "32 word"
  d_cwd :: "'w \<Rightarrow> string"
  d_namei :: "string \<Rightarrow> string option \<Rightarrow> 'w \<Rightarrow> (dpl_status \<times> dpl_ftype option \<times> string) \<times> 'w"
  d_getattr :: "string \<Rightarrow> 'w \<Rightarrow> (dpl_status \<times> dict option) \<times> 'w"
  d_getattr_raw :: "string \<Rightarrow> 'w \<Rightarrow> (dpl_status \<times> dict option) \<times> 'w"
  d_setattr :: "string \<Rightarrow> dict \<Rightarrow> 'w \<Rightarrow> dpl_status \<times> 'w"
  d_mknod :: "string \<Rightarrow> 'w \<Rightarrow> dpl_status \<times> 'w"
  d_mkdir :: "string \<Rightarrow> 'w \<Rightarrow> dpl_status \<times> 'w"
  d_unlink :: "string \<Rightarrow> 'w \<Rightarrow> dpl_status \<times> 'w"
  d_rmdir :: "string \<Rightarrow> 'w \<Rightarrow> dpl_status \<times> 'w"
  d_chdir :: "string \<Rightarrow> 'w \<Rightarrow> dpl_status \<times> 'w"
  d_fcopy :: "string \<Rightarrow> string \<Rightarrow> 'w \<Rightarrow> dpl_status \<times> 'w"
  d_opendir :: "string \<Rightarrow> 'w \<Rightarrow> (dpl_status \<times> nat) \<times> 'w"
  d_readdir :: "nat \<Rightarrow> 'w \<Rightarrow> string option \<times> 'w"
  d_closedir :: "nat \<Rightarrow> 'w \<Rightarrow> 'w"
  d_head_all :: "string \<Rightarrow> 'w \<Rightarrow> (dpl_status \<times> dict option) \<times> 'w"
  d_metadata_from_headers :: "dict option \<Rightarrow> dict \<Rightarrow> 'w \<Rightarrow> (dpl_status \<times> dict) \<times> 'w"
  d_openwrite :: "string \<Rightarrow> 32 word \<Rightarrow> dict \<Rightarrow> 64 word \<Rightarrow> 'w \<Rightarrow> (dpl_status \<times> nat option) \<times> 'w"
  d_write :: "nat \<Rightarrow> string \<Rightarrow> 'w \<Rightarrow> dpl_status \<times> 'w"
  d_close :: "nat \<Rightarrow> 'w \<Rightarrow> dpl_status \<times> 'w"
  d_openread :: "string \<Rightarrow> 32 word \<Rightarrow> (string \<Rightarrow> ('w, int) prog) \<Rightarrow>
                 ('w, dpl_status \<times> dict option) prog"
  d_dict_update :: "dict \<Rightarrow> string \<Rightarrow> string \<Rightarrow> 'w \<Rightarrow> (dpl_status \<times> dict) \<times> 'w"
  d_dict_add :: "dict \<Rightarrow> string \<Rightarrow> string \<Rightarrow> 'w \<Rightarrow> (dpl_status \<times> dict) \<times> 'w"
  d_dict_copy :: "dict \<Rightarrow> dict \<Rightarrow> 'w \<Rightarrow> (dpl_status \<times> dict) \<times> 'w"
  d_dict_filter_prefix :: "dict \<Rightarrow> dict option \<Rightarrow> string \<Rightarrow> 'w \<Rightarrow> (dpl_status \<times> dict) \<times> 'w"

section \<open>The process\<close>

text \<open>
  A string the process owns: the configuration keeps the pointer after it has released
  the string.
\<close>

datatype sptr = Null | Live string | Dangling

text \<open>
  \<open>struct re\<close> holds the text of the expression, and whether it has been compiled; a
  compiled expression is the pattern and the flags it was compiled from.
\<close>

record re =
  re_str :: sptr
  re_rx :: "(string \<times> int) option"
  re_set :: bool

record conf =
  c_root_dir :: sptr
  c_cache_dir :: sptr
  c_compression_method :: sptr
  c_zlib_level :: int
  c_gc_loop_delay :: int
  c_gc_age_threshold :: int
  c_sc_loop_delay :: int
  c_sc_age_threshold :: int
  c_max_retry :: int
  c_log_level :: int
  c_cache_max_size :: int
  c_regex :: re
  c_encryption_method :: sptr
  c_debug :: int

datatype dirty_flag = FLAG_CLEAN | FLAG_DIRTY

datatype tpath_type = FILE_REG | FILE_DIR | FILE_SYMLINK

datatype placement = FILE_LOCAL | FILE_REMOTE | FILE_UNSET

text \<open>
  A field that \<open>pentry_new\<close> leaves unset is \<open>None\<close> until it is assigned.  \<open>pe_usermd\<close> is the
  address of a dictionary; \<open>pe_refcount\<close> is the value of the semaphore; \<open>pe_mutex\<close> and
  \<open>pe_md_mutex\<close> say whether the mutex is held.  The fields \<open>st\<close>, \<open>mtime\<close> and \<open>ctime\<close> are
  never used by the program.
\<close>

record tpath_entry =
  pe_fd :: int
  pe_path :: "string option"
  pe_digest :: "string option"
  pe_usermd :: "addr option"
  pe_md_mutex :: bool
  pe_mutex :: bool
  pe_refcount :: nat
  pe_flag :: dirty_flag
  pe_exclude :: bool
  pe_filetype :: "tpath_type option"
  pe_dirent :: "string list"
  pe_ondisk :: placement
  pe_atime :: "64 word option"

text \<open>
  The globals \<open>conf\<close> (and whether the pointer is null again), \<open>ctx->cur_bucket\<close> and
  \<open>hash\<close>, the allocated path entries and dictionaries, the next fresh address, and the
  outside world.
\<close>

record 'w gstate =
  gconf :: conf
  conf_null :: bool
  bucket :: string
  ghash :: "string \<rightharpoonup> addr"
  pes :: "addr \<rightharpoonup> tpath_entry"
  dicts :: "addr \<rightharpoonup> dict"
  fresh :: addr
  world :: 'w

type_synonym ('w, 'a) dprog = "('w gstate, 'a) prog"

section \<open>Calls, entries and dictionaries\<close>

definition ext :: "('w \<Rightarrow> 'a \<times> 'w) \<Rightarrow> ('w, 'a) dprog" where
  "ext f s = (case f (world s) of (a, w) \<Rightarrow> Inr (a, s\<lparr>world := w\<rparr>))"

definition ext_prog :: "('w, 'a) prog \<Rightarrow> ('w, 'a) dprog" where
  "ext_prog f s = (case f (world s) of Inl e \<Rightarrow> Inl e | Inr (a, w) \<Rightarrow> Inr (a, s\<lparr>world := w\<rparr>))"

definition ask :: "('w \<Rightarrow> 'a) \<Rightarrow> ('w, 'a) dprog" where
  "ask f s = Inr (f (world s), s)"

definition get_pe :: "addr \<Rightarrow> ('w, tpath_entry) dprog" where
  "get_pe a s = (case pes s a of None \<Rightarrow> Inl UseAfterFree | Some pe \<Rightarrow> Inr (pe, s))"

definition upd_pe :: "addr \<Rightarrow> (tpath_entry \<Rightarrow> tpath_entry) \<Rightarrow> ('w, unit) dprog" where
  "upd_pe a f s = (case pes s a of None \<Rightarrow> Inl UseAfterFree
     | Some pe \<Rightarrow> Inr ((), s\<lparr>pes := (pes s)(a \<mapsto> f pe)\<rparr>))"

definition get_dict :: "addr \<Rightarrow> ('w, dict) dprog" where
  "get_dict a s = (case dicts s a of None \<Rightarrow> Inl UseAfterFree | Some d \<Rightarrow> Inr (d, s))"

definition set_dict :: "addr \<Rightarrow> dict \<Rightarrow> ('w, unit) dprog" where
  "set_dict a d s = (case dicts s a of None \<Rightarrow> Inl UseAfterFree
     | Some _ \<Rightarrow> Inr ((), s\<lparr>dicts := (dicts s)(a \<mapsto> d)\<rparr>))"

text \<open>\<open>dpl_dict_new\<close> and \<open>dpl_dict_free\<close>; a dictionary the library returns is also new.\<close>

definition own_dict :: "dict \<Rightarrow> ('w, addr) dprog" where
  "own_dict d s = Inr (fresh s, s\<lparr>dicts := (dicts s)(fresh s \<mapsto> d), fresh := Suc (fresh s)\<rparr>)"

definition dict_new :: "('w, 'm) env_scheme \<Rightarrow> ('w, addr option) dprog" where
  "dict_new E = seqM (ext (os_alloc E)) (\<lambda>ok.
     if ok then seqM (own_dict Map.empty) (\<lambda>a. ret (Some a)) else ret None)"

definition dict_free :: "addr \<Rightarrow> ('w, unit) dprog" where
  "dict_free a s = (case dicts s a of None \<Rightarrow> Inl UseAfterFree
     | Some _ \<Rightarrow> Inr ((), s\<lparr>dicts := (dicts s)(a := None)\<rparr>))"

definition dict_free_opt :: "addr option \<Rightarrow> ('w, unit) dprog" where
  "dict_free_opt p = (case p of None \<Rightarrow> ret () | Some a \<Rightarrow> dict_free a)"

text \<open>A call of the library that changes a dictionary in place.\<close>

definition dict_call ::
  "(dict \<Rightarrow> 'w \<Rightarrow> (dpl_status \<times> dict) \<times> 'w) \<Rightarrow> addr \<Rightarrow> ('w, dpl_status) dprog" where
  "dict_call f a =
     seqM (get_dict a) (\<lambda>d.
     seqM (ext (f d)) (\<lambda>(rc, d').
     seqM (set_dict a d') (\<lambda>_. ret rc)))"

lemmas state_ops = ext_def ext_prog_def ask_def get_pe_def upd_pe_def get_dict_def set_dict_def
  own_dict_def dict_free_def

lemmas dict_ops = dict_new_def dict_free_opt_def dict_call_def

lemma ends_ext:
  assumes "\<And>s r w. P s \<Longrightarrow> f (world s) = (r, w) \<Longrightarrow> Q r (s\<lparr>world := w\<rparr>)"
  shows "ends P (ext f) Q"
  using assms by (auto simp: ends_def ext_def split: prod.splits)

text \<open>Strings on the heap: reading, \<open>free\<close> (which accepts NULL), \<open>strdup\<close>, \<open>printf("%s")\<close>.\<close>

definition sptr_get :: "sptr \<Rightarrow> ('s, string) prog" where
  "sptr_get p = (case p of Null \<Rightarrow> crash NullDeref | Live t \<Rightarrow> ret t | Dangling \<Rightarrow> crash UseAfterFree)"

definition sptr_show :: "sptr \<Rightarrow> ('s, string) prog" where
  "sptr_show p =
     (case p of Null \<Rightarrow> ret (cstr None) | Live t \<Rightarrow> ret t | Dangling \<Rightarrow> crash UseAfterFree)"

definition free_str :: "sptr \<Rightarrow> ('s, sptr) prog" where
  "free_str p =
     (case p of Null \<Rightarrow> ret Null | Live t \<Rightarrow> ret Dangling | Dangling \<Rightarrow> crash UseAfterFree)"

definition strdup :: "('w, 'm) env_scheme \<Rightarrow> string \<Rightarrow> ('w, sptr) dprog" where
  "strdup E t = seqM (ext (os_alloc E)) (\<lambda>ok. ret (if ok then Live t else Null))"

lemma sptr_simps [simp, prog_simps]:
  "sptr_get (Live t) = ret t" "sptr_get Null = crash NullDeref" "sptr_get Dangling = crash UseAfterFree"
  "sptr_show (Live t) = ret t" "sptr_show Dangling = crash UseAfterFree"
  "free_str (Live t) = ret Dangling" "free_str Null = ret Null" "free_str Dangling = crash UseAfterFree"
  by (simp_all add: sptr_get_def sptr_show_def free_str_def)

text \<open>Assignments to the configuration.\<close>

definition upd_conf :: "(conf \<Rightarrow> conf) \<Rightarrow> ('w, unit) dprog" where
  "upd_conf f = modS (\<lambda>s. s\<lparr>gconf := f (gconf s)\<rparr>)"

lemma ext_apply [prog_simps]:
  "ext f s = (case f (world s) of (a, w) \<Rightarrow> Inr (a, s\<lparr>world := w\<rparr>))"
  by (simp add: ext_def)

lemma ask_apply [prog_simps]: "ask f s = Inr (f (world s), s)"
  by (simp add: ask_def)

lemma upd_conf_apply [simp, prog_simps]: "upd_conf f s = Inr ((), s\<lparr>gconf := f (gconf s)\<rparr>)"
  by (simp add: upd_conf_def)

section \<open>Programs that only talk to the outside\<close>

named_theorems worldly_intro "rules that show that only the outside world changes"

definition worldly :: "('w, 'a) dprog \<Rightarrow> bool" where
  "worldly m \<longleftrightarrow> (\<forall>s a s'. m s = Inr (a, s') \<longrightarrow> s' = s\<lparr>world := world s'\<rparr>)"

lemma worldlyD: "worldly m \<Longrightarrow> m s = Inr (a, s') \<Longrightarrow> s' = s\<lparr>world := world s'\<rparr>"
  unfolding worldly_def by blast

lemma worldly_frame:
  assumes "worldly m" "m s = Inr (a, s')"
  shows "gconf s' = gconf s" "conf_null s' = conf_null s" "bucket s' = bucket s"
    "ghash s' = ghash s" "pes s' = pes s" "dicts s' = dicts s" "fresh s' = fresh s"
  by (subst worldlyD [OF assms]; simp)+

lemma worldly_basic [worldly_intro]:
  "worldly (ret a)" "worldly (crash e)" "worldly (getS g)" "worldly (derefM e x)"
  "worldly (ext f)" "worldly (ext_prog h)" "worldly (ask q)" "worldly (get_pe p)" "worldly (get_dict d)"
  by (auto simp: worldly_def derefM_def state_ops split: option.splits prod.splits sum.splits)

lemma world_trans: "t = s\<lparr>world := v\<rparr> \<Longrightarrow> u = t\<lparr>world := w\<rparr> \<Longrightarrow> u = s\<lparr>world := w\<rparr>"
  by simp

lemma worldly_seqM [worldly_intro]:
  "worldly m \<Longrightarrow> (\<And>a. worldly (k a)) \<Longrightarrow> worldly (seqM m k)"
  unfolding worldly_def
  by (intro allI impI, erule seqM_Inr) (blast intro: world_trans)

lemma worldly_branch [worldly_intro]:
  "(b \<Longrightarrow> worldly m) \<Longrightarrow> (\<not> b \<Longrightarrow> worldly n) \<Longrightarrow> worldly (if b then m else n)"
  "(x = None \<Longrightarrow> worldly m) \<Longrightarrow> (\<And>a. x = Some a \<Longrightarrow> worldly (k a)) \<Longrightarrow>
   worldly (case x of None \<Rightarrow> m | Some a \<Rightarrow> k a)"
  "(\<And>e. y = Inl e \<Longrightarrow> worldly (l e)) \<Longrightarrow> (\<And>a. y = Inr a \<Longrightarrow> worldly (r a)) \<Longrightarrow>
   worldly (case y of Inl e \<Rightarrow> l e | Inr a \<Rightarrow> r a)"
  "(\<And>a b. z = (a, b) \<Longrightarrow> worldly (q a b)) \<Longrightarrow> worldly (case z of (a, b) \<Rightarrow> q a b)"
  by (simp_all split: option.split sum.split prod.split)

lemma worldly_let [worldly_intro]: "worldly (f x) \<Longrightarrow> worldly (let y = x in f y)"
  by simp

lemma worldly_loopM [worldly_intro]:
  assumes "\<And>x. worldly (body x)"
  shows "worldly (loopM body x)"
  unfolding worldly_def
proof (intro allI impI)
  fix s a s'
  assume "loopM body x s = Inr (a, s')"
  then show "s' = s\<lparr>world := world s'\<rparr>"
  proof (rule loopM_partial [where I = "\<lambda>_ t. t = s\<lparr>world := world t\<rparr>"])
    fix y t r t'
    assume t: "t = s\<lparr>world := world t\<rparr>" and "body y t = Inr (r, t')"
    from worldlyD [OF assms this(2)] have "t' = t\<lparr>world := world t'\<rparr>" .
    with t have "t' = s\<lparr>world := world t'\<rparr>" by (rule world_trans)
    then show "case r of Inl x' \<Rightarrow> t' = s\<lparr>world := world t'\<rparr> | Inr a \<Rightarrow> t' = s\<lparr>world := world t'\<rparr>"
      by (intro sum.split [THEN iffD2]) blast
  qed simp
qed

lemma worldly_sptr [worldly_intro]: "worldly (sptr_get p)" "worldly (sptr_show p)" "worldly (free_str p)"
  by (auto simp: sptr_get_def sptr_show_def free_str_def split: sptr.split intro: worldly_basic)

lemma worldly_strdup [worldly_intro]: "worldly (strdup E t)"
  unfolding strdup_def by (intro worldly_intro)

lemma keeps_worldly: "worldly m \<Longrightarrow> (\<And>s w. I s \<Longrightarrow> I (s\<lparr>world := w\<rparr>)) \<Longrightarrow> keeps I m"
  by (rule keepsI) (metis worldlyD)

section \<open>The invariant of the process\<close>

text \<open>
  What every handler keeps: the table is injective and its entries are exactly the
  allocated ones, an entry knows its own path (unless a \<open>strdup\<close> failed), the
  dictionaries of the entries are allocated and not shared, and addresses from \<open>fresh\<close>
  on are free.
\<close>

definition hash_wf :: "'w gstate \<Rightarrow> bool" where
  "hash_wf s \<longleftrightarrow> inj_on (ghash s) (dom (ghash s)) \<and> ran (ghash s) = dom (pes s)"

definition path_wf :: "'w gstate \<Rightarrow> bool" where
  "path_wf s \<longleftrightarrow> (\<forall>p a pe. ghash s p = Some a \<longrightarrow> pes s a = Some pe \<longrightarrow>
     pe_path pe = None \<or> pe_path pe = Some p)"

definition owns :: "'w gstate \<Rightarrow> addr \<Rightarrow> addr \<Rightarrow> bool" where
  "owns s a d \<longleftrightarrow> (\<exists>pe. pes s a = Some pe \<and> pe_usermd pe = Some d)"

definition dict_wf :: "'w gstate \<Rightarrow> bool" where
  "dict_wf s \<longleftrightarrow> (\<forall>a d. owns s a d \<longrightarrow> d \<in> dom (dicts s)) \<and>
     (\<forall>a b d. owns s a d \<longrightarrow> owns s b d \<longrightarrow> a = b)"

definition fresh_wf :: "'w gstate \<Rightarrow> bool" where
  "fresh_wf s \<longleftrightarrow> (\<forall>a \<in> dom (pes s). a < fresh s) \<and> (\<forall>d \<in> dom (dicts s). d < fresh s)"

definition state_wf :: "'w gstate \<Rightarrow> bool" where
  "state_wf s \<longleftrightarrow> hash_wf s \<and> path_wf s \<and> dict_wf s \<and> fresh_wf s"

lemma state_wf_world [simp]:
  "state_wf (s\<lparr>world := w\<rparr>) = state_wf s"
  "state_wf (s\<lparr>gconf := c\<rparr>) = state_wf s"
  "state_wf (s\<lparr>conf_null := b\<rparr>) = state_wf s"
  by (simp_all add: state_wf_def hash_wf_def path_wf_def dict_wf_def fresh_wf_def owns_def)

text \<open>
  \<open>spare D\<close>: the invariant, and the dictionaries of \<open>D\<close> belong to no entry: they are the
  local variables of a function that will release them.
\<close>

definition spare :: "addr set \<Rightarrow> 'w gstate \<Rightarrow> bool" where
  "spare D s \<longleftrightarrow> state_wf s \<and> (\<forall>d \<in> D. d < fresh s \<and> (\<forall>a. \<not> owns s a d))"

lemma spare_none [simp]: "spare {} = state_wf"
  by (simp add: spare_def fun_eq_iff)

lemma spare_mono: "spare D s \<Longrightarrow> C \<subseteq> D \<Longrightarrow> spare C s"
  by (auto simp: spare_def)

text \<open>What a step may do to the owners: drop them, or add new dictionaries.\<close>

definition calm :: "'w gstate \<Rightarrow> 'w gstate \<Rightarrow> bool" where
  "calm s s' \<longleftrightarrow> fresh s \<le> fresh s' \<and>
     (\<forall>a d. owns s' a d \<longrightarrow> (\<exists>b. owns s b d) \<or> fresh s \<le> d)"

lemma spare_calm: "spare D s \<Longrightarrow> state_wf s' \<Longrightarrow> calm s s' \<Longrightarrow> spare D s'"
  unfolding spare_def calm_def by (meson less_le_trans not_less)

lemma calm_same: "fresh s' = fresh s \<Longrightarrow> owns s' = owns s \<Longrightarrow> calm s s'"
  by (auto simp: calm_def)

text \<open>Rules for \<open>keeps (spare D)\<close>.\<close>

named_theorems wf_intro "rules that show that a program keeps the invariant of the process"

lemma spare_world [simp]: "spare D (s\<lparr>world := w\<rparr>) = spare D s" "spare D (s\<lparr>gconf := c\<rparr>) = spare D s"
  by (simp_all add: spare_def owns_def)

lemma keeps_wf_worldly: "worldly m \<Longrightarrow> keeps (spare D) m"
  by (rule keeps_worldly) simp_all

lemmas keeps_wf_basic [wf_intro] =
  worldly_basic [THEN keeps_wf_worldly] worldly_sptr [THEN keeps_wf_worldly]
  worldly_strdup [THEN keeps_wf_worldly]

lemma keeps_wf_upd_pe:
  assumes "\<And>pe. pe_path (f pe) = pe_path pe" "\<And>pe. pe_usermd (f pe) = pe_usermd pe"
  shows "keeps (spare D) (upd_pe a f)"
proof (rule keepsI)
  fix s u s'
  assume sp: "spare D s" and "upd_pe a f s = Inr (u, s')"
  then obtain pe where pe: "pes s a = Some pe" and s': "s' = s\<lparr>pes := (pes s)(a \<mapsto> f pe)\<rparr>"
    by (auto simp: upd_pe_def split: option.splits)
  have dom: "insert a (dom (pes s)) = dom (pes s)" using pe by auto
  have own: "owns s' = owns s"
    using pe by (auto simp: owns_def fun_eq_iff s' assms)
  have "state_wf s'"
    using sp unfolding spare_def state_wf_def
  proof (elim conjE, intro conjI)
    show "hash_wf s \<Longrightarrow> hash_wf s'" by (simp add: hash_wf_def s' dom)
    show "path_wf s \<Longrightarrow> path_wf s'" using pe by (auto simp: path_wf_def s' assms)
    show "fresh_wf s \<Longrightarrow> fresh_wf s'" by (simp add: fresh_wf_def s' dom)
    show "dict_wf s \<Longrightarrow> dict_wf s'"
      by (simp add: dict_wf_def own) (simp add: s')
  qed
  from spare_calm [OF sp this calm_same [OF _ own]] show "spare D s'" by (simp add: s')
qed

lemma keeps_wf_set_dict [wf_intro]: "keeps (spare D) (set_dict d x)"
proof (rule keepsI)
  fix s u s'
  assume sp: "spare D s" and "set_dict d x s = Inr (u, s')"
  then obtain y where y: "dicts s d = Some y" and s': "s' = s\<lparr>dicts := (dicts s)(d \<mapsto> x)\<rparr>"
    by (auto simp: set_dict_def split: option.splits)
  have "insert d (dom (dicts s)) = dom (dicts s)" using y by auto
  with sp show "spare D s'"
    by (simp add: s' spare_def state_wf_def hash_wf_def path_wf_def dict_wf_def fresh_wf_def owns_def)
qed

text \<open>A new dictionary is spare until it is released.\<close>

lemma keeps_wf_own_dict [wf_intro]:
  assumes "\<And>a. keeps (spare (insert a D)) (k a)"
  shows "keeps (spare D) (seqM (own_dict d) k)"
proof (rule keepsI)
  fix s b s'
  assume sp: "spare D s" and "seqM (own_dict d) k s = Inr (b, s')"
  then have run: "k (fresh s) (s\<lparr>dicts := (dicts s)(fresh s \<mapsto> d), fresh := Suc (fresh s)\<rparr>) = Inr (b, s')"
    by (auto simp: own_dict_def seqM_apply)
  have "\<not> owns s a (fresh s)" for a
    using sp unfolding spare_def state_wf_def dict_wf_def fresh_wf_def by blast
  then have "spare (insert (fresh s) D) (s\<lparr>dicts := (dicts s)(fresh s \<mapsto> d), fresh := Suc (fresh s)\<rparr>)"
    using sp unfolding spare_def state_wf_def hash_wf_def path_wf_def dict_wf_def fresh_wf_def owns_def
    by (auto simp: less_Suc_eq)
  from keepsD [OF assms this run] show "spare D s'" by (rule spare_mono) auto
qed

lemma keeps_wf_dict_new [wf_intro]:
  assumes "keeps (spare D) (k None)" "\<And>a. keeps (spare (insert a D)) (k (Some a))"
  shows "keeps (spare D) (seqM (dict_new E) k)"
proof -
  have split: "seqM (dict_new E) k = seqM (ext (os_alloc E)) (\<lambda>ok.
      if ok then seqM (own_dict Map.empty) (\<lambda>a. k (Some a)) else k None)"
  proof
    fix s
    show "seqM (dict_new E) k s = seqM (ext (os_alloc E)) (\<lambda>ok.
      if ok then seqM (own_dict Map.empty) (\<lambda>a. k (Some a)) else k None) s"
      by (cases "os_alloc E (world s)") (auto simp: dict_new_def seqM_apply ext_def own_dict_def)
  qed
  show ?thesis unfolding split by (intro keeps_intro wf_intro worldly_intro assms)
qed

lemma keeps_wf_dict_call [wf_intro]: "keeps (spare D) (dict_call f a)"
  unfolding dict_call_def by (intro keeps_intro wf_intro worldly_intro)

lemma keeps_wf_upd_conf [wf_intro]: "keeps (spare D) (upd_conf f)"
  by (simp add: keeps_def)

lemma keeps_wf_dict_free: 
  assumes "d \<in> D"
  shows "keeps (spare D) (dict_free d)"
proof (rule keepsI)
  fix s u s'
  assume sp: "spare D s" and "dict_free d s = Inr (u, s')"
  then have s': "s' = s\<lparr>dicts := (dicts s)(d := None)\<rparr>"
    by (auto simp: dict_free_def split: option.splits)
  have "\<forall>a. \<not> owns s a d" using sp assms by (simp add: spare_def)
  with sp show "spare D s'"
    unfolding s' spare_def state_wf_def hash_wf_def path_wf_def dict_wf_def fresh_wf_def owns_def
    by auto
qed

lemma keeps_wf_dict_free_opt:
  "set_option p \<subseteq> D \<Longrightarrow> keeps (spare D) (dict_free_opt p)"
  by (cases p) (auto simp: dict_free_opt_def intro: keeps_wf_dict_free keeps_ret)

text \<open>
  A call that hands new dictionaries to its caller: \<open>A r\<close> are those of the result \<open>r\<close>.
\<close>

definition gives :: "addr set \<Rightarrow> ('w, 'a) dprog \<Rightarrow> ('a \<Rightarrow> addr set) \<Rightarrow> bool" where
  "gives D m A \<longleftrightarrow> ends (spare D) m (\<lambda>r. spare (A r \<union> D))"

lemma gives_ret: "A r = {} \<Longrightarrow> gives D (ret r) A"
  by (simp add: gives_def ends_def)

lemma gives_own: "(\<And>a. A (f a) = {a}) \<Longrightarrow> gives D (seqM (own_dict d) (\<lambda>a. ret (f a))) A"
  unfolding gives_def ends_def
proof (intro allI impI)
  fix s r s'
  assume sp: "spare D s" and "seqM (own_dict d) (\<lambda>a. ret (f a)) s = Inr (r, s')" and A: "\<And>a. A (f a) = {a}"
  then have s': "s' = s\<lparr>dicts := (dicts s)(fresh s \<mapsto> d), fresh := Suc (fresh s)\<rparr>" "A r = {fresh s}"
    by (auto simp: own_dict_def seqM_apply)
  have "\<not> owns s a (fresh s)" for a
    using sp unfolding spare_def state_wf_def dict_wf_def fresh_wf_def by blast
  then show "spare (A r \<union> D) s'"
    using sp unfolding s' spare_def state_wf_def hash_wf_def path_wf_def dict_wf_def fresh_wf_def owns_def
    by (auto simp: less_Suc_eq)
qed

lemma gives_worldly:
  "worldly m \<Longrightarrow> (\<And>a. gives D (k a) A) \<Longrightarrow> gives D (seqM m k) A"
  unfolding gives_def
  by (rule ends_seqM [where R = "\<lambda>_. spare D"])
     (use keeps_wf_worldly [of m D] in \<open>simp_all add: keeps_iff_ends\<close>)

lemma gives_branch:
  "(b \<Longrightarrow> gives D m A) \<Longrightarrow> (\<not> b \<Longrightarrow> gives D n A) \<Longrightarrow> gives D (if b then m else n) A"
  "(x = None \<Longrightarrow> gives D m A) \<Longrightarrow> (\<And>a. x = Some a \<Longrightarrow> gives D (k a) A) \<Longrightarrow>
   gives D (case x of None \<Rightarrow> m | Some a \<Rightarrow> k a) A"
  "(\<And>a b. z = (a, b) \<Longrightarrow> gives D (q a b) A) \<Longrightarrow> gives D (case z of (a, b) \<Rightarrow> q a b) A"
  unfolding gives_def by (intro ends_intro; simp)+

lemma keeps_gives:
  assumes "gives D m A" "\<And>r. keeps (spare (A r \<union> D)) (k r)"
  shows "keeps (spare D) (seqM m k)"
proof (rule keepsI)
  fix s b s'
  assume sp: "spare D s" and "seqM m k s = Inr (b, s')"
  then obtain r s1 where r: "m s = Inr (r, s1)" and k: "k r s1 = Inr (b, s')"
    by (blast elim: seqM_Inr)
  have "spare (A r \<union> D) s1" using assms(1) sp r unfolding gives_def by (rule endsD)
  from keepsD [OF assms(2) this k] show "spare D s'" by (rule spare_mono) auto
qed

end
