(* ===== verification/Sim.thy ===== *)
theory Sim
  imports State
begin

text \<open>
  A small outside world in which everything works, for the examples that show that the
  hypotheses of a property can hold: files and objects are strings, the clock stands still,
  and the first \<open>sim_fail\<close> changes asked of the cloud are refused.
\<close>

record sim =
  sim_cloud :: "string \<rightharpoonup> dict"      \<comment> \<open>the metadata of the objects\<close>
  sim_files :: "int \<Rightarrow> string"        \<comment> \<open>the files by descriptor\<close>
  sim_unread :: string               \<comment> \<open>what is left to read of a stream\<close>
  sim_out :: string                  \<comment> \<open>what was written or sent\<close>
  sim_names :: "string list"         \<comment> \<open>what is left of a listing\<close>
  sim_got :: "string list"           \<comment> \<open>the names the caller of a listing took\<close>
  sim_room :: nat                    \<comment> \<open>how many more it takes\<close>
  sim_dirs :: "string list"          \<comment> \<open>the directories that were made\<close>
  sim_slept :: "32 word list"        \<comment> \<open>how long the program slept, each time\<close>
  sim_zin :: string                  \<comment> \<open>what the stream of zlib has consumed\<close>
  sim_zend :: bool                   \<comment> \<open>has it been finished?\<close>
  sim_fail :: nat

definition sim_world :: sim where
  "sim_world = \<lparr>sim_cloud = Map.empty, sim_files = (\<lambda>_. ''hello''), sim_unread = ''abcdef'',
     sim_out = [], sim_names = [''x'', ''y'', ''z''], sim_got = [], sim_room = 2, sim_dirs = [],
     sim_slept = [], sim_zin = [], sim_zend = False, sim_fail = 0\<rparr>"

text \<open>A change asked of the cloud.\<close>

definition sim_call :: "sim \<Rightarrow> dpl_status \<times> sim" where
  "sim_call w = (if sim_fail w = 0 then (DPL_SUCCESS, w)
     else (DPL_FAILURE, w\<lparr>sim_fail := sim_fail w - 1\<rparr>))"

definition sim_stat :: stat where
  "sim_stat = zero_stat\<lparr>st_mode := 0x81A4, st_size := 5, st_atime := 1000, st_mtime := 1000,
     st_ctime := 1000\<rparr>"

definition sim_now :: "64 word" where "sim_now = 5000"

fun sim_code :: "dpl_status \<Rightarrow> int" where
  "sim_code DPL_SUCCESS = 0"
| "sim_code DPL_FAILURE = - 1"
| "sim_code DPL_ENOENT = - 2"
| "sim_code DPL_EINVAL = - 3"
| "sim_code DPL_EISDIR = - 4"
| "sim_code (DPL_OTHER n) = n"

definition sim_keys :: "(string \<rightharpoonup> nat) \<Rightarrow> string list" where
  "sim_keys m = filter (\<lambda>k. m k \<noteq> None) [''/'', ''/a'', ''/b'']"

definition sim_fill :: "string \<Rightarrow> sim \<Rightarrow> int \<times> sim" where
  "sim_fill name w = (if sim_room w = 0 then (1, w)
     else (0, w\<lparr>sim_got := sim_got w @ [name], sim_room := sim_room w - 1\<rparr>))"

definition sim_readdir :: "sim \<Rightarrow> string option \<times> sim" where
  "sim_readdir w = (case sim_names w of [] \<Rightarrow> (None, w) | n # ns \<Rightarrow> (Some n, w\<lparr>sim_names := ns\<rparr>))"

definition sim_pwrite :: "int \<Rightarrow> string \<Rightarrow> int \<Rightarrow> sim \<Rightarrow> (int + nat) \<times> sim" where
  "sim_pwrite fd buf off w =
     (let f = sim_files w fd in
      (Inr (length buf), w\<lparr>sim_files := (sim_files w)
        (fd := take (nat off) f @ buf @ drop (nat off + length buf) f)\<rparr>))"

text \<open>
  The codec puts a mark before each character and another one at the end.
\<close>

definition sim_enc :: "string \<Rightarrow> string" where
  "sim_enc f = concat (map (\<lambda>c. [CHR 0x01, c]) f)"

fun sim_dec :: "string \<Rightarrow> string" where
  "sim_dec (m # c # r) = (if m = CHR 0x01 then c # sim_dec r else [])"
| "sim_dec r = []"

definition sim_deflate :: "string \<Rightarrow> bool \<Rightarrow> nat \<Rightarrow> sim \<Rightarrow> (int \<times> string \<times> string) \<times> sim" where
  "sim_deflate inp flush n w =
     (let used = take (n div 2) inp; last = (flush \<and> length inp < n div 2) in
      ((if last then 1 else 0, sim_enc used @ (if last then [CHR 0x00] else []), drop (n div 2) inp),
       w\<lparr>sim_zin := sim_zin w @ used, sim_zend := last\<rparr>))"

definition sim_inflate :: "string \<Rightarrow> nat \<Rightarrow> sim \<Rightarrow> (int \<times> string \<times> string) \<times> sim" where
  "sim_inflate inp n w =
     (let m = 2 * n - length (sim_zin w) mod 2; fed = sim_zin w @ take m inp in
      ((if odd (length fed) \<and> last fed = CHR 0x00 then 1 else 0,
        drop (length (sim_dec (sim_zin w))) (sim_dec fed), drop m inp),
       w\<lparr>sim_zin := fed\<rparr>))"

definition sim_os :: "sim os" where
  "sim_os = \<lparr>os_alloc = (\<lambda>w. (True, w)), os_sync_init = (\<lambda>w. (True, w)),
     os_time = (\<lambda>w. (sim_now, w)), os_getuid = (\<lambda>w. 1000), os_getgid = (\<lambda>w. 1000),
     os_getenv = (\<lambda>n w. None), os_sleep = (\<lambda>n w. w\<lparr>sim_slept := sim_slept w @ [n]\<rparr>),
     os_open = (\<lambda>p fl m w. (Inr 3, w)), os_close = (\<lambda>fd w. (None, w)),
     os_read = (\<lambda>fd n w. (Inr (take n (sim_unread w)), w\<lparr>sim_unread := drop n (sim_unread w)\<rparr>)),
     os_write = (\<lambda>fd buf w. (Inr (min 4 (length buf)), w\<lparr>sim_out := sim_out w @ take 4 buf\<rparr>)),
     os_pread = (\<lambda>fd n off w. (Inr (take n (drop (nat off) (sim_files w fd))), w)),
     os_pwrite = sim_pwrite, os_rewind = (\<lambda>fd w. (None, w)),
     os_fstat = (\<lambda>fd w. (Inr sim_stat, w)), os_stat = (\<lambda>p w. (Inl ENOENT, w)),
     os_access = (\<lambda>p w. (Some ENOENT, w)), os_unlink = (\<lambda>p w. (None, w)),
     os_rmdir = (\<lambda>p w. (None, w)),
     os_mkdir = (\<lambda>p m w. (None, w\<lparr>sim_dirs := p # sim_dirs w\<rparr>)),
     os_rename = (\<lambda>p q w. (None, w)), os_fchmod = (\<lambda>fd m w. (None, w)),
     os_fchown = (\<lambda>fd u g w. (None, w)), os_fsync = (\<lambda>fd w. (None, w)),
     os_fopen = (\<lambda>p m w. (Inr 7, w)), os_fgets = (\<lambda>fp n w. (None, w)),
     os_fread = (\<lambda>fp n w. ((take n (sim_unread w), False, length (sim_unread w) < n),
       w\<lparr>sim_unread := drop n (sim_unread w)\<rparr>)),
     os_fwrite = (\<lambda>fp buf w. (True, w\<lparr>sim_out := sim_out w @ buf\<rparr>)),
     os_fclose = (\<lambda>fp w. w), os_fflush = (\<lambda>fp w. w), os_fileno = (\<lambda>fp w. 7),
     os_regcomp = (\<lambda>p fl. True), os_regexec = (\<lambda>re t. strstr t (fst re) \<noteq> None)\<rparr>"

definition sim_env :: "sim env" where
  "sim_env = os.extend sim_os
     \<lparr>z_deflateInit = (\<lambda>l w. ((0, 1), w\<lparr>sim_zin := [], sim_zend := False\<rparr>)),
     z_deflate = (\<lambda>z. sim_deflate), z_deflateEnd = (\<lambda>z w. w),
     z_inflateInit = (\<lambda>w. ((0, 1), w\<lparr>sim_zin := []\<rparr>)), z_inflate = (\<lambda>z. sim_inflate),
     z_inflateEnd = (\<lambda>z w. w), g_keys = sim_keys, d_status_code = sim_code,
     d_flag_creat = 1, d_flag_md5 = 2, d_flag_encrypt = 4, d_cwd = (\<lambda>w. ''/''),
     d_namei = (\<lambda>p ino w. case sim_call w of (rc, w) \<Rightarrow> ((rc, Some DPL_FTYPE_REG, p), w)),
     d_getattr = (\<lambda>p w. ((DPL_SUCCESS, sim_cloud w p), w)),
     d_getattr_raw = (\<lambda>p w. ((DPL_SUCCESS, sim_cloud w p), w)),
     d_setattr = (\<lambda>p md w. (DPL_SUCCESS, w\<lparr>sim_cloud := (sim_cloud w)(p \<mapsto> md)\<rparr>)),
     d_mknod = (\<lambda>p w. (DPL_SUCCESS, w)), d_mkdir = (\<lambda>p. sim_call), d_unlink = (\<lambda>p. sim_call),
     d_rmdir = (\<lambda>p. sim_call), d_chdir = (\<lambda>p. sim_call), d_fcopy = (\<lambda>p q w. (DPL_SUCCESS, w)),
     d_opendir = (\<lambda>p w. ((DPL_SUCCESS, 1), w)), d_readdir = (\<lambda>h. sim_readdir),
     d_closedir = (\<lambda>h w. w), d_head_all = (\<lambda>p w. ((DPL_SUCCESS, sim_cloud w p), w)),
     d_metadata_from_headers = (\<lambda>h d w. ((DPL_SUCCESS, d), w)),
     d_openwrite = (\<lambda>p fl d n w. ((DPL_SUCCESS, Some 1), w)),
     d_write = (\<lambda>v buf w. (DPL_SUCCESS, w\<lparr>sim_out := sim_out w @ buf\<rparr>)),
     d_close = (\<lambda>v w. (DPL_SUCCESS, w)),
     d_openread = (\<lambda>p fl cb. seqM (cb ''remote'') (\<lambda>_. ret (DPL_SUCCESS, None))),
     d_dict_update = (\<lambda>d k v w. ((DPL_SUCCESS, d(k \<mapsto> v)), w)),
     d_dict_add = (\<lambda>d k v w. ((DPL_SUCCESS, d(k \<mapsto> v)), w)),
     d_dict_copy = (\<lambda>d e w. ((DPL_SUCCESS, d ++ e), w)),
     d_dict_filter_prefix = (\<lambda>d src p w. ((DPL_SUCCESS, case src of None \<Rightarrow> d | Some e \<Rightarrow> d ++ e), w))\<rparr>"

lemmas sim_defs = sim_env_def sim_os_def os.defs env.defs sim_call_def sim_now_def

definition sim_conf :: conf where
  "sim_conf = \<lparr>c_root_dir = Live ''/mnt'', c_cache_dir = Live ''/tmp/b'',
     c_compression_method = Live ''NONE'', c_zlib_level = 3, c_gc_loop_delay = 60,
     c_gc_age_threshold = 900, c_sc_loop_delay = 0, c_sc_age_threshold = 0, c_max_retry = 2,
     c_log_level = 3, c_cache_max_size = 1000, c_regex = \<lparr>re_str = Null, re_rx = None, re_set = False\<rparr>,
     c_encryption_method = Live ''NONE'', c_debug = 0\<rparr>"

text \<open>
  One file \<open>/a\<close>: its entry is at address 0, its metadata at address 1, its copy in the cache
  is open as descriptor 3.
\<close>

definition sim_pe :: tpath_entry where
  "sim_pe = \<lparr>pe_fd = 3, pe_path = Some ''/a'', pe_digest = None, pe_usermd = Some 1,
     pe_md_mutex = False, pe_mutex = False, pe_refcount = 0, pe_flag = FLAG_DIRTY,
     pe_exclude = False, pe_filetype = Some FILE_REG, pe_dirent = [], pe_ondisk = FILE_REMOTE,
     pe_atime = Some 1000\<rparr>"

definition sim_state :: "sim gstate" where
  "sim_state = \<lparr>gconf = sim_conf, conf_null = False, bucket = ''b'', ghash = [''/a'' \<mapsto> 0],
     pes = [0 \<mapsto> sim_pe], dicts = [1 \<mapsto> [''mode'' \<mapsto> ''33188'']], fresh = 2, world = sim_world\<rparr>"

lemma sim_state_wf: "state_wf sim_state"
  by (auto simp: sim_state_def sim_pe_def state_wf_def hash_wf_def path_wf_def dict_wf_def fresh_wf_def
      owns_def inj_on_def split: if_splits)

end
