(* ===== verification/Timeout.thy ===== *)
theory Timeout
  imports Sim
begin

text \<open>
  The retrying calls of \<open>src/timeout.c\<close>.  Each wrapper repeats a call of libdroplet while
  its status is worth a retry and attempts are left, sleeping 1, 2, 4, ... seconds in
  between.  The wrappers differ in the statuses that end the loop, so their contract is a
  locale, interpreted for each of them.
\<close>

section \<open>The loop\<close>

text \<open>
  One round: the call, then the test, then the macro \<open>ERR_TIMEOUT\<close> and \<open>goto retry\<close>.  The
  loop variables are \<open>tries\<close> and \<open>delay\<close>; \<open>delay\<close> is passed to \<open>sleep\<close> as an unsigned int.  It is
  an \<open>int\<close>: after 31 attempts its doubling overflows, which is undefined in C and wraps here.  The
  message that \<open>dfs_namei_timeout\<close> logs at the level \<open>LOG_DEBUG\<close> is left out.
\<close>

definition retry_body ::
  "('w, 'm) env_scheme \<Rightarrow> (dpl_status \<Rightarrow> bool) \<Rightarrow> ('w \<Rightarrow> (dpl_status \<times> 'a) \<times> 'w) \<Rightarrow>
   int \<times> 32 word \<Rightarrow> ('w, (int \<times> 32 word) + (dpl_status \<times> 'a)) dprog" where
  "retry_body E final call = (\<lambda>(tries, delay).
     seqM (ext call) (\<lambda>(rc, out).
     seqM (getS gconf) (\<lambda>cf.
     if \<not> final rc \<and> tries < c_max_retry cf then
       seqM (ext (\<lambda>w. ((), os_sleep E delay w))) (\<lambda>_.
       ret (Inl (tries + 1, delay * 2)))
     else ret (Inr (rc, out)))))"

definition retry ::
  "('w, 'm) env_scheme \<Rightarrow> (dpl_status \<Rightarrow> bool) \<Rightarrow> ('w \<Rightarrow> (dpl_status \<times> 'a) \<times> 'w) \<Rightarrow>
   ('w, dpl_status \<times> 'a) dprog" where
  "retry E final call = loopM (retry_body E final call) (0, 1)"

text \<open>A call with no result but its status.\<close>

definition plain :: "('w \<Rightarrow> dpl_status \<times> 'w) \<Rightarrow> 'w \<Rightarrow> (dpl_status \<times> unit) \<times> 'w" where
  "plain call w = (case call w of (rc, w') \<Rightarrow> ((rc, ()), w'))"

definition retry_plain ::
  "('w, 'm) env_scheme \<Rightarrow> (dpl_status \<Rightarrow> bool) \<Rightarrow> ('w \<Rightarrow> dpl_status \<times> 'w) \<Rightarrow> ('w, dpl_status) dprog" where
  "retry_plain E final call = seqM (retry E final (plain call)) (\<lambda>(rc, _). ret rc)"

section \<open>The statuses that end the loop\<close>

definition final_getattr :: "dpl_status \<Rightarrow> bool" where
  "final_getattr rc \<longleftrightarrow> \<not> (rc \<noteq> DPL_SUCCESS \<and> rc \<noteq> DPL_EISDIR \<and> rc \<noteq> DPL_ENOENT)"

definition final_setattr :: "dpl_status \<Rightarrow> bool" where
  "final_setattr rc \<longleftrightarrow> \<not> (rc \<noteq> DPL_SUCCESS \<and> rc \<noteq> DPL_EISDIR)"

definition final_mknod :: "dpl_status \<Rightarrow> bool" where
  "final_mknod rc \<longleftrightarrow> \<not> (rc \<noteq> DPL_SUCCESS)"

definition final_noent :: "dpl_status \<Rightarrow> bool" where
  "final_noent rc \<longleftrightarrow> \<not> (rc \<noteq> DPL_SUCCESS \<and> rc \<noteq> DPL_ENOENT)"

definition final_chdir :: "dpl_status \<Rightarrow> bool" where
  "final_chdir rc \<longleftrightarrow> \<not> (rc \<noteq> DPL_SUCCESS \<and> rc \<noteq> DPL_EINVAL)"

lemmas final_defs = final_getattr_def final_setattr_def final_mknod_def final_noent_def final_chdir_def

section \<open>The wrappers\<close>

definition dfs_getattr_gen_timeout ::
  "('w, 'm) env_scheme \<Rightarrow> string \<Rightarrow> bool \<Rightarrow> ('w, dpl_status \<times> dict option) dprog" where
  "dfs_getattr_gen_timeout E path all_headers =
     retry E final_getattr (if all_headers then d_getattr_raw E path else d_getattr E path)"

definition dfs_getattr_all_headers_timeout ::
  "('w, 'm) env_scheme \<Rightarrow> string \<Rightarrow> ('w, dpl_status \<times> dict option) dprog" where
  "dfs_getattr_all_headers_timeout E path = dfs_getattr_gen_timeout E path True"

definition dfs_getattr_timeout ::
  "('w, 'm) env_scheme \<Rightarrow> string \<Rightarrow> ('w, dpl_status \<times> dict option) dprog" where
  "dfs_getattr_timeout E path = dfs_getattr_gen_timeout E path False"

definition dfs_setattr_timeout ::
  "('w, 'm) env_scheme \<Rightarrow> string \<Rightarrow> dict \<Rightarrow> ('w, dpl_status) dprog" where
  "dfs_setattr_timeout E path md = retry_plain E final_setattr (d_setattr E path md)"

definition dfs_mknod_timeout :: "('w, 'm) env_scheme \<Rightarrow> string \<Rightarrow> ('w, dpl_status) dprog" where
  "dfs_mknod_timeout E path = retry_plain E final_mknod (d_mknod E path)"

definition dfs_mkdir_timeout :: "('w, 'm) env_scheme \<Rightarrow> string \<Rightarrow> ('w, dpl_status) dprog" where
  "dfs_mkdir_timeout E path = retry_plain E final_noent (d_mkdir E path)"

definition dfs_unlink_timeout :: "('w, 'm) env_scheme \<Rightarrow> string \<Rightarrow> ('w, dpl_status) dprog" where
  "dfs_unlink_timeout E path = retry_plain E final_noent (d_unlink E path)"

definition dfs_rmdir_timeout :: "('w, 'm) env_scheme \<Rightarrow> string \<Rightarrow> ('w, dpl_status) dprog" where
  "dfs_rmdir_timeout E path = retry_plain E final_noent (d_rmdir E path)"

definition dfs_fcopy_timeout ::
  "('w, 'm) env_scheme \<Rightarrow> string \<Rightarrow> string \<Rightarrow> ('w, dpl_status) dprog" where
  "dfs_fcopy_timeout E oldpath newpath = retry_plain E final_noent (d_fcopy E oldpath newpath)"

definition dfs_chdir_timeout :: "('w, 'm) env_scheme \<Rightarrow> string \<Rightarrow> ('w, dpl_status) dprog" where
  "dfs_chdir_timeout E path = retry_plain E final_chdir (d_chdir E path)"

definition dfs_opendir_timeout ::
  "('w, 'm) env_scheme \<Rightarrow> string \<Rightarrow> ('w, dpl_status \<times> nat) dprog" where
  "dfs_opendir_timeout E path = retry E final_noent (d_opendir E path)"

definition dfs_namei_timeout ::
  "('w, 'm) env_scheme \<Rightarrow> string \<Rightarrow> string option \<Rightarrow>
   ('w, dpl_status \<times> dpl_ftype option \<times> string) dprog" where
  "dfs_namei_timeout E path ino = retry E final_noent (d_namei E path ino)"

definition dfs_head_all_timeout ::
  "('w, 'm) env_scheme \<Rightarrow> string \<Rightarrow> ('w, dpl_status \<times> dict option) dprog" where
  "dfs_head_all_timeout E resource = retry E final_noent (d_head_all E resource)"

lemmas timeout_defs =
  dfs_getattr_gen_timeout_def dfs_getattr_all_headers_timeout_def dfs_getattr_timeout_def
  dfs_setattr_timeout_def dfs_mknod_timeout_def dfs_mkdir_timeout_def dfs_unlink_timeout_def
  dfs_rmdir_timeout_def dfs_fcopy_timeout_def dfs_chdir_timeout_def dfs_opendir_timeout_def
  dfs_namei_timeout_def dfs_head_all_timeout_def

section \<open>What a retried call does\<close>

text \<open>
  The reference: with \<open>n\<close> attempts left after this one and a pause of \<open>2 ^ k\<close> seconds, the
  results of the calls in order, up to the first that is final.
\<close>

fun attempts ::
  "('w, 'm) env_scheme \<Rightarrow> (dpl_status \<Rightarrow> bool) \<Rightarrow> ('w \<Rightarrow> (dpl_status \<times> 'a) \<times> 'w) \<Rightarrow>
   nat \<Rightarrow> nat \<Rightarrow> 'w \<Rightarrow> (dpl_status \<times> 'a) list \<times> 'w" where
  "attempts E final call 0 k w = (case call w of (r, w') \<Rightarrow> ([r], w'))"
| "attempts E final call (Suc n) k w =
     (case call w of (r, w') \<Rightarrow>
        if final (fst r) then ([r], w')
        else case attempts E final call n (Suc k) (os_sleep E (2 ^ k) w') of
               (rs, w'') \<Rightarrow> (r # rs, w''))"

lemma attempts_nonempty: "fst (attempts E final call n k w) \<noteq> []"
  by (cases n) (simp_all add: split: prod.splits)

lemma attempts_length: "length (fst (attempts E final call n k w)) \<le> n + 1"
proof (induction n arbitrary: k w)
  case (Suc n)
  obtain r w' where c: "call w = (r, w')" by fastforce
  obtain rs v where "attempts E final call n (Suc k) (os_sleep E (2 ^ k) w') = (rs, v)" by fastforce
  then show ?case using Suc [of "Suc k" "os_sleep E (2 ^ k) w'"] by (simp add: c)
qed (simp split: prod.split)

lemma attempts_final:
  "r \<in> set (butlast (fst (attempts E final call n k w))) \<Longrightarrow> \<not> final (fst r)"
proof (induction n arbitrary: k w)
  case (Suc n)
  obtain r' w' where c: "call w = (r', w')" by fastforce
  obtain rs v where "attempts E final call n (Suc k) (os_sleep E (2 ^ k) w') = (rs, v)" by fastforce
  then show ?case
    using Suc.IH [of "Suc k" "os_sleep E (2 ^ k) w'"] Suc.prems by (auto simp: c split: if_splits)
qed (simp split: prod.splits)

lemma attempts_stop:
  "\<not> final (fst (last (fst (attempts E final call n k w)))) \<Longrightarrow>
   length (fst (attempts E final call n k w)) = n + 1"
proof (induction n arbitrary: k w)
  case (Suc n)
  obtain r w' where c: "call w = (r, w')" by fastforce
  obtain rs v where "attempts E final call n (Suc k) (os_sleep E (2 ^ k) w') = (rs, v)" by fastforce
  then show ?case
    using Suc.IH [of "Suc k" "os_sleep E (2 ^ k) w'"] Suc.prems
      attempts_nonempty [of E final call n "Suc k" "os_sleep E (2 ^ k) w'"]
    by (simp add: c split: if_splits)
qed (simp split: prod.splits)

lemma retry_round:
  assumes "call (world s) = ((rc, out), w)"
  shows "retry_body E final call (tries, delay) s =
     (if \<not> final rc \<and> tries < c_max_retry (gconf s)
      then Inr (Inl (tries + 1, delay * 2), s\<lparr>world := os_sleep E delay w\<rparr>)
      else Inr (Inr (rc, out), s\<lparr>world := w\<rparr>))"
  using assms by (simp add: retry_body_def seqM_apply ext_def)

lemma retry_loop:
  assumes "n = nat (c_max_retry (gconf s) - tries)"
  shows "loopM (retry_body E final call) (tries, 2 ^ k) s =
     (case attempts E final call n k (world s) of (rs, w) \<Rightarrow> Inr (last rs, s\<lparr>world := w\<rparr>))"
  using assms
proof (induction n arbitrary: tries k s)
  case 0
  obtain rc out w' where c: "call (world s) = ((rc, out), w')" by (metis surj_pair)
  from 0 show ?case by (subst loopM_unfold) (simp add: retry_round [where call = call and s = s, OF c] c)
next
  case (Suc n)
  obtain rc out w' where c: "call (world s) = ((rc, out), w')" by (metis surj_pair)
  let ?s = "s\<lparr>world := os_sleep E (2 ^ k) w'\<rparr>"
  obtain rs v where a: "attempts E final call n (Suc k) (os_sleep E (2 ^ k) w') = (rs, v)"
    by fastforce
  have more: "tries < c_max_retry (gconf s)" using Suc.prems by simp
  have "loopM (retry_body E final call) (tries + 1, 2 ^ Suc k) ?s =
     (case attempts E final call n (Suc k) (world ?s) of (rs, w) \<Rightarrow> Inr (last rs, ?s\<lparr>world := w\<rparr>))"
    by (rule Suc.IH) (use Suc.prems in simp)
  then have step: "loopM (retry_body E final call) (tries + 1, 2 ^ k * 2) ?s =
     Inr (last rs, ?s\<lparr>world := v\<rparr>)"
    by (simp add: a mult.commute)
  have "rs \<noteq> []"
    using attempts_nonempty [of E final call n "Suc k" "os_sleep E (2 ^ k) w'"] a by simp
  then show ?case
    using step a more by (subst loopM_unfold) (simp add: retry_round [where call = call and s = s, OF c] c)
qed

lemma retry_attempts:
  "retry E final call s =
     (case attempts E final call (nat (c_max_retry (gconf s))) 0 (world s) of
        (rs, w) \<Rightarrow> Inr (last rs, s\<lparr>world := w\<rparr>))"
  using retry_loop [of _ s 0 E final call 0] by (simp add: retry_def)

text \<open>The contract of the wrappers.\<close>

locale retry_policy =
  fixes final :: "dpl_status \<Rightarrow> bool"
  assumes success_final: "final DPL_SUCCESS"
    and failure_retried: "\<not> final DPL_FAILURE"
begin

lemma result:
  obtains rs w where "retry E final call s = Inr (last rs, s\<lparr>world := w\<rparr>)"
    and "attempts E final call (nat (c_max_retry (gconf s))) 0 (world s) = (rs, w)"
    and "rs \<noteq> []" and "int (length rs) \<le> max 0 (c_max_retry (gconf s)) + 1"
    and "\<forall>r \<in> set (butlast rs). \<not> final (fst r)"
    and "\<not> final (fst (last rs)) \<Longrightarrow> int (length rs) = max 0 (c_max_retry (gconf s)) + 1"
proof -
  let ?n = "nat (c_max_retry (gconf s))"
  obtain rs w where a: "attempts E final call ?n 0 (world s) = (rs, w)" by fastforce
  show ?thesis
    using that [of rs w] retry_attempts [of E final call s] a
      attempts_nonempty [of E final call ?n 0 "world s"]
      attempts_length [of E final call ?n 0 "world s"]
      attempts_final [of _ E final call ?n 0 "world s"]
      attempts_stop [of final E call ?n 0 "world s"]
    by (auto simp: a)
qed

text \<open>A status that is not final reaches the caller only when the attempts are used up.\<close>

lemma failure_means_exhausted:
  assumes "retry E final call s = Inr ((rc, out), s')" and "\<not> final rc"
  shows "\<exists>rs. attempts E final call (nat (c_max_retry (gconf s))) 0 (world s) = (rs, world s') \<and>
     int (length rs) = max 0 (c_max_retry (gconf s)) + 1"
proof (rule result [of E call s])
  fix rs w
  assume r: "retry E final call s = Inr (last rs, s\<lparr>world := w\<rparr>)"
    and a: "attempts E final call (nat (c_max_retry (gconf s))) 0 (world s) = (rs, w)"
    and l: "\<not> final (fst (last rs)) \<Longrightarrow> int (length rs) = max 0 (c_max_retry (gconf s)) + 1"
  from r assms have "last rs = (rc, out)" "s' = s\<lparr>world := w\<rparr>" by auto
  with a l assms(2) show ?thesis by simp
qed

lemma no_retry_on_success:
  assumes "call (world s) = ((DPL_SUCCESS, out), w)"
  shows "retry E final call s = Inr ((DPL_SUCCESS, out), s\<lparr>world := w\<rparr>)"
  using assms success_final
  by (cases "nat (c_max_retry (gconf s))") (simp_all add: retry_attempts)

end

interpretation getattr_policy: retry_policy final_getattr by unfold_locales (simp_all add: final_defs)
interpretation setattr_policy: retry_policy final_setattr by unfold_locales (simp_all add: final_defs)
interpretation mknod_policy: retry_policy final_mknod by unfold_locales (simp_all add: final_defs)
interpretation noent_policy: retry_policy final_noent by unfold_locales (simp_all add: final_defs)
interpretation chdir_policy: retry_policy final_chdir by unfold_locales (simp_all add: final_defs)

section \<open>Properties\<close>

text \<open>
  C15. Every wrapper of \<open>timeout.c\<close> that uses \<open>retry\<close> returns, whatever the library answers, and
  does what the reference \<open>attempts\<close> says: it makes at most \<open>max_retry + 1\<close> calls, at least one,
  sleeping \<open>1, 2, 4, ...\<close> seconds between them; all calls but the last had a status that is
  worth a retry, and the answer of the last one is what the caller gets.
\<close>

theorem getattr_retry_bounded:
  "\<exists>rs w. dfs_getattr_gen_timeout E path all s = Inr (last rs, s\<lparr>world := w\<rparr>) \<and>
     attempts E final_getattr (if all then d_getattr_raw E path else d_getattr E path)
       (nat (c_max_retry (gconf s))) 0 (world s) = (rs, w) \<and>
     rs \<noteq> [] \<and> int (length rs) \<le> max 0 (c_max_retry (gconf s)) + 1 \<and>
     list_all (\<lambda>(rc, _). rc \<noteq> DPL_SUCCESS \<and> rc \<noteq> DPL_EISDIR \<and> rc \<noteq> DPL_ENOENT) (butlast rs)"
  unfolding dfs_getattr_gen_timeout_def
  by (rule getattr_policy.result [of E "if all then d_getattr_raw E path else d_getattr E path" s])
     (auto simp: final_getattr_def list_all_iff)

text \<open>
  A failure that the caller of \<open>dfs_mkdir_timeout\<close> sees, other than a missing parent, is the
  answer of the last of exactly \<open>max_retry + 1\<close> attempts.
\<close>

theorem mkdir_failure_exhausted:
  assumes "dfs_mkdir_timeout E path s = Inr (rc, s')"
    and "rc \<noteq> DPL_SUCCESS" and "rc \<noteq> DPL_ENOENT"
  shows "\<exists>rs. attempts E final_noent (plain (d_mkdir E path)) (nat (c_max_retry (gconf s))) 0 (world s) =
       (rs, world s') \<and> int (length rs) = max 0 (c_max_retry (gconf s)) + 1"
proof -
  from assms(1) have "retry E final_noent (plain (d_mkdir E path)) s = Inr ((rc, ()), s')"
    by (auto simp: dfs_mkdir_timeout_def retry_plain_def seqM_apply split: sum.splits prod.splits)
  then show ?thesis
    by (rule noent_policy.failure_means_exhausted) (simp add: final_noent_def assms(2,3))
qed

definition sim_down :: "sim gstate" where
  "sim_down = sim_state\<lparr>world := sim_world\<lparr>sim_fail := 3\<rparr>\<rparr>"

lemma sim_down_mkdir:
  "dfs_mkdir_timeout sim_env ''/d'' sim_down =
     Inr (DPL_FAILURE, sim_state\<lparr>world := sim_world\<lparr>sim_slept := [1, 2]\<rparr>\<rparr>)"
  by (simp add: dfs_mkdir_timeout_def retry_plain_def retry_attempts seqM_apply sim_down_def
      sim_state_def sim_conf_def numeral_2_eq_2 plain_def sim_defs final_noent_def sim_world_def)

lemma mkdir_failure_exhausted_witness:
  "\<exists>rs. attempts sim_env final_noent (plain (d_mkdir sim_env ''/d'')) 2 0 (world sim_down) =
     (rs, sim_world\<lparr>sim_slept := [1, 2]\<rparr>) \<and> length rs = 3"
  using mkdir_failure_exhausted [OF sim_down_mkdir]
  by (simp add: sim_down_def sim_state_def sim_conf_def)

text \<open>In the example world the calls succeed at once.\<close>

lemma retry_plain_success:
  assumes "call (world s) = (DPL_SUCCESS, w)"
  shows "retry_plain E final_noent call s = Inr (DPL_SUCCESS, s\<lparr>world := w\<rparr>)"
    "retry_plain E final_setattr call s = Inr (DPL_SUCCESS, s\<lparr>world := w\<rparr>)"
    "retry_plain E final_mknod call s = Inr (DPL_SUCCESS, s\<lparr>world := w\<rparr>)"
    "retry_plain E final_chdir call s = Inr (DPL_SUCCESS, s\<lparr>world := w\<rparr>)"
  using noent_policy.no_retry_on_success [of "plain call" s "()" w E]
    setattr_policy.no_retry_on_success [of "plain call" s "()" w E]
    mknod_policy.no_retry_on_success [of "plain call" s "()" w E]
    chdir_policy.no_retry_on_success [of "plain call" s "()" w E] assms
  by (simp_all add: retry_plain_def seqM_apply plain_def)

lemma sim_timeouts:
  assumes "sim_fail (world s) = 0"
  shows "dfs_mkdir_timeout sim_env p s = Inr (DPL_SUCCESS, s)"
    and "dfs_unlink_timeout sim_env p s = Inr (DPL_SUCCESS, s)"
    and "dfs_rmdir_timeout sim_env p s = Inr (DPL_SUCCESS, s)"
    and "dfs_chdir_timeout sim_env p s = Inr (DPL_SUCCESS, s)"
    and "dfs_fcopy_timeout sim_env p q s = Inr (DPL_SUCCESS, s)"
    and "dfs_opendir_timeout sim_env p s = Inr ((DPL_SUCCESS, 1), s)"
    and "dfs_namei_timeout sim_env p i s = Inr ((DPL_SUCCESS, Some DPL_FTYPE_REG, p), s)"
  using assms noent_policy.no_retry_on_success [of "d_opendir sim_env p" s 1 "world s" sim_env]
    noent_policy.no_retry_on_success [of "d_namei sim_env p i" s "(Some DPL_FTYPE_REG, p)" "world s" sim_env]
  by (simp_all add: timeout_defs retry_plain_success [where w = "world s"] sim_defs)

end
