(* ===== verification/Metadata.thy ===== *)
theory Metadata
  imports Sim
begin

text \<open>
  The metadata of \<open>src/metadata.c\<close>: the attributes of a file travel to the cloud as decimal
  strings of a dictionary (\<open>fill_metadata_from_stat\<close>) and come back as a \<open>struct stat\<close>
  (\<open>fill_stat_from_metadata\<close>).  The lemmas show the round trip and what is lost in it.
\<close>

section \<open>The operations\<close>

text \<open>A failing update is only logged.\<close>

definition assign_meta_to_dict ::
  "('w, 'm) env_scheme \<Rightarrow> addr \<Rightarrow> string \<Rightarrow> 64 word \<Rightarrow> ('w, unit) dprog" where
  "assign_meta_to_dict E dict meta val =
     seqM (dict_call (\<lambda>d. d_dict_update E d meta (fmt (show_ulong val))) dict) (\<lambda>rc. ret ())"

definition fill_metadata_from_stat ::
  "('w, 'm) env_scheme \<Rightarrow> addr \<Rightarrow> stat \<Rightarrow> ('w, unit) dprog" where
  "fill_metadata_from_stat E dict st =
     seqM (assign_meta_to_dict E dict ''mode'' (ucast (st_mode st))) (\<lambda>_.
     seqM (assign_meta_to_dict E dict ''size'' (st_size st)) (\<lambda>_.
     seqM (assign_meta_to_dict E dict ''uid'' (ucast (st_uid st))) (\<lambda>_.
     seqM (assign_meta_to_dict E dict ''gid'' (ucast (st_gid st))) (\<lambda>_.
     seqM (assign_meta_to_dict E dict ''atime'' (st_atime st)) (\<lambda>_.
     seqM (assign_meta_to_dict E dict ''mtime'' (st_mtime st)) (\<lambda>_.
     assign_meta_to_dict E dict ''ctime'' (st_ctime st)))))))"

text \<open>The \<open>long long\<close> result is a 64-bit word: -1 is also what a missing entry gives.\<close>

definition metadatatoll :: "dict \<Rightarrow> string \<Rightarrow> 64 word" where
  "metadatatoll dict name = (case dict name of None \<Rightarrow> - 1 | Some value \<Rightarrow> strtoul value)"

text \<open>The macro \<open>STORE_META\<close>: a value of -1 leaves the field alone.\<close>

definition store_meta :: "dict \<Rightarrow> string \<Rightarrow> (64 word \<Rightarrow> stat \<Rightarrow> stat) \<Rightarrow> stat \<Rightarrow> stat" where
  "store_meta dict name put st =
     (let v = metadatatoll dict name in if v \<noteq> - 1 then put v st else st)"

definition fill_stat_from_metadata :: "stat \<Rightarrow> dict \<Rightarrow> stat" where
  "fill_stat_from_metadata st dict =
     (let st = store_meta dict ''size'' (\<lambda>v st. st\<lparr>st_size := v\<rparr>) st;
          st = store_meta dict ''mode'' (\<lambda>v st. st\<lparr>st_mode := ucast v\<rparr>) st;
          st = store_meta dict ''uid'' (\<lambda>v st. st\<lparr>st_uid := ucast v\<rparr>) st;
          st = store_meta dict ''gid'' (\<lambda>v st. st\<lparr>st_gid := ucast v\<rparr>) st;
          st = store_meta dict ''atime'' (\<lambda>v st. st\<lparr>st_atime := v\<rparr>) st;
          st = store_meta dict ''ctime'' (\<lambda>v st. st\<lparr>st_ctime := v\<rparr>) st;
          st = store_meta dict ''mtime'' (\<lambda>v st. st\<lparr>st_mtime := v\<rparr>) st
      in if dict ''symlink'' \<noteq> None then st\<lparr>st_mode := st_mode st OR S_IFLNK\<rparr> else st)"

section \<open>The round trip\<close>

text \<open>What libdroplet documents of \<open>dpl_dict_update_value\<close>: it adds or replaces one entry.\<close>

definition dict_updates :: "('w, 'm) env_scheme \<Rightarrow> bool" where
  "dict_updates E \<longleftrightarrow>
     (\<forall>d k v w. \<exists>w'. d_dict_update E d k v w = ((DPL_SUCCESS, d(k \<mapsto> v)), w'))"

definition md_of_stat :: "stat \<Rightarrow> dict" where
  "md_of_stat st = [''mode'' \<mapsto> show_ulong (ucast (st_mode st)), ''size'' \<mapsto> show_ulong (st_size st),
     ''uid'' \<mapsto> show_ulong (ucast (st_uid st)), ''gid'' \<mapsto> show_ulong (ucast (st_gid st)),
     ''atime'' \<mapsto> show_ulong (st_atime st), ''mtime'' \<mapsto> show_ulong (st_mtime st),
     ''ctime'' \<mapsto> show_ulong (st_ctime st)]"

lemma fmt_show_ulong [simp]: "fmt (show_ulong v) = show_ulong v"
  using length_show_ulong [of v] by (intro fmt_short) (simp add: tmpstr_max_def)

lemma assign_meta_to_dict_run:
  assumes "dict_updates E" and "dicts s a = Some d"
  shows "\<exists>w'. assign_meta_to_dict E a k v s =
     Inr ((), s\<lparr>world := w', dicts := (dicts s)(a \<mapsto> d(k \<mapsto> show_ulong v))\<rparr>)"
proof -
  from assms(1) obtain w' where
    "d_dict_update E d k (show_ulong v) (world s) = ((DPL_SUCCESS, d(k \<mapsto> show_ulong v)), w')"
    unfolding dict_updates_def by blast
  with assms(2) show ?thesis
    by (auto simp: assign_meta_to_dict_def dict_call_def state_ops seqM_apply)
qed

fun assign_all ::
  "('w, 'm) env_scheme \<Rightarrow> addr \<Rightarrow> (string \<times> 64 word) list \<Rightarrow> ('w, unit) dprog" where
  "assign_all E a [] = ret ()"
| "assign_all E a ((k, v) # kvs) = seqM (assign_meta_to_dict E a k v) (\<lambda>_. assign_all E a kvs)"

lemma assign_all_run:
  assumes "dict_updates E" and "dicts s a = Some d"
  shows "\<exists>s'. assign_all E a kvs s = Inr ((), s') \<and>
     dicts s' = (dicts s)(a \<mapsto> d ++ map_of (rev (map (\<lambda>(k, v). (k, show_ulong v)) kvs))) \<and>
     s' = s\<lparr>world := world s', dicts := dicts s'\<rparr>"
  using assms(2)
proof (induction kvs arbitrary: s d)
  case Nil
  then show ?case by (auto simp: map_upd_triv)
next
  case (Cons kv kvs)
  obtain k v where kv: "kv = (k, v)" by fastforce
  obtain w' where run: "assign_meta_to_dict E a k v s =
     Inr ((), s\<lparr>world := w', dicts := (dicts s)(a \<mapsto> d(k \<mapsto> show_ulong v))\<rparr>)" (is "_ = Inr ((), ?s)")
    using assign_meta_to_dict_run [OF assms(1) Cons.prems] by blast
  have "dicts ?s a = Some (d(k \<mapsto> show_ulong v))" by simp
  from Cons.IH [OF this] obtain s' where s': "assign_all E a kvs ?s = Inr ((), s')"
    "dicts s' = (dicts ?s)(a \<mapsto> d(k \<mapsto> show_ulong v) ++ map_of (rev (map (\<lambda>(k, v). (k, show_ulong v)) kvs)))"
    "s' = ?s\<lparr>world := world s', dicts := dicts s'\<rparr>"
    by blast
  have "s' = s\<lparr>world := world s', dicts := dicts s'\<rparr>" using s'(3) by simp
  then show ?case
    using s'(1,2) by (simp add: kv seqM_apply run map_of_append del: fun_upd_apply)
qed

lemma fill_metadata_assign_all:
  "fill_metadata_from_stat E a st = assign_all E a [(''mode'', ucast (st_mode st)),
     (''size'', st_size st), (''uid'', ucast (st_uid st)), (''gid'', ucast (st_gid st)),
     (''atime'', st_atime st), (''mtime'', st_mtime st), (''ctime'', st_ctime st)]"
proof -
  have "(\<lambda>_ :: unit. ret ()) = ret" by (simp add: fun_eq_iff)
  then show ?thesis by (simp add: fill_metadata_from_stat_def)
qed

lemma fill_metadata_from_stat_run:
  assumes "dict_updates E" and "dicts s a = Some d"
  shows "\<exists>s'. fill_metadata_from_stat E a st s = Inr ((), s') \<and>
     dicts s' = (dicts s)(a \<mapsto> d ++ md_of_stat st) \<and>
     s' = s\<lparr>world := world s', dicts := dicts s'\<rparr>"
proof -
  let ?kvs = "[(''mode'', ucast (st_mode st)),
     (''size'', st_size st), (''uid'', ucast (st_uid st)), (''gid'', ucast (st_gid st)),
     (''atime'', st_atime st), (''mtime'', st_mtime st), (''ctime'', st_ctime st)]"
  have "map_of (rev (map (\<lambda>(k, v). (k, show_ulong v)) ?kvs)) = md_of_stat st"
    unfolding md_of_stat_def by (simp add: fun_upd_twist)
  with assign_all_run [OF assms, of ?kvs] show ?thesis
    unfolding fill_metadata_assign_all by (simp only:)
qed

lemma metadatatoll_simps [simp]:
  "dict name = Some (show_ulong v) \<Longrightarrow> metadatatoll dict name = v"
  "dict name = None \<Longrightarrow> metadatatoll dict name = - 1"
  by (simp_all add: metadatatoll_def)

text \<open>A 64-bit attribute with all bits set looks like a missing one.\<close>

definition storable :: "stat \<Rightarrow> bool" where
  "storable st \<longleftrightarrow> st_size st \<noteq> - 1 \<and> st_atime st \<noteq> - 1 \<and> st_mtime st \<noteq> - 1 \<and> st_ctime st \<noteq> - 1"

lemma ucast_not_max [simp]: "(ucast (x :: 32 word) :: 64 word) \<noteq> - 1"
proof
  assume "(ucast x :: 64 word) = - 1"
  then have "bit (ucast x :: 64 word) 32" by simp
  then show False using bit_imp_le_length [of x 32] by (simp add: bit_unsigned_iff)
qed

lemma ucast_back [simp]: "(ucast (ucast (x :: 32 word) :: 64 word) :: 32 word) = x"
  by (simp add: ucast_up_ucast_id is_up)

lemma fill_stat_of_md:
  assumes "storable st" and "\<And>k. md_of_stat st k \<noteq> None \<Longrightarrow> d k = md_of_stat st k"
  shows "fill_stat_from_metadata z d =
     st\<lparr>st_nlink := st_nlink z, st_mode := (if d ''symlink'' = None then st_mode st else st_mode st OR S_IFLNK)\<rparr>"
proof -
  have "metadatatoll d ''mode'' = ucast (st_mode st)" "metadatatoll d ''size'' = st_size st"
    "metadatatoll d ''uid'' = ucast (st_uid st)" "metadatatoll d ''gid'' = ucast (st_gid st)"
    "metadatatoll d ''atime'' = st_atime st" "metadatatoll d ''mtime'' = st_mtime st"
    "metadatatoll d ''ctime'' = st_ctime st"
    by (rule metadatatoll_simps; simp add: assms(2) md_of_stat_def)+
  with assms(1) show ?thesis
    by (simp add: fill_stat_from_metadata_def store_meta_def storable_def Let_def)
qed

section \<open>Properties\<close>

text \<open>
  C10. The attributes that a write sends to the cloud are those that a read finds: after
  \<open>fill_metadata_from_stat\<close> has filled a dictionary, \<open>fill_stat_from_metadata\<close> gives the same
  attributes, whatever the dictionary and the result held before, except for the number of
  links, which is not sent.  An entry \<open>symlink\<close> of the dictionary adds the bits of a link.
\<close>

theorem metadata_round_trip:
  assumes "dict_updates E" and "dicts s a = Some d" and "storable st"
  shows "\<exists>s' d'. fill_metadata_from_stat E a st s = Inr ((), s') \<and> dicts s' a = Some d' \<and>
     fill_stat_from_metadata z d' = st\<lparr>st_nlink := st_nlink z,
       st_mode := (if d ''symlink'' = None then st_mode st else st_mode st OR S_IFLNK)\<rparr>"
proof -
  obtain s' where r: "fill_metadata_from_stat E a st s = Inr ((), s')"
    "dicts s' = (dicts s)(a \<mapsto> d ++ md_of_stat st)"
    using fill_metadata_from_stat_run [OF assms(1,2), of st] by blast
  have "(d ++ md_of_stat st) ''symlink'' = d ''symlink''"
    by (simp add: md_of_stat_def map_add_def)
  moreover have "(d ++ md_of_stat st) k = md_of_stat st k" if "md_of_stat st k \<noteq> None" for k
    using that by (auto simp: map_add_def)
  ultimately have "fill_stat_from_metadata z (d ++ md_of_stat st) = st\<lparr>st_nlink := st_nlink z,
       st_mode := (if d ''symlink'' = None then st_mode st else st_mode st OR S_IFLNK)\<rparr>"
    using fill_stat_of_md [OF assms(3), of "d ++ md_of_stat st" z] by simp
  with r show ?thesis by simp
qed

lemma metadata_round_trip_witness:
  "\<exists>s' d'. fill_metadata_from_stat sim_env 1 sim_stat sim_state = Inr ((), s') \<and> dicts s' 1 = Some d' \<and>
     fill_stat_from_metadata zero_stat d' = sim_stat"
proof -
  have "dict_updates sim_env" by (simp add: dict_updates_def sim_defs)
  moreover have "dicts sim_state 1 = Some [''mode'' \<mapsto> ''33188'']" by (simp add: sim_state_def)
  moreover have "storable sim_stat" by (simp add: storable_def sim_stat_def zero_stat_def)
  moreover have "sim_stat\<lparr>st_nlink := st_nlink zero_stat, st_mode := st_mode sim_stat\<rparr> = sim_stat"
    by (simp add: sim_stat_def)
  ultimately show ?thesis
    using metadata_round_trip [of sim_env sim_state 1 "[''mode'' \<mapsto> ''33188'']" sim_stat zero_stat]
    by simp
qed

end
