(* ===== verification/Misc.thy ===== *)
theory Misc
  imports Sim
begin

text \<open>
  The small helpers: elapsed time (\<open>src/utils.c\<close>), the creation of a directory with its
  ancestors (\<open>src/misc.c\<close>), the exclusion regex (\<open>src/regex.c\<close>).
\<close>

section \<open>utils.c\<close>

record timeval =
  tv_sec :: "64 word"
  tv_usec :: "64 word"

text \<open>The differences wrap at 64 bits, the result is an \<open>int\<close>.\<close>

definition time_diff :: "timeval \<Rightarrow> timeval \<Rightarrow> int" where
  "time_diff start end' =
     (let start64 = tv_sec start * 1000000 + tv_usec start;
          end64 = tv_sec end' * 1000000 + tv_usec end'
      in to_int32 ((end64 - start64) div 1000))"

text \<open>The time a \<open>timeval\<close> stands for, in microseconds.\<close>

definition micros :: "timeval \<Rightarrow> nat" where
  "micros t = unat (tv_sec t) * 1000000 + unat (tv_usec t)"

text \<open>\<open>time_diff\<close> is exact while the microseconds fit 64 bits and the result an \<open>int\<close>.\<close>

lemma unat_micros:
  "micros t < 2 ^ 64 \<Longrightarrow> unat (tv_sec t * 1000000 + tv_usec t) = micros t"
  by (simp add: micros_def unat_word_ariths)

lemma to_int32_small:
  assumes w: "unat w < 2 ^ 31"
  shows "to_int32 w = int (unat w)"
proof -
  have u: "uint w < 2 ^ 31"
  proof -
    have "int (unat w) < int (2 ^ 31)" using w by (simp only: of_nat_less_iff)
    then show ?thesis by simp
  qed
  have "to_int32 w = signed_take_bit 31 (uint w)"
    by (simp add: to_int32_def signed_ucast_eq)
  also have "\<dots> = uint w"
    using u by (intro signed_take_bit_int_eq_self) (auto intro: order_trans [of _ 0])
  finally show ?thesis by simp
qed

text \<open>
  \<open>time_diff\<close> is the number of milliseconds between two points in time, rounded down, when
  they are in order, their microseconds fit 64 bits and the difference fits an \<open>int\<close>.
\<close>

theorem time_diff_exact:
  assumes "micros s \<le> micros e" "micros e < 2 ^ 64" "micros e - micros s < 1000 * 2 ^ 31"
  shows "time_diff s e = int ((micros e - micros s) div 1000)"
proof -
  let ?d = "tv_sec e * 1000000 + tv_usec e - (tv_sec s * 1000000 + tv_usec s)"
  have "unat ?d = micros e - micros s"
    using assms by (simp add: unat_sub word_le_nat_alt unat_micros)
  then have "unat (?d div 1000) = (micros e - micros s) div 1000"
    by (simp add: unat_div)
  moreover from this assms(3) have "unat (?d div 1000) < 2 ^ 31" by linarith
  ultimately show ?thesis by (simp add: time_diff_def to_int32_small)
qed

section \<open>misc.c\<close>

text \<open>The macro \<open>MKDIR\<close>: a failure is only logged.\<close>

definition mkdir_quiet :: "('w, 'm) env_scheme \<Rightarrow> string \<Rightarrow> mode_t \<Rightarrow> ('w, unit) dprog" where
  "mkdir_quiet E path mode = seqM (ext (os_mkdir E path mode)) (\<lambda>_. ret ())"

text \<open>
  The loop over \<open>p\<close>: \<open>pre\<close> is the part of \<open>tmp\<close> before \<open>p\<close>, the list what is left.  The loop
  starts behind the first character; with an empty \<open>tmp\<close> that is behind the NUL, where
  the buffer still holds an older string.
\<close>

fun mkdir_scan :: "('w, 'm) env_scheme \<Rightarrow> string \<Rightarrow> string \<Rightarrow> ('w, unit) dprog" where
  "mkdir_scan E pre [] = mkdir_quiet E pre S_IRWXU"
| "mkdir_scan E pre (c # cs) =
     seqM (if c = CHR ''/'' then mkdir_quiet E pre S_IRWXU else ret ()) (\<lambda>_.
     mkdir_scan E (pre @ [c]) cs)"

definition mkdir_tree :: "('w, 'm) env_scheme \<Rightarrow> string option \<Rightarrow> ('w, unit) dprog" where
  "mkdir_tree E dir =
     (case dir of None \<Rightarrow> ret ()
      | Some d \<Rightarrow> (case fmt d of [] \<Rightarrow> crash UninitRead | c # cs \<Rightarrow> mkdir_scan E [c] cs))"

text \<open>The directories above \<open>d\<close>, the highest first: the parts of \<open>d\<close> that end before a slash.\<close>

definition ancestors :: "string \<Rightarrow> string list" where
  "ancestors d = map (\<lambda>i. take i d) (filter (\<lambda>i. d ! i = CHR ''/'') [1..<length d])"

fun mkdirs :: "('w, 'm) env_scheme \<Rightarrow> string list \<Rightarrow> 'w \<Rightarrow> 'w" where
  "mkdirs E [] w = w"
| "mkdirs E (d # ds) w = mkdirs E ds (snd (os_mkdir E d S_IRWXU w))"

lemma mkdirs_append: "mkdirs E (xs @ ys) w = mkdirs E ys (mkdirs E xs w)"
  by (induction xs arbitrary: w) simp_all

lemma mkdir_quiet_run:
  "mkdir_quiet E p S_IRWXU s = Inr ((), s\<lparr>world := mkdirs E [p] (world s)\<rparr>)"
  by (simp add: mkdir_quiet_def seqM_apply ext_def split: prod.split)

lemma mkdir_scan_run:
  "mkdir_scan E pre cs s = Inr ((), s\<lparr>world := mkdirs E
     (map (\<lambda>i. take i (pre @ cs)) (filter (\<lambda>i. (pre @ cs) ! i = CHR ''/'') [length pre..<length (pre @ cs)])
      @ [pre @ cs]) (world s)\<rparr>)"
proof (induction cs arbitrary: pre s)
  case Nil
  show ?case by (simp add: mkdir_quiet_run del: mkdirs.simps)
next
  case (Cons c cs)
  have up: "[length pre..<length (pre @ c # cs)] = length pre # [length (pre @ [c])..<length ((pre @ [c]) @ cs)]"
    by (subst upt_conv_Cons) simp_all
  show ?case unfolding up
    by (simp add: Cons.IH seqM_apply mkdir_quiet_run mkdirs_append)
qed

lemma mkdir_tree_run:
  "fmt d \<noteq> [] \<Longrightarrow> mkdir_tree E (Some d) s =
     Inr ((), s\<lparr>world := mkdirs E (ancestors (fmt d) @ [fmt d]) (world s)\<rparr>)"
  by (cases "fmt d") (simp_all add: mkdir_tree_def mkdir_scan_run ancestors_def)

text \<open>The directories that are asked for, one after the other, each with the answer.\<close>

fun mkdir_calls :: "('w, 'm) env_scheme \<Rightarrow> string list \<Rightarrow> 'w \<Rightarrow> (string \<times> int option) list" where
  "mkdir_calls E [] w = []"
| "mkdir_calls E (d # ds) w =
     (case os_mkdir E d S_IRWXU w of (answer, w') \<Rightarrow> (d, answer) # mkdir_calls E ds w')"

text \<open>
  What \<open>mkdir(2)\<close> documents: when it succeeds the path is a directory, and no other path became
  one or ceased to be one; when it fails, for whatever reason, nothing changed.
\<close>

definition mkdir_documented :: "('w, 'm) env_scheme \<Rightarrow> ('w \<Rightarrow> string \<Rightarrow> bool) \<Rightarrow> bool" where
  "mkdir_documented E isdir \<longleftrightarrow> (\<forall>p w. case os_mkdir E p S_IRWXU w of
     (None, w') \<Rightarrow> isdir w' = (isdir w)(p := True) | (Some e, w') \<Rightarrow> isdir w' = isdir w)"

lemma mkdirs_made:
  assumes "mkdir_documented E isdir"
  shows "isdir (mkdirs E ds w) q \<longleftrightarrow> isdir w q \<or> (q, None) \<in> set (mkdir_calls E ds w)"
proof (induction ds arbitrary: w)
  case (Cons d ds)
  obtain e w' where m: "os_mkdir E d S_IRWXU w = (e, w')" by fastforce
  from assms have "case e of None \<Rightarrow> isdir w' = (isdir w)(d := True) | Some e \<Rightarrow> isdir w' = isdir w"
    unfolding mkdir_documented_def by (metis (no_types, lifting) m case_prod_conv)
  with m Cons [of w'] show ?case by (auto split: option.splits)
qed simp

text \<open>
  C32. \<open>mkdir_tree\<close> asks for every directory on the way to the path, the highest first, and then for
  the path, and goes on whatever the answers are; with a \<open>mkdir\<close> as documented, the directories
  afterwards are exactly those that were there and those whose \<open>mkdir\<close> succeeded.  So a part of
  the path is missing at the end exactly if it was not there and its \<open>mkdir\<close> was refused.
\<close>

theorem mkdir_tree_makes:
  assumes "mkdir_documented E isdir" and "fmt d \<noteq> []"
  shows "\<exists>w. mkdir_tree E (Some d) s = Inr ((), s\<lparr>world := w\<rparr>) \<and>
     isdir w = (\<lambda>q. isdir (world s) q \<or>
       (q, None) \<in> set (mkdir_calls E (ancestors (fmt d) @ [fmt d]) (world s)))"
  using mkdir_tree_run [OF assms(2), of E s] mkdirs_made [OF assms(1)] by (auto simp: fun_eq_iff)

section \<open>regex.c\<close>

definition re_ctor ::
  "('w, 'm) env_scheme \<Rightarrow> string option \<Rightarrow> int \<Rightarrow> re \<Rightarrow> ('w, int \<times> re) dprog" where
  "re_ctor E pattern flags re =
     (let re = re\<lparr>re_set := False\<rparr> in
      case pattern of None \<Rightarrow> ret (- 1, re)
      | Some p \<Rightarrow>
          if p = [] then ret (- 1, re)
          else if \<not> os_regcomp E p flags then ret (- 1, re)
          else (let re = re\<lparr>re_rx := Some (p, flags)\<rparr> in
            seqM (strdup E p) (\<lambda>str.
            let re = re\<lparr>re_str := str\<rparr> in
            if str = Null then ret (- 1, re) else ret (0, re\<lparr>re_set := True\<rparr>))))"

definition re_dtor :: "re \<Rightarrow> ('w, re) dprog" where
  "re_dtor re = seqM (free_str (re_str re)) (\<lambda>str. ret (re\<lparr>re_str := str, re_rx := None\<rparr>))"

definition re_matcher :: "('w, 'm) env_scheme \<Rightarrow> re \<Rightarrow> string \<Rightarrow> ('w, bool) dprog" where
  "re_matcher E re pattern =
     (if \<not> re_set re then ret False
      else seqM (derefM UninitRead (re_rx re)) (\<lambda>rx. ret (os_regexec E rx pattern)))"

text \<open>An expression that is set has been compiled from the text it carries.\<close>

definition re_wf :: "re \<Rightarrow> bool" where
  "re_wf re \<longleftrightarrow> (re_set re \<longrightarrow> (\<exists>p fl. re_str re = Live p \<and> re_rx re = Some (p, fl)))"

lemma re_ctor_run:
  assumes "re_ctor E pattern flags re s = Inr ((rc, re'), s')"
  shows "re_wf re'" "rc = 0 \<longleftrightarrow> re_set re'" "rc = 0 \<or> rc = - 1"
    "re_set re' \<Longrightarrow> \<exists>p. pattern = Some p \<and> re_str re' = Live p \<and> re_rx re' = Some (p, flags)"
  using assms
  by (auto simp: re_ctor_def re_wf_def strdup_def seqM_apply ext_def Let_def
      split: option.splits if_splits prod.splits)

lemma re_matcher_run:
  "re_wf re \<Longrightarrow> re_matcher E re p s =
     Inr (re_set re \<and> os_regexec E (the (re_rx re)) p, s)"
  by (auto simp: re_matcher_def re_wf_def)

section \<open>Properties\<close>

lemma time_diff_exact_witness:
  "time_diff \<lparr>tv_sec = 1, tv_usec = 999000\<rparr> \<lparr>tv_sec = 3, tv_usec = 500\<rparr> = 1001"
  using time_diff_exact [of "\<lparr>tv_sec = 1, tv_usec = 999000\<rparr>" "\<lparr>tv_sec = 3, tv_usec = 500\<rparr>"]
  by (simp add: micros_def)

lemma mkdir_tree_makes_witness:
  "\<exists>w. mkdir_tree sim_env (Some ''/x/y/z'') sim_state = Inr ((), sim_state\<lparr>world := w\<rparr>) \<and>
     set (sim_dirs w) = {''/x'', ''/x/y'', ''/x/y/z''}"
proof -
  have f: "fmt ''/x/y/z'' = ''/x/y/z''" by (rule fmt_short) (simp add: tmpstr_max_def)
  have a: "ancestors ''/x/y/z'' = [''/x'', ''/x/y'']" by (simp add: ancestors_def upt_rec)
  have d: "mkdir_documented sim_env (\<lambda>w q. q \<in> set (sim_dirs w))"
    by (auto simp: mkdir_documented_def sim_defs fun_eq_iff)
  have "sim_dirs (world sim_state) = []" by (simp add: sim_state_def sim_world_def)
  with mkdir_tree_makes [OF d, of "''/x/y/z''" sim_state] show ?thesis
    by (auto simp: f a sim_defs fun_eq_iff set_eq_iff)
qed

end
