(* ===== verification/Hash.thy ===== *)
theory Hash
  imports Dirents Timeout Metadata Misc
begin

text \<open>
  The path entries and the hash table of \<open>src/hash.c\<close> (and \<open>safe_close\<close> of
  \<open>src/file.c\<close>, which \<open>pentry_free\<close> calls).  The table owns its entries: GLib calls
  \<open>pentry_free\<close> on the value that is replaced or removed.  The lemmas show that each
  operation of the table keeps the invariant \<open>state_wf\<close>, and where the locking and the
  counting can block.
\<close>

section \<open>safe\_close\<close>

text \<open>Closing again while a signal interrupts.\<close>

definition safe_close_body :: "('w, 'm) env_scheme \<Rightarrow> int \<Rightarrow> unit \<Rightarrow> ('w, unit + int) dprog" where
  "safe_close_body E fd _ =
     seqM (ext (os_close E fd)) (\<lambda>err.
     case err of None \<Rightarrow> ret (Inr 0)
     | Some e \<Rightarrow> if e = EINTR then ret (Inl ()) else ret (Inr (- 1)))"

definition safe_close :: "('w, 'm) env_scheme \<Rightarrow> int \<Rightarrow> ('w, int) dprog" where
  "safe_close E fd = loopM (safe_close_body E fd) ()"

section \<open>Entries\<close>

definition new_pentry :: tpath_entry where
  "new_pentry = \<lparr>pe_fd = - 1, pe_path = None, pe_digest = None, pe_usermd = None,
     pe_md_mutex = False, pe_mutex = False, pe_refcount = 0, pe_flag = FLAG_DIRTY,
     pe_exclude = False, pe_filetype = None, pe_dirent = [], pe_ondisk = FILE_UNSET,
     pe_atime = None\<rparr>"

text \<open>
  The initialisation of the semaphore, of two attributes and of two mutexes: the first
  failure ends it.  The exit of a failed one hands \<open>pentry_free\<close> an entry whose descriptor
  has not been set.
\<close>

fun sync_inits :: "('w, 'm) env_scheme \<Rightarrow> nat \<Rightarrow> ('w, bool) dprog" where
  "sync_inits E 0 = ret True"
| "sync_inits E (Suc n) =
     seqM (ext (os_sync_init E)) (\<lambda>ok. if ok then sync_inits E n else ret False)"

definition pentry_new :: "('w, 'm) env_scheme \<Rightarrow> ('w, addr option) dprog" where
  "pentry_new E =
     seqM (ext (os_alloc E)) (\<lambda>ok.
     if \<not> ok then ret None
     else
       seqM (sync_inits E 5) (\<lambda>ok.
       if \<not> ok then crash UninitRead
       else
         seqM (getS fresh) (\<lambda>a.
         seqM (modS (\<lambda>s. s\<lparr>pes := (pes s)(a \<mapsto> new_pentry), fresh := Suc a\<rparr>)) (\<lambda>_.
         ret (Some a)))))"

definition pentry_free :: "('w, 'm) env_scheme \<Rightarrow> addr \<Rightarrow> ('w, unit) dprog" where
  "pentry_free E a =
     seqM (get_pe a) (\<lambda>pe.
     seqM (if - 1 \<noteq> pe_fd pe then safe_close E (pe_fd pe) else ret 0) (\<lambda>_.
     seqM (dict_free_opt (pe_usermd pe)) (\<lambda>_.
     modS (\<lambda>s. s\<lparr>pes := (pes s)(a := None)\<rparr>))))"

definition pentry_placeholder_to_str :: "placement \<Rightarrow> string" where
  "pentry_placeholder_to_str flag =
     (case flag of FILE_LOCAL \<Rightarrow> ''local'' | FILE_REMOTE \<Rightarrow> ''remote'' | FILE_UNSET \<Rightarrow> ''unset'')"

definition pentry_type_to_str :: "tpath_type \<Rightarrow> string" where
  "pentry_type_to_str type =
     (case type of FILE_REG \<Rightarrow> ''regular file'' | FILE_DIR \<Rightarrow> ''directory'' | FILE_SYMLINK \<Rightarrow> ''symlink'')"

definition pentry_remove_dirent :: "addr \<Rightarrow> string option \<Rightarrow> ('w, int) dprog" where
  "pentry_remove_dirent a path =
     seqM (get_pe a) (\<lambda>pe.
     case path of None \<Rightarrow> ret (- 1)
     | Some p \<Rightarrow>
         seqM (derefM UninitRead (pe_filetype pe)) (\<lambda>type.
         if type \<noteq> FILE_DIR then ret (- 1)
         else
           seqM (upd_pe a (\<lambda>pe. pe\<lparr>pe_dirent := dirent_remove p (pe_dirent pe)\<rparr>)) (\<lambda>_.
           ret 0)))"

definition pentry_add_dirent :: "('w, 'm) env_scheme \<Rightarrow> addr \<Rightarrow> string \<Rightarrow> ('w, unit) dprog" where
  "pentry_add_dirent E a path =
     seqM (get_pe a) (\<lambda>pe.
     seqM (ext (os_alloc E)) (\<lambda>ok.
     if \<not> ok then ret ()
     else upd_pe a (\<lambda>pe. pe\<lparr>pe_dirent := dirent_add path (pe_dirent pe)\<rparr>)))"

definition pentry_unlink_cache_file :: "('w, 'm) env_scheme \<Rightarrow> addr \<Rightarrow> ('w, unit) dprog" where
  "pentry_unlink_cache_file E a =
     seqM (get_pe a) (\<lambda>pe.
     case pe_path pe of None \<Rightarrow> ret ()
     | Some p \<Rightarrow>
         seqM (getS gconf) (\<lambda>conf.
         seqM (sptr_show (c_cache_dir conf)) (\<lambda>dir.
         seqM (ext (os_unlink E (fmt (dir @ ''/'' @ p)))) (\<lambda>_. ret ()))))"

section \<open>Counting and locking\<close>

definition SEM_VALUE_MAX :: nat where "SEM_VALUE_MAX = 2147483647"

text \<open>\<open>sem_post\<close> fails at the maximum, which is only logged; \<open>sem_wait\<close> blocks at zero.\<close>

definition pentry_inc_refcount :: "addr \<Rightarrow> ('w, unit) dprog" where
  "pentry_inc_refcount a =
     upd_pe a (\<lambda>pe. if pe_refcount pe < SEM_VALUE_MAX then pe\<lparr>pe_refcount := Suc (pe_refcount pe)\<rparr> else pe)"

definition pentry_dec_refcount :: "addr \<Rightarrow> ('w, unit) dprog" where
  "pentry_dec_refcount a =
     seqM (get_pe a) (\<lambda>pe.
     if pe_refcount pe = 0 then crash Blocked
     else upd_pe a (\<lambda>pe. pe\<lparr>pe_refcount := pe_refcount pe - 1\<rparr>))"

definition pentry_get_refcount :: "addr \<Rightarrow> ('w, nat) dprog" where
  "pentry_get_refcount a = seqM (get_pe a) (\<lambda>pe. ret (pe_refcount pe))"

text \<open>
  A mutex is a flag of the entry, given by its reader and its writer.  The mutexes are of
  the default kind: locking a held one blocks, unlocking always succeeds.
\<close>

definition pentry_gen_trylock ::
  "addr \<Rightarrow> (tpath_entry \<Rightarrow> bool) \<Rightarrow> (bool \<Rightarrow> tpath_entry \<Rightarrow> tpath_entry) \<Rightarrow> ('w, int) dprog" where
  "pentry_gen_trylock a held put =
     seqM (get_pe a) (\<lambda>pe.
     if held pe then ret EBUSY else seqM (upd_pe a (put True)) (\<lambda>_. ret 0))"

definition pentry_gen_lock ::
  "addr \<Rightarrow> (tpath_entry \<Rightarrow> bool) \<Rightarrow> (bool \<Rightarrow> tpath_entry \<Rightarrow> tpath_entry) \<Rightarrow> ('w, unit) dprog" where
  "pentry_gen_lock a held put =
     seqM (get_pe a) (\<lambda>pe. if held pe then crash Blocked else upd_pe a (put True))"

definition pentry_gen_unlock ::
  "addr \<Rightarrow> (bool \<Rightarrow> tpath_entry \<Rightarrow> tpath_entry) \<Rightarrow> ('w, unit) dprog" where
  "pentry_gen_unlock a put = upd_pe a (put False)"

definition pentry_trylock :: "addr \<Rightarrow> ('w, int) dprog" where
  "pentry_trylock a = pentry_gen_trylock a pe_mutex (\<lambda>b pe. pe\<lparr>pe_mutex := b\<rparr>)"

definition pentry_lock :: "addr \<Rightarrow> ('w, unit) dprog" where
  "pentry_lock a = pentry_gen_lock a pe_mutex (\<lambda>b pe. pe\<lparr>pe_mutex := b\<rparr>)"

definition pentry_unlock :: "addr \<Rightarrow> ('w, unit) dprog" where
  "pentry_unlock a = pentry_gen_unlock a (\<lambda>b pe. pe\<lparr>pe_mutex := b\<rparr>)"

definition pentry_md_trylock :: "addr \<Rightarrow> ('w, int) dprog" where
  "pentry_md_trylock a = pentry_gen_trylock a pe_md_mutex (\<lambda>b pe. pe\<lparr>pe_md_mutex := b\<rparr>)"

definition pentry_md_lock :: "addr \<Rightarrow> ('w, unit) dprog" where
  "pentry_md_lock a = pentry_gen_lock a pe_md_mutex (\<lambda>b pe. pe\<lparr>pe_md_mutex := b\<rparr>)"

definition pentry_md_unlock :: "addr \<Rightarrow> ('w, unit) dprog" where
  "pentry_md_unlock a = pentry_gen_unlock a (\<lambda>b pe. pe\<lparr>pe_md_mutex := b\<rparr>)"

section \<open>Fields\<close>

definition pentry_set_path :: "('w, 'm) env_scheme \<Rightarrow> addr \<Rightarrow> string option \<Rightarrow> ('w, unit) dprog" where
  "pentry_set_path E a path =
     seqM (get_pe a) (\<lambda>pe.
     case path of None \<Rightarrow> ret ()
     | Some p \<Rightarrow>
         seqM (ext (os_alloc E)) (\<lambda>ok.
         upd_pe a (\<lambda>pe. pe\<lparr>pe_path := (if ok then Some p else None)\<rparr>)))"

definition pentry_set_usermd ::
  "('w, 'm) env_scheme \<Rightarrow> addr \<Rightarrow> addr option \<Rightarrow> ('w, int) dprog" where
  "pentry_set_usermd E a dict =
     seqM (get_pe a) (\<lambda>pe.
     seqM (dict_free_opt (pe_usermd pe)) (\<lambda>_.
     seqM (dict_new E) (\<lambda>new.
     seqM (upd_pe a (\<lambda>pe. pe\<lparr>pe_usermd := new\<rparr>)) (\<lambda>_.
     case new of None \<Rightarrow> ret (- 1)
     | Some n \<Rightarrow>
         seqM (derefM NullDeref dict) (\<lambda>src.
         seqM (get_dict src) (\<lambda>d.
         seqM (dict_call (\<lambda>n. d_dict_copy E n d) n) (\<lambda>rc.
         ret (if rc = DPL_FAILURE then - 1 else 0))))))))"

text \<open>\<open>memcpy\<close> of the 16 bytes of the digest.\<close>

definition MD5_DIGEST_LENGTH :: nat where "MD5_DIGEST_LENGTH = 16"

definition pentry_set_digest :: "addr \<Rightarrow> string option \<Rightarrow> ('w, int) dprog" where
  "pentry_set_digest a digest =
     seqM (get_pe a) (\<lambda>pe.
     case digest of None \<Rightarrow> ret (- 1)
     | Some d \<Rightarrow>
         if length d < MD5_DIGEST_LENGTH then crash OutOfBounds
         else
           seqM (upd_pe a (\<lambda>pe. pe\<lparr>pe_digest := Some (take MD5_DIGEST_LENGTH d)\<rparr>)) (\<lambda>_. ret 0))"

section \<open>The table\<close>

text \<open>GLib's operations; \<open>g_str_hash\<close> reads its key.\<close>

definition hash_lookup :: "string option \<Rightarrow> ('w, addr option) dprog" where
  "hash_lookup key = seqM (derefM NullDeref key) (\<lambda>k. getS (\<lambda>s. ghash s k))"

definition hash_insert :: "('w, 'm) env_scheme \<Rightarrow> string \<Rightarrow> addr \<Rightarrow> ('w, unit) dprog" where
  "hash_insert E key a =
     seqM (getS (\<lambda>s. ghash s key)) (\<lambda>old.
     seqM (modS (\<lambda>s. s\<lparr>ghash := (ghash s)(key \<mapsto> a)\<rparr>)) (\<lambda>_.
     case old of None \<Rightarrow> ret () | Some b \<Rightarrow> pentry_free E b))"

definition hash_remove :: "('w, 'm) env_scheme \<Rightarrow> string \<Rightarrow> ('w, bool) dprog" where
  "hash_remove E key =
     seqM (getS (\<lambda>s. ghash s key)) (\<lambda>old.
     case old of None \<Rightarrow> ret False
     | Some a \<Rightarrow>
         seqM (modS (\<lambda>s. s\<lparr>ghash := (ghash s)(key := None)\<rparr>)) (\<lambda>_.
         seqM (pentry_free E a) (\<lambda>_. ret True)))"

text \<open>
  \<open>pentry_get_parent\<close> cuts its copy of the path at the last slash, but gives the lookup
  another variable, set only for a slash in the first place.
\<close>

definition pentry_get_parent :: "addr option \<Rightarrow> ('w, addr option) dprog" where
  "pentry_get_parent a =
     (case a of None \<Rightarrow> ret None
      | Some a \<Rightarrow>
          seqM (get_pe a) (\<lambda>pe.
          let path = fmt (cstr (pe_path pe)) in
          case strrchr path CHR ''/'' of None \<Rightarrow> ret None
          | Some i \<Rightarrow> hash_lookup (if i = 0 then Some ''/'' else None)))"

text \<open>
  The result and what \<open>*pep\<close> is set to: with the second \<open>strdup\<close> failed, an entry that has
  been released.
\<close>

definition populate_hash ::
  "('w, 'm) env_scheme \<Rightarrow> string \<Rightarrow> tpath_type \<Rightarrow> ('w, int \<times> addr option) dprog" where
  "populate_hash E path type =
     seqM (pentry_new E) (\<lambda>pe.
     case pe of None \<Rightarrow> ret (- 1, None)
     | Some a \<Rightarrow>
         seqM (upd_pe a (\<lambda>pe. pe\<lparr>pe_fd := - 1, pe_filetype := Some type\<rparr>)) (\<lambda>_.
         seqM (pentry_set_path E a (Some path)) (\<lambda>_.
         seqM (ext (os_alloc E)) (\<lambda>ok.
         if \<not> ok then seqM (pentry_free E a) (\<lambda>_. ret (- 1, Some a))
         else seqM (hash_insert E path a) (\<lambda>_. ret (0, Some a))))))"

section \<open>The operations keep the invariant\<close>

lemma worldly_safe_close [worldly_intro]: "worldly (safe_close E fd)"
  unfolding safe_close_def safe_close_body_def by (intro worldly_intro)

lemma worldly_retry [worldly_intro]: "worldly (retry E final call)"
  unfolding retry_def retry_body_def by (intro worldly_intro)

lemma worldly_retry_plain [worldly_intro]: "worldly (retry_plain E final call)"
  unfolding retry_plain_def by (intro worldly_intro)

lemma worldly_hash [worldly_intro]:
  "worldly (hash_lookup key)" "worldly (pentry_get_refcount a)" "worldly (pentry_get_parent p)"
  "worldly (pentry_unlink_cache_file E a)" "worldly (sync_inits E n)"
proof -
  show "worldly (hash_lookup key)" for key
    unfolding hash_lookup_def by (intro worldly_intro)
  then show "worldly (pentry_get_parent p)"
    unfolding pentry_get_parent_def by (intro worldly_intro)
  show "worldly (pentry_get_refcount a)" unfolding pentry_get_refcount_def by (intro worldly_intro)
  show "worldly (pentry_unlink_cache_file E a)"
    unfolding pentry_unlink_cache_file_def by (intro worldly_intro)
  show "worldly (sync_inits E n)"
  proof (induction n)
    case (Suc n)
    then show ?case unfolding sync_inits.simps by (intro worldly_intro)
  qed (unfold sync_inits.simps, intro worldly_intro)
qed

lemmas keeps_wf_calls [wf_intro] =
  worldly_safe_close [THEN keeps_wf_worldly] worldly_retry [THEN keeps_wf_worldly]
  worldly_retry_plain [THEN keeps_wf_worldly] worldly_hash [THEN keeps_wf_worldly]

lemma keeps_wf_locks [wf_intro]:
  "keeps (spare D) (pentry_trylock a)" "keeps (spare D) (pentry_lock a)" "keeps (spare D) (pentry_unlock a)"
  "keeps (spare D) (pentry_md_trylock a)" "keeps (spare D) (pentry_md_lock a)"
  "keeps (spare D) (pentry_md_unlock a)" "keeps (spare D) (pentry_inc_refcount a)"
  "keeps (spare D) (pentry_dec_refcount a)"
  unfolding pentry_trylock_def pentry_lock_def pentry_unlock_def pentry_md_trylock_def
    pentry_md_lock_def pentry_md_unlock_def pentry_gen_trylock_def pentry_gen_lock_def
    pentry_gen_unlock_def pentry_inc_refcount_def pentry_dec_refcount_def
  by (intro keeps_intro wf_intro worldly_intro keeps_wf_upd_pe; simp)+

lemma keeps_wf_fields [wf_intro]:
  "keeps (spare D) (pentry_remove_dirent a p)" "keeps (spare D) (pentry_add_dirent E a q)"
  "keeps (spare D) (pentry_set_digest a d)"
  unfolding pentry_remove_dirent_def pentry_add_dirent_def pentry_set_digest_def
  by (intro keeps_intro wf_intro worldly_intro keeps_wf_upd_pe; simp)+

text \<open>
  \<open>loose a s\<close>: the entry \<open>a\<close> is allocated, but not in the table; everything else is as the
  invariant asks.
\<close>

definition loose :: "addr \<Rightarrow> 'w gstate \<Rightarrow> bool" where
  "loose a s \<longleftrightarrow> inj_on (ghash s) (dom (ghash s)) \<and> ran (ghash s) = dom (pes s) - {a} \<and>
     a \<in> dom (pes s) \<and> path_wf s \<and> dict_wf s \<and> fresh_wf s"

lemma pentry_free_run:
  assumes "pentry_free E a s = Inr (u, s')"
  obtains pe w where "pes s a = Some pe" and "s' = s\<lparr>world := w,
      dicts := (case pe_usermd pe of None \<Rightarrow> dicts s | Some d \<Rightarrow> (dicts s)(d := None)),
      pes := (pes s)(a := None)\<rparr>"
proof -
  from assms obtain pe r s1 s2 where pe: "pes s a = Some pe"
    and c: "(if - 1 \<noteq> pe_fd pe then safe_close E (pe_fd pe) else ret 0) s = Inr (r, s1)"
    and d: "dict_free_opt (pe_usermd pe) s1 = Inr ((), s2)"
    and s': "s' = s2\<lparr>pes := (pes s2)(a := None)\<rparr>"
    by (auto simp: pentry_free_def get_pe_def split: option.splits elim!: seqM_Inr)
  have "worldly (if - 1 \<noteq> pe_fd pe then safe_close E (pe_fd pe) else ret 0)"
    by (intro worldly_intro)
  from worldlyD [OF this c] obtain w where s1: "s1 = s\<lparr>world := w\<rparr>" by blast
  from d have "s2 = s1\<lparr>dicts := (case pe_usermd pe of None \<Rightarrow> dicts s1 | Some d \<Rightarrow> (dicts s1)(d := None))\<rparr>"
    by (auto simp: dict_free_opt_def dict_free_def split: option.splits)
  then have "s2 = s\<lparr>world := w, dicts := (case pe_usermd pe of None \<Rightarrow> dicts s | Some d \<Rightarrow> (dicts s)(d := None))\<rparr>"
    by (simp add: s1 cong: option.case_cong)
  with s' that [OF pe, of w] show thesis by simp
qed

lemma pentry_free_loose:
  assumes "loose a s" "pentry_free E a s = Inr (u, s')"
  shows "state_wf s'"
proof -
  obtain pe w where pe: "pes s a = Some pe" and s': "s' = s\<lparr>world := w,
      dicts := (case pe_usermd pe of None \<Rightarrow> dicts s | Some d \<Rightarrow> (dicts s)(d := None)),
      pes := (pes s)(a := None)\<rparr>"
    using pentry_free_run [OF assms(2)] .
  have sub: "dom (dicts s') \<subseteq> dom (dicts s)"
    by (auto simp: s' split: option.splits if_splits)
  have own: "owns s' b d \<longleftrightarrow> b \<noteq> a \<and> owns s b d" for b d
    by (auto simp: owns_def s')
  have wf: "\<And>b d. owns s b d \<Longrightarrow> d \<in> dom (dicts s)"
    "\<And>b c d. owns s b d \<Longrightarrow> owns s c d \<Longrightarrow> b = c"
    using assms(1) unfolding loose_def dict_wf_def by blast+
  have keep: "d \<in> dom (dicts s')" if "owns s b d" "b \<noteq> a" for b d
  proof -
    have "pe_usermd pe \<noteq> Some d" using wf(2) [OF that(1), of a] that(2) pe by (auto simp: owns_def)
    then show ?thesis using wf(1) [OF that(1)] by (auto simp: s' split: option.split)
  qed
  have "dict_wf s'"
    unfolding dict_wf_def own using keep wf(2) by blast
  moreover have "hash_wf s'" "path_wf s'" "fresh_wf s'"
    using assms(1) sub unfolding loose_def hash_wf_def path_wf_def fresh_wf_def
    by (auto simp: s' subset_iff)
  ultimately show ?thesis by (simp add: state_wf_def)
qed

lemma ran_map_del:
  assumes "inj_on m (dom m)" "m k = Some a"
  shows "ran (m(k := None)) = ran m - {a}"
proof -
  have "(\<exists>j. j \<noteq> k \<and> m j = Some x) \<longleftrightarrow> (\<exists>j. m j = Some x) \<and> x \<noteq> a" for x
    using assms by (metis domI inj_onD option.inject)
  then show ?thesis by (auto simp: ran_def)
qed

lemma unlink_loose:
  assumes "state_wf s" "ghash s key = Some a"
  shows "loose a (s\<lparr>ghash := (ghash s)(key := None)\<rparr>)"
proof -
  have inj: "inj_on (ghash s) (dom (ghash s))" and ran: "ran (ghash s) = dom (pes s)"
    using assms(1) by (auto simp: state_wf_def hash_wf_def)
  have "ran ((ghash s)(key := None)) = ran (ghash s) - {a}"
    by (rule ran_map_del [OF inj assms(2)])
  moreover have "inj_on ((ghash s)(key := None)) (dom ((ghash s)(key := None)))"
    using inj by (auto simp: inj_on_def)
  moreover have "a \<in> dom (pes s)" using ran assms(2) by (auto simp: ran_def)
  ultimately show ?thesis
    using assms(1) ran
    by (auto simp: loose_def state_wf_def path_wf_def dict_wf_def fresh_wf_def owns_def)
qed

lemma keeps_state_hash_remove: "keeps state_wf (hash_remove E key)"
proof (rule keepsI)
  fix s r s'
  assume "state_wf s" "hash_remove E key s = Inr (r, s')"
  show "state_wf s'"
  proof (cases "ghash s key")
    case None
    with \<open>state_wf s\<close> \<open>hash_remove E key s = _\<close> show ?thesis
      by (auto simp: hash_remove_def seqM_apply)
  next
    case (Some a)
    with \<open>hash_remove E key s = _\<close>
    have "pentry_free E a (s\<lparr>ghash := (ghash s)(key := None)\<rparr>) = Inr ((), s')"
      by (auto simp: hash_remove_def seqM_apply split: sum.splits)
    with unlink_loose [OF \<open>state_wf s\<close> Some] show ?thesis by (rule pentry_free_loose)
  qed
qed

text \<open>A loose entry that knows its path enters the table; the one it replaces is loose then.\<close>

lemma hash_insert_wf:
  assumes "loose a s" "\<And>pe. pes s a = Some pe \<Longrightarrow> pe_path pe \<in> {None, Some key}"
    and ins: "hash_insert E key a s = Inr (u, s')"
  shows "state_wf s'"
proof -
  let ?s = "s\<lparr>ghash := (ghash s)(key \<mapsto> a)\<rparr>"
  have l: "inj_on (ghash s) (dom (ghash s))" "ran (ghash s) = dom (pes s) - {a}" "a \<in> dom (pes s)"
    using assms(1) by (auto simp: loose_def)
  have a: "ghash s k \<noteq> Some a" for k using l(2) by (auto simp: ran_def)
  have inj: "inj_on (ghash ?s) (dom (ghash ?s))"
    using l(1) a by (auto simp: inj_on_def dom_def)
  have rest: "path_wf ?s" "dict_wf ?s" "fresh_wf ?s"
    using assms(1,2) by (auto simp: loose_def path_wf_def dict_wf_def fresh_wf_def owns_def)
  show ?thesis
  proof (cases "ghash s key")
    case None
    then have "ran (ghash ?s) = dom (pes ?s)" using l(2,3) by (auto simp: ran_map_upd)
    with inj rest have "state_wf ?s" by (simp add: state_wf_def hash_wf_def)
    with None ins show ?thesis by (auto simp: hash_insert_def seqM_apply)
  next
    case (Some b)
    have b: "b \<in> dom (pes s)" "b \<noteq> a" using l(2) Some by (auto simp: ran_def)
    then have "ran (ghash ?s) = dom (pes ?s) - {b}"
      using l Some \<open>b \<noteq> a\<close> ran_map_upd_Some [OF Some l(1), of a] by auto
    then have "loose b ?s" using inj rest b by (simp add: loose_def)
    moreover have "pentry_free E b ?s = Inr (u, s')"
      using Some ins by (auto simp: hash_insert_def seqM_apply)
    ultimately show ?thesis by (rule pentry_free_loose)
  qed
qed

text \<open>Creating an entry.\<close>

lemma pentry_new_run:
  assumes "pentry_new E s = Inr (r, s')"
  obtains w where "r = None" "s' = s\<lparr>world := w\<rparr>"
  | w where "r = Some (fresh s)"
      "s' = s\<lparr>world := w, pes := (pes s)(fresh s \<mapsto> new_pentry), fresh := Suc (fresh s)\<rparr>"
proof -
  from assms obtain ok s1 where a: "ext (os_alloc E) s = Inr (ok, s1)"
    and k: "(if \<not> ok then ret None else seqM (sync_inits E 5) (\<lambda>ok. if \<not> ok then crash UninitRead
      else seqM (getS fresh) (\<lambda>a. seqM (modS (\<lambda>s. s\<lparr>pes := (pes s)(a \<mapsto> new_pentry), fresh := Suc a\<rparr>))
        (\<lambda>_. ret (Some a))))) s1 = Inr (r, s')"
    unfolding pentry_new_def by (rule seqM_Inr)
  have s1: "s1 = s\<lparr>world := world s1\<rparr>" by (rule worldlyD [of "ext (os_alloc E)", OF _ a]) (intro worldly_intro)
  show thesis
  proof (cases ok)
    case False
    with k s1 that(1) show thesis by auto
  next
    case True
    with k obtain ok2 s2 where b: "sync_inits E 5 s1 = Inr (ok2, s2)"
      and k2: "(if \<not> ok2 then crash UninitRead
      else seqM (getS fresh) (\<lambda>a. seqM (modS (\<lambda>s. s\<lparr>pes := (pes s)(a \<mapsto> new_pentry), fresh := Suc a\<rparr>))
        (\<lambda>_. ret (Some a)))) s2 = Inr (r, s')"
      by (auto elim: seqM_Inr)
    have "s2 = s1\<lparr>world := world s2\<rparr>" by (rule worldlyD [of "sync_inits E 5", OF _ b]) (intro worldly_intro)
    with s1 have s2: "s2 = s\<lparr>world := world s2\<rparr>" by (rule world_trans)
    define w where "w = world s2"
    with s2 have s2: "s2 = s\<lparr>world := w\<rparr>" by simp
    from k2 show thesis
      by (cases ok2) (auto simp: s2 seqM_apply intro: that(2))
  qed
qed

lemma pentry_new_loose:
  assumes "state_wf s" "pentry_new E s = Inr (Some a, s')"
  shows "loose a s'" "a = fresh s" "pes s' = (pes s)(a \<mapsto> new_pentry)" "ghash s' = ghash s" "dicts s' = dicts s"
proof -
  from pentry_new_run [OF assms(2)] obtain w where a: "a = fresh s" and
    s': "s' = s\<lparr>world := w, pes := (pes s)(fresh s \<mapsto> new_pentry), fresh := Suc (fresh s)\<rparr>"
    by (metis option.discI option.inject)
  have "fresh s \<notin> dom (pes s)" using assms(1) by (auto simp: state_wf_def fresh_wf_def)
  then show "loose a s'"
    using assms(1)
    by (auto simp: loose_def s' a state_wf_def hash_wf_def path_wf_def dict_wf_def fresh_wf_def
        owns_def new_pentry_def less_Suc_eq)
  show "a = fresh s" "pes s' = (pes s)(a \<mapsto> new_pentry)" "ghash s' = ghash s" "dicts s' = dicts s"
    by (simp_all add: a s')
qed

lemma loose_upd:
  assumes "loose a s" "upd_pe a f s = Inr (u, s')" "\<And>pe. pe_usermd (f pe) = pe_usermd pe"
  shows "loose a s'"
proof -
  from assms(2) obtain pe where pe: "pes s a = Some pe" and s': "s' = s\<lparr>pes := (pes s)(a \<mapsto> f pe)\<rparr>"
    by (auto simp: upd_pe_def split: option.splits)
  have "ghash s k \<noteq> Some a" for k using assms(1) by (auto simp: loose_def ran_def)
  moreover have "owns s' = owns s" using pe by (auto simp: owns_def fun_eq_iff s' assms(3))
  moreover have "insert a (dom (pes s)) = dom (pes s)" using pe by auto
  ultimately show ?thesis
    using assms(1) by (auto simp: loose_def path_wf_def dict_wf_def fresh_wf_def s')
qed

lemma loose_world [simp]: "loose a (s\<lparr>world := w\<rparr>) = loose a s"
  by (simp add: loose_def path_wf_def dict_wf_def fresh_wf_def owns_def)

text \<open>What \<open>populate_hash\<close> leaves behind.\<close>

definition entry_of :: "string \<Rightarrow> tpath_type \<Rightarrow> bool \<Rightarrow> tpath_entry" where
  "entry_of path type known =
     new_pentry\<lparr>pe_filetype := Some type, pe_path := (if known then Some path else None)\<rparr>"

lemma populate_hash_steps:
  assumes "populate_hash E path type s = Inr ((rc, p), s')"
  obtains w where "rc = - 1" "p = None" "s' = s\<lparr>world := w\<rparr>"
  | w known where "rc = - 1" "p = Some (fresh s)" "pentry_free E (fresh s)
      (s\<lparr>fresh := Suc (fresh s), pes := (pes s)(fresh s \<mapsto> entry_of path type known), world := w\<rparr>) = Inr ((), s')"
  | w known where "rc = 0" "p = Some (fresh s)" "hash_insert E path (fresh s)
      (s\<lparr>fresh := Suc (fresh s), pes := (pes s)(fresh s \<mapsto> entry_of path type known), world := w\<rparr>) = Inr ((), s')"
proof -
  from assms obtain r s1 where n: "pentry_new E s = Inr (r, s1)"
    and k: "(case r of None \<Rightarrow> ret (- 1, None) | Some a \<Rightarrow>
         seqM (upd_pe a (\<lambda>pe. pe\<lparr>pe_fd := - 1, pe_filetype := Some type\<rparr>)) (\<lambda>_.
         seqM (pentry_set_path E a (Some path)) (\<lambda>_.
         seqM (ext (os_alloc E)) (\<lambda>ok.
         if \<not> ok then seqM (pentry_free E a) (\<lambda>_. ret (- 1, Some a))
         else seqM (hash_insert E path a) (\<lambda>_. ret (0, Some a)))))) s1 = Inr ((rc, p), s')"
    unfolding populate_hash_def by (rule seqM_Inr)
  from n show thesis
  proof (cases rule: pentry_new_run)
    case (1 w)
    with k that(1) show thesis by auto
  next
    case (2 w)
    obtain ok1 w1 where o1: "os_alloc E w = (ok1, w1)" by fastforce
    obtain ok2 w2 where o2: "os_alloc E w1 = (ok2, w2)" by fastforce
    let ?s = "s\<lparr>fresh := Suc (fresh s), pes := (pes s)(fresh s \<mapsto> entry_of path type ok1), world := w2\<rparr>"
    have "(if \<not> ok2 then seqM (pentry_free E (fresh s)) (\<lambda>_. ret (- 1, Some (fresh s)))
        else seqM (hash_insert E path (fresh s)) (\<lambda>_. ret (0, Some (fresh s)))) ?s = Inr ((rc, p), s')"
      using k 2 o1 o2
      by (simp add: seqM_apply upd_pe_def get_pe_def pentry_set_path_def ext_def entry_of_def
          new_pentry_def split: if_splits)
    then show thesis
      by (cases ok2) (auto elim!: seqM_Inr intro: that(2,3))
  qed
qed

lemma loose_entry_of:
  assumes "state_wf s"
  shows "loose (fresh s) (s\<lparr>fresh := Suc (fresh s), pes := (pes s)(fresh s \<mapsto> entry_of path type known), world := w\<rparr>)"
proof -
  have "fresh s \<notin> dom (pes s)" using assms by (auto simp: state_wf_def fresh_wf_def)
  moreover from this have "ghash s k \<noteq> Some (fresh s)" for k
    using assms by (auto simp: state_wf_def hash_wf_def ran_def)
  ultimately show ?thesis
    using assms
    by (auto simp: loose_def state_wf_def hash_wf_def path_wf_def dict_wf_def fresh_wf_def
        owns_def entry_of_def new_pentry_def less_Suc_eq)
qed

lemma keeps_state_populate_hash: "keeps state_wf (populate_hash E path type)"
proof (rule keepsI)
  fix s r s'
  assume wf: "state_wf s" and run: "populate_hash E path type s = Inr (r, s')"
  obtain rc p where r: "r = (rc, p)" by fastforce
  from run [unfolded r] show "state_wf s'"
  proof (cases rule: populate_hash_steps)
    case 2
    show ?thesis by (rule pentry_free_loose [OF loose_entry_of [OF wf] 2(3)])
  next
    case 3
    show ?thesis
      by (rule hash_insert_wf [OF loose_entry_of [OF wf] _ 3(3)]) (simp add: entry_of_def)
  qed (simp add: wf)
qed

lemma populate_hash_run:
  assumes wf: "state_wf s" and "populate_hash E path type s = Inr ((rc, p), s')"
  shows "rc = 0 \<and> p = Some (fresh s) \<and> ghash s' = (ghash s)(path \<mapsto> fresh s) \<and>
       (\<exists>known. pes s' (fresh s) = Some (entry_of path type known)) \<and>
       (\<forall>a. a \<noteq> fresh s \<longrightarrow> ghash s path \<noteq> Some a \<longrightarrow> pes s' a = pes s a)
   \<or> rc = - 1 \<and> ghash s' = ghash s \<and> pes s' = pes s \<and> dicts s' = dicts s"
proof -
  have new: "fresh s \<notin> dom (pes s)" using wf by (auto simp: state_wf_def fresh_wf_def)
  from assms(2) show ?thesis
  proof (cases rule: populate_hash_steps)
    case (2 w known)
    from 2(3) show ?thesis
      by (cases rule: pentry_free_run) (use new 2 in \<open>auto simp: entry_of_def new_pentry_def fun_upd_idem\<close>)
  next
    case (3 w known)
    show ?thesis
    proof (cases "ghash s path")
      case None
      with 3 show ?thesis by (auto simp: hash_insert_def seqM_apply)
    next
      case (Some b)
      have b: "b \<noteq> fresh s" using wf new Some by (auto simp: state_wf_def hash_wf_def ran_def)
      from 3(3) Some have "pentry_free E b (s\<lparr>fresh := Suc (fresh s),
          pes := (pes s)(fresh s \<mapsto> entry_of path type known), world := w,
          ghash := (ghash s)(path \<mapsto> fresh s)\<rparr>) = Inr ((), s')"
        by (auto simp: hash_insert_def seqM_apply)
      then show ?thesis
        by (cases rule: pentry_free_run) (use b Some 3 in auto)
    qed
  qed simp
qed

lemma pentry_free_calm:
  assumes "pentry_free E a s = Inr (u, s')"
  shows "calm s s'"
  using assms by (cases rule: pentry_free_run) (auto simp: calm_def owns_def split: if_splits)

lemma calm_trans: "calm r s \<Longrightarrow> calm s t \<Longrightarrow> calm r t"
  unfolding calm_def by (meson le_trans)

lemma hash_insert_calm:
  assumes "hash_insert E key a s = Inr (u, s')"
  shows "calm s s'"
proof -
  have "calm s (s\<lparr>ghash := (ghash s)(key \<mapsto> a)\<rparr>)" by (auto simp: calm_def owns_def)
  with assms pentry_free_calm show ?thesis
    by (fastforce simp: hash_insert_def seqM_apply split: option.splits intro: calm_trans)
qed

lemma keeps_wf_hash_remove [wf_intro]: "keeps (spare D) (hash_remove E key)"
proof (rule keepsI)
  fix s r s'
  assume sp: "spare D s" and run: "hash_remove E key s = Inr (r, s')"
  have "state_wf s'"
    using keepsD [OF keeps_state_hash_remove _ run] sp by (simp add: spare_def)
  moreover have "calm s s'"
  proof (cases "ghash s key")
    case None
    with run show ?thesis by (auto simp: hash_remove_def seqM_apply intro: calm_same)
  next
    case (Some a)
    with run have "pentry_free E a (s\<lparr>ghash := (ghash s)(key := None)\<rparr>) = Inr ((), s')"
      by (auto simp: hash_remove_def seqM_apply split: sum.splits)
    moreover have "calm s (s\<lparr>ghash := (ghash s)(key := None)\<rparr>)" by (auto simp: calm_def owns_def)
    ultimately show ?thesis using pentry_free_calm calm_trans by blast
  qed
  ultimately show "spare D s'" by (rule spare_calm [OF sp])
qed

lemma keeps_wf_populate_hash [wf_intro]: "keeps (spare D) (populate_hash E path type)"
proof (rule keepsI)
  fix s r s'
  assume sp: "spare D s" and run: "populate_hash E path type s = Inr (r, s')"
  have wf: "state_wf s'"
    using keepsD [OF keeps_state_populate_hash _ run] sp by (simp add: spare_def)
  obtain rc p where r: "r = (rc, p)" by fastforce
  have entry: "calm s (s\<lparr>fresh := Suc (fresh s), pes := (pes s)(fresh s \<mapsto> entry_of path type known), world := w\<rparr>)"
    for known w by (auto simp: calm_def owns_def entry_of_def new_pentry_def)
  have "calm s s'"
    using run [unfolded r]
  proof (cases rule: populate_hash_steps)
    case 2
    show ?thesis by (rule calm_trans [OF entry pentry_free_calm [OF 2(3)]])
  next
    case 3
    show ?thesis by (rule calm_trans [OF entry hash_insert_calm [OF 3(3)]])
  qed (auto intro: calm_same simp: owns_def fun_eq_iff)
  with sp wf show "spare D s'" by (rule spare_calm)
qed

text \<open>The metadata of an entry are its own.\<close>

lemma keeps_wf_set_usermd [wf_intro]: "keeps (spare D) (pentry_set_usermd E a dict)"
proof (rule keepsI)
  fix s r s'
  assume sp: "spare D s" and run: "pentry_set_usermd E a dict s = Inr (r, s')"
  obtain pe where pe: "pes s a = Some pe"
    using run by (auto simp: pentry_set_usermd_def get_pe_def seqM_apply split: option.splits)
  have wf: "state_wf s" using sp by (simp add: spare_def)
  let ?free = "\<lambda>s. case pe_usermd pe of None \<Rightarrow> dicts s | Some d \<Rightarrow> (dicts s)(d := None)"
  obtain ok w where o: "os_alloc E (world s) = (ok, w)" by fastforce
  let ?new = "if ok then Some (fresh s) else None"
  let ?s = "if ok then s\<lparr>world := w, dicts := (?free s)(fresh s \<mapsto> Map.empty),
      fresh := Suc (fresh s), pes := (pes s)(a \<mapsto> pe\<lparr>pe_usermd := Some (fresh s)\<rparr>)\<rparr>
    else s\<lparr>dicts := ?free s, world := w, pes := (pes s)(a \<mapsto> pe\<lparr>pe_usermd := None\<rparr>)\<rparr>"
  have own: "owns ?s b d \<longleftrightarrow> (if b = a then ok \<and> d = fresh s else owns s b d)" for b d
    by (auto simp: owns_def)
  have "state_wf ?s"
  proof -
    have old: "\<And>b d. owns s b d \<Longrightarrow> d \<in> dom (dicts s) \<and> d < fresh s"
      "\<And>b c d. owns s b d \<Longrightarrow> owns s c d \<Longrightarrow> b = c"
      using wf by (auto simp: state_wf_def dict_wf_def fresh_wf_def)
    have mine: "pe_usermd pe = Some d \<longleftrightarrow> owns s a d" for d using pe by (auto simp: owns_def)
    have kept: "d \<in> dom (?free s)" if "owns s b d" "b \<noteq> a" for b d
      using old(1) [OF that(1)] old(2) [OF that(1), of a] that(2) mine
      by (auto split: option.splits)
    have "dict_wf ?s"
      unfolding dict_wf_def own using kept old by (auto split: if_splits dest: less_irrefl [THEN notE])
    moreover have "insert a (dom (pes s)) = dom (pes s)" using pe by auto
    then have "hash_wf ?s" using wf by (auto simp: state_wf_def hash_wf_def)
    moreover have "path_wf ?s" using wf pe by (auto simp: state_wf_def path_wf_def)
    moreover have "fresh_wf ?s"
      using wf pe by (auto simp: state_wf_def fresh_wf_def less_Suc_eq split: option.splits if_splits)
    ultimately show ?thesis by (simp add: state_wf_def)
  qed
  moreover have "calm s ?s" unfolding calm_def own by auto
  ultimately have wf': "spare D ?s" by (rule spare_calm [OF sp])
  define m where "m = (case ?new of None \<Rightarrow> ret (- 1 :: int) | Some n \<Rightarrow>
         seqM (derefM NullDeref dict) (\<lambda>src. seqM (get_dict src) (\<lambda>d.
         seqM (dict_call (\<lambda>n. d_dict_copy E n d) n) (\<lambda>rc.
         ret (if rc = DPL_FAILURE then - 1 else 0)))))"
  define s1 where "s1 = ?s"
  have rest: "m s1 = Inr (r, s')"
    using run pe o unfolding m_def s1_def
    by (auto simp: pentry_set_usermd_def get_pe_def dict_ops state_ops seqM_apply
        split: option.splits if_splits)
  have "keeps (spare D) m"
    unfolding m_def by (intro keeps_intro wf_intro worldly_intro)
  from this wf' [folded s1_def] rest show "spare D s'" by (rule keepsD)
qed

section \<open>The two mutexes of an entry\<close>

locale entry_mutex =
  fixes held :: "tpath_entry \<Rightarrow> bool" and put :: "bool \<Rightarrow> tpath_entry \<Rightarrow> tpath_entry"
  assumes held_put [simp]: "held (put b pe) = b"
    and put_put [simp]: "put b (put c pe) = put b pe"
    and put_held [simp]: "put (held pe) pe = pe"
begin

lemma lock_run:
  "pes s a = Some pe \<Longrightarrow> pentry_gen_lock a held put s =
     (if held pe then Inl Blocked else Inr ((), s\<lparr>pes := (pes s)(a \<mapsto> put True pe)\<rparr>))"
  by (simp add: pentry_gen_lock_def get_pe_def upd_pe_def seqM_apply)

lemma lock_unlock:
  assumes "pentry_gen_lock a held put s = Inr (u, s')"
  shows "pentry_gen_unlock a put s' = Inr ((), s)"
proof -
  from assms obtain pe where pe: "pes s a = Some pe"
    by (auto simp: pentry_gen_lock_def get_pe_def seqM_apply split: option.splits)
  with assms have "\<not> held pe" "s' = s\<lparr>pes := (pes s)(a \<mapsto> put True pe)\<rparr>"
    by (auto simp: lock_run split: if_splits)
  moreover from \<open>\<not> held pe\<close> have "put False pe = pe" by (metis put_held)
  ultimately show ?thesis
    using pe by (simp add: pentry_gen_unlock_def upd_pe_def fun_upd_idem)
qed

lemma lock_twice:
  assumes "pentry_gen_lock a held put s = Inr (u, s')"
  shows "pentry_gen_lock a held put s' = Inl Blocked"
proof -
  from assms obtain pe where "pes s a = Some pe"
    by (auto simp: pentry_gen_lock_def get_pe_def seqM_apply split: option.splits)
  with assms have "pes s' a = Some (put True pe)"
    by (auto simp: lock_run split: if_splits)
  then show ?thesis by (simp add: lock_run)
qed

lemma trylock_run:
  "pes s a = Some pe \<Longrightarrow> pentry_gen_trylock a held put s =
     (if held pe then Inr (EBUSY, s) else Inr (0, s\<lparr>pes := (pes s)(a \<mapsto> put True pe)\<rparr>))"
  by (simp add: pentry_gen_trylock_def get_pe_def upd_pe_def seqM_apply)

lemma unlock_run:
  "pes s a = Some pe \<Longrightarrow> pentry_gen_unlock a put s = Inr ((), s\<lparr>pes := (pes s)(a \<mapsto> put False pe)\<rparr>)"
  by (simp add: pentry_gen_unlock_def upd_pe_def)

end

interpretation mutex: entry_mutex pe_mutex "\<lambda>b pe. pe\<lparr>pe_mutex := b\<rparr>"
  by unfold_locales simp_all

interpretation md_mutex: entry_mutex pe_md_mutex "\<lambda>b pe. pe\<lparr>pe_md_mutex := b\<rparr>"
  by unfold_locales simp_all

lemmas lock_runs =
  mutex.lock_run [folded pentry_lock_def] mutex.unlock_run [folded pentry_unlock_def]
  mutex.trylock_run [folded pentry_trylock_def] md_mutex.lock_run [folded pentry_md_lock_def]
  md_mutex.unlock_run [folded pentry_md_unlock_def] md_mutex.trylock_run [folded pentry_md_trylock_def]

text \<open>Taking and giving back a reference.\<close>

lemma refcount_inverse:
  assumes "pes s a = Some pe" "pe_refcount pe < SEM_VALUE_MAX"
  shows "\<exists>s'. pentry_inc_refcount a s = Inr ((), s') \<and> pentry_dec_refcount a s' = Inr ((), s)"
  using assms
  by (simp add: pentry_inc_refcount_def pentry_dec_refcount_def get_pe_def upd_pe_def seqM_apply
      fun_upd_idem)

lemma dec_refcount_blocks:
  "pes s a = Some pe \<Longrightarrow> pe_refcount pe = 0 \<Longrightarrow> pentry_dec_refcount a s = Inl Blocked"
  by (simp add: pentry_dec_refcount_def get_pe_def seqM_apply)

section \<open>The parent of an entry\<close>

text \<open>
  Only an entry right below the root has its parent looked up; for a deeper one the name
  handed to the table is still null.
\<close>

lemma pentry_get_parent_run:
  assumes "pes s a = Some pe" "pe_path pe = Some (d @ CHR ''/'' # f)" "CHR ''/'' \<notin> set f"
    "length (d @ CHR ''/'' # f) < tmpstr_max"
  shows "pentry_get_parent (Some a) s =
     (if d = [] then Inr (ghash s ''/'', s) else Inl NullDeref)"
  using assms
  by (simp add: pentry_get_parent_def get_pe_def seqM_apply strrchr_split hash_lookup_def Let_def)

section \<open>Removing an entry\<close>

text \<open>\<open>close\<close> is not interrupted for ever.\<close>

definition closes :: "('w, 'm) env_scheme \<Rightarrow> bool" where
  "closes E \<longleftrightarrow> (\<forall>fd w. fst (os_close E fd w) \<noteq> Some EINTR)"

lemma safe_close_returns:
  assumes "closes E"
  shows "\<exists>r. safe_close E fd s = Inr (r, s\<lparr>world := snd (os_close E fd (world s))\<rparr>)"
proof -
  obtain e w where c: "os_close E fd (world s) = (e, w)" by (cases "os_close E fd (world s)")
  with assms have "e \<noteq> Some EINTR" by (metis closes_def fst_conv)
  with c show ?thesis
    by (cases e) (auto simp: safe_close_def loopM_unfold safe_close_body_def seqM_apply ext_apply)
qed

text \<open>The world after the descriptor of an entry was closed, the dictionaries without its own.\<close>

definition closed_fd :: "('w, 'm) env_scheme \<Rightarrow> tpath_entry \<Rightarrow> 'w \<Rightarrow> 'w" where
  "closed_fd E pe w = (if pe_fd pe = - 1 then w else snd (os_close E (pe_fd pe) w))"

definition disowned :: "tpath_entry \<Rightarrow> (addr \<rightharpoonup> dict) \<Rightarrow> (addr \<rightharpoonup> dict)" where
  "disowned pe ds = (case pe_usermd pe of None \<Rightarrow> ds | Some d \<Rightarrow> ds(d := None))"

lemma pentry_free_returns:
  assumes "closes E" "pes s a = Some pe" "\<And>d. pe_usermd pe = Some d \<Longrightarrow> dicts s d \<noteq> None"
  shows "pentry_free E a s = Inr ((), s\<lparr>world := closed_fd E pe (world s),
     dicts := disowned pe (dicts s), pes := (pes s)(a := None)\<rparr>)"
proof -
  obtain r where c: "safe_close E (pe_fd pe) s = Inr (r, s\<lparr>world := snd (os_close E (pe_fd pe) (world s))\<rparr>)"
    using safe_close_returns [OF assms(1)] by blast
  show ?thesis
  proof (cases "pe_usermd pe")
    case None
    with c assms(2) show ?thesis
      by (auto simp: pentry_free_def get_pe_def seqM_apply dict_free_opt_def closed_fd_def disowned_def)
  next
    case (Some d)
    with assms(3) obtain x where "dicts s d = Some x" by blast
    with Some c assms(2) show ?thesis
      by (auto simp: pentry_free_def get_pe_def seqM_apply dict_free_opt_def dict_free_def closed_fd_def
          disowned_def)
  qed
qed

lemma hash_remove_exact:
  assumes "closes E" "state_wf s" "ghash s path = Some a" "pes s a = Some pe"
  shows "hash_remove E path s = Inr (True, s\<lparr>ghash := (ghash s)(path := None), pes := (pes s)(a := None),
     dicts := disowned pe (dicts s), world := closed_fd E pe (world s)\<rparr>)"
proof -
  have d: "dicts s d \<noteq> None" if "pe_usermd pe = Some d" for d
    using assms(2,4) that by (auto simp: state_wf_def dict_wf_def owns_def dom_def)
  then show ?thesis
    using pentry_free_returns [OF assms(1), of "s\<lparr>ghash := (ghash s)(path := None)\<rparr>" a pe] assms(3,4)
    by (simp add: hash_remove_def seqM_apply)
qed

lemma hash_remove_returns:
  assumes "closes E" "state_wf s" "ghash s path = Some a"
  shows "\<exists>s'. hash_remove E path s = Inr (True, s') \<and> pes s' = (pes s)(a := None)
     \<and> ghash s' = (ghash s)(path := None) \<and> gconf s' = gconf s"
proof -
  from assms(2,3) obtain pe where "pes s a = Some pe"
    unfolding state_wf_def hash_wf_def by (metis domD ranI)
  from hash_remove_exact [OF assms this] show ?thesis by simp
qed

section \<open>The table as a map from paths to entries\<close>

text \<open>
  What the table promises: it is a map from paths to entries.  \<open>view\<close> is that map; in a
  well-formed state an address belongs to one path, so that a change at an address is a change
  at a path.
\<close>

definition view :: "'w gstate \<Rightarrow> string \<rightharpoonup> tpath_entry" where
  "view s p = (case ghash s p of None \<Rightarrow> None | Some a \<Rightarrow> pes s a)"

lemma view_inj:
  assumes "state_wf s" "ghash s p = Some a" "ghash s q = Some a"
  shows "p = q"
  using assms by (auto simp: state_wf_def hash_wf_def inj_on_def dom_def)

lemma view_defined: "state_wf s \<Longrightarrow> view s p = None \<longleftrightarrow> ghash s p = None"
proof (cases "ghash s p")
  case (Some a)
  assume "state_wf s"
  then have "ran (ghash s) = dom (pes s)" by (simp add: state_wf_def hash_wf_def)
  with ranI [of "ghash s", OF Some] have "a \<in> dom (pes s)" by simp
  with Some show ?thesis by (auto simp: view_def)
qed (simp add: view_def)

lemma view_removed:
  assumes "state_wf s" "ghash s path = Some a" "pes s' = (pes s)(a := None)"
    "ghash s' = (ghash s)(path := None)"
  shows "view s' = (view s)(path := None)"
proof
  fix q
  show "view s' q = ((view s)(path := None)) q"
  proof (cases "q = path")
    case False
    then have "ghash s q \<noteq> Some a" using view_inj [OF assms(1,2), of q] by blast
    with False assms(3,4) show ?thesis by (simp add: view_def split: option.split)
  qed (simp add: view_def assms(4))
qed

text \<open>
  C13. Taking a path out of the table is deletion in the map of entries, and releases what the
  entry owns and nothing else: its descriptor is closed, once and only if it has one, its metadata
  and the entry itself are released, the rest of the memory, the configuration and all other
  entries are as before, and the table stays well formed.  A path that is not there changes
  nothing.  It returns if \<open>close\<close> is not interrupted for ever.
\<close>

theorem hash_remove_refines:
  assumes "closes E" and "state_wf s"
  shows "\<exists>s'. hash_remove E path s = Inr (view s path \<noteq> None, s') \<and>
     view s' = (view s)(path := None) \<and> state_wf s' \<and>
     s' = (case view s path of None \<Rightarrow> s
       | Some pe \<Rightarrow> s\<lparr>ghash := (ghash s)(path := None), pes := (pes s)(the (ghash s path) := None),
           dicts := (case pe_usermd pe of None \<Rightarrow> dicts s | Some d \<Rightarrow> (dicts s)(d := None)),
           world := (if pe_fd pe = - 1 then world s else snd (os_close E (pe_fd pe) (world s)))\<rparr>)"
proof (cases "ghash s path")
  case None
  then have "hash_remove E path s = Inr (False, s)" "view s path = None"
    by (simp_all add: hash_remove_def seqM_apply view_def)
  with assms(2) show ?thesis by (simp add: fun_upd_idem)
next
  case (Some a)
  with view_defined [OF assms(2), of path] obtain pe where pe: "pes s a = Some pe"
    by (auto simp: view_def)
  define s' where "s' = s\<lparr>ghash := (ghash s)(path := None), pes := (pes s)(a := None),
    dicts := disowned pe (dicts s), world := closed_fd E pe (world s)\<rparr>"
  have run: "hash_remove E path s = Inr (True, s')"
    unfolding s'_def by (rule hash_remove_exact [OF assms Some pe])
  have "view s' = (view s)(path := None)"
    by (rule view_removed [OF assms(2) Some]) (simp_all add: s'_def)
  moreover have "view s path = Some pe" by (simp add: view_def Some pe)
  ultimately show ?thesis
    using run keepsD [OF keeps_state_hash_remove assms(2) run] Some
    by (simp add: s'_def closed_fd_def disowned_def)
qed

text \<open>
  C14. \<open>populate_hash\<close> is an update of the map of entries: when it reports success, the path has a
  fresh entry of the given type that knows its path if memory lasted, an older entry of the
  path is gone, and no other path changed; when it fails, the map is as before.
\<close>

theorem populate_hash_refines:
  assumes "state_wf s" and "populate_hash E path type s = Inr ((rc, p), s')"
  shows "state_wf s' \<and>
     (rc = 0 \<and> (\<exists>known. view s' = (view s)(path \<mapsto> entry_of path type known)) \<or>
      rc = - 1 \<and> view s' = view s)"
proof -
  have "state_wf s'" using keepsD [OF keeps_state_populate_hash assms] .
  moreover have "rc = 0 \<and> (\<exists>known. view s' = (view s)(path \<mapsto> entry_of path type known)) \<or>
      rc = - 1 \<and> view s' = view s"
    using populate_hash_run [OF assms]
  proof (elim disjE conjE exE)
    fix known
    assume *: "rc = 0" "p = Some (fresh s)" "ghash s' = (ghash s)(path \<mapsto> fresh s)"
      "pes s' (fresh s) = Some (entry_of path type known)"
      "\<forall>a. a \<noteq> fresh s \<longrightarrow> ghash s path \<noteq> Some a \<longrightarrow> pes s' a = pes s a"
    have "view s' q = ((view s)(path \<mapsto> entry_of path type known)) q" for q
    proof (cases "q = path")
      case False
      have "pes s' a = pes s a" if "ghash s q = Some a" for a
      proof -
        have "ghash s path \<noteq> Some a" using view_inj [OF assms(1) that] False by metis
        moreover have "a \<noteq> fresh s"
          using assms(1) that by (auto simp: state_wf_def hash_wf_def fresh_wf_def ran_def)
        ultimately show ?thesis using *(5) by blast
      qed
      with False *(3) show ?thesis by (simp add: view_def split: option.split)
    qed (simp add: view_def *(3,4))
    with *(1) show ?thesis by blast
  qed (simp add: view_def [abs_def] cong: option.case_cong)
  ultimately show ?thesis by blast
qed

section \<open>Properties\<close>

text \<open>
  The lock of an entry excludes: after \<open>pentry_lock\<close> has returned, a second one waits and
  \<open>pentry_trylock\<close> answers that the entry is busy, until \<open>pentry_unlock\<close>, which restores the
  entry exactly.
\<close>

theorem pentry_lock_excludes:
  assumes "pentry_lock a s = Inr (u, s')"
  shows "pentry_lock a s' = Inl Blocked \<and> pentry_trylock a s' = Inr (EBUSY, s') \<and>
     pentry_unlock a s' = Inr ((), s)"
proof -
  from assms obtain pe where "pes s a = Some pe"
    by (auto simp: pentry_lock_def pentry_gen_lock_def get_pe_def seqM_apply split: option.splits)
  with assms have "s' = s\<lparr>pes := (pes s)(a \<mapsto> pe\<lparr>pe_mutex := True\<rparr>)\<rparr>"
    by (auto simp: lock_runs split: if_splits)
  then have "pentry_trylock a s' = Inr (EBUSY, s')" by (simp add: lock_runs)
  then show ?thesis
    using mutex.lock_twice [folded pentry_lock_def, OF assms]
      mutex.lock_unlock [folded pentry_lock_def pentry_unlock_def, OF assms] by blast
qed

text \<open>
  The references of an entry are counted: below the limit of a semaphore, giving back the
  reference that was just taken restores the entry, and no reference can be given back that
  was not taken.
\<close>

theorem pentry_refcount_balanced:
  assumes "pes s a = Some pe" and "pe_refcount pe < SEM_VALUE_MAX"
  shows "(\<exists>s'. pentry_inc_refcount a s = Inr ((), s') \<and> pentry_get_refcount a s' = Inr (pe_refcount pe + 1, s') \<and>
       pentry_dec_refcount a s' = Inr ((), s)) \<and>
     (pe_refcount pe = 0 \<longrightarrow> pentry_dec_refcount a s = Inl Blocked)"
  using assms
  by (simp add: pentry_inc_refcount_def pentry_dec_refcount_def pentry_get_refcount_def get_pe_def
      upd_pe_def seqM_apply fun_upd_idem)

lemma sim_closes: "closes sim_env"
  by (simp add: closes_def sim_defs)

lemma hash_remove_refines_witness:
  "\<exists>s'. hash_remove sim_env ''/a'' sim_state = Inr (True, s') \<and> view s' ''/a'' = None \<and>
     pes s' 0 = None \<and> dicts s' 1 = None"
proof -
  have "view sim_state ''/a'' = Some sim_pe" "ghash sim_state ''/a'' = Some 0"
    "pe_usermd sim_pe = Some 1"
    by (simp_all add: view_def sim_state_def sim_pe_def)
  with hash_remove_refines [OF sim_closes sim_state_wf, of "''/a''"] show ?thesis by auto
qed

lemma sim_populate:
  "\<exists>s'. populate_hash sim_env ''/b'' FILE_DIR sim_state = Inr ((0, Some 2), s')"
  by (simp add: populate_hash_def pentry_new_def pentry_set_path_def hash_insert_def seqM_apply state_ops
      strdup_def sim_defs sim_state_def numeral_eq_Suc)

lemma populate_hash_refines_witness:
  "\<exists>s'. populate_hash sim_env ''/b'' FILE_DIR sim_state = Inr ((0, Some 2), s') \<and>
     view s' ''/a'' = Some sim_pe \<and> map_option pe_filetype (view s' ''/b'') = Some (Some FILE_DIR)"
proof -
  obtain s' where r: "populate_hash sim_env ''/b'' FILE_DIR sim_state = Inr ((0, Some 2), s')"
    using sim_populate by blast
  have "view sim_state ''/a'' = Some sim_pe" by (simp add: view_def sim_state_def)
  with r populate_hash_refines [OF sim_state_wf r] show ?thesis by (auto simp: entry_of_def)
qed

lemma pentry_lock_excludes_witness:
  "\<exists>s'. pentry_lock 0 sim_state = Inr ((), s') \<and> pentry_lock 0 s' = Inl Blocked"
proof -
  obtain s' where "pentry_lock 0 sim_state = Inr ((), s')"
    by (simp add: lock_runs sim_state_def sim_pe_def)
  with pentry_lock_excludes [OF this] show ?thesis by blast
qed

lemma pentry_refcount_balanced_witness: "pentry_dec_refcount 0 sim_state = Inl Blocked"
  using pentry_refcount_balanced [of sim_state 0 sim_pe]
  by (simp add: sim_state_def sim_pe_def SEM_VALUE_MAX_def)

end
