(* ===== verification/Zip.thy ===== *)
theory Zip
  imports Sim
begin

text \<open>
  The streaming compression of \<open>src/zip.c\<close>: \<open>zip\<close> and \<open>unzip\<close> read the source in chunks of
  16384 bytes, pass each to zlib until its output buffer is no longer full, and write what
  comes out.  zlib is a parameter; what it documents, for a stream that codes a text, is
  \<open>deflates\<close> and \<open>inflates\<close>, one step at a time.  The lemmas show that both loops end, what they
  have written when they report success, and that \<open>unzip\<close> gives back what \<open>zip\<close> was given.
\<close>

section \<open>The operations\<close>

definition Z_OK :: int where "Z_OK = 0"
definition Z_STREAM_END :: int where "Z_STREAM_END = 1"
definition Z_NEED_DICT :: int where "Z_NEED_DICT = 2"
definition Z_ERRNO :: int where "Z_ERRNO = - 1"
definition Z_STREAM_ERROR :: int where "Z_STREAM_ERROR = - 2"
definition Z_DATA_ERROR :: int where "Z_DATA_ERROR = - 3"
definition Z_MEM_ERROR :: int where "Z_MEM_ERROR = - 4"
definition Z_VERSION_ERROR :: int where "Z_VERSION_ERROR = - 6"

lemmas z_codes = Z_OK_def Z_STREAM_END_def Z_NEED_DICT_def Z_ERRNO_def Z_STREAM_ERROR_def
  Z_DATA_ERROR_def Z_MEM_ERROR_def Z_VERSION_ERROR_def

definition CHUNK :: nat where "CHUNK = 16384"

definition close_with :: "('w \<Rightarrow> 'w) \<Rightarrow> 'a \<Rightarrow> ('w, 'a) dprog" where
  "close_with f r = seqM (ext (\<lambda>w. ((), f w))) (\<lambda>_. ret r)"

text \<open>
  The inner loop of \<open>zip\<close>: its result is the return value of \<open>zip\<close> after a failed write,
  or the last code of \<open>deflate\<close> and the input it left.
\<close>

definition deflate_body ::
  "('w, 'm) env_scheme \<Rightarrow> nat \<Rightarrow> nat \<Rightarrow> bool \<Rightarrow> string \<Rightarrow> ('w, string + (int + int \<times> string)) dprog" where
  "deflate_body E strm dest flush inp =
     seqM (ext (z_deflate E strm inp flush CHUNK)) (\<lambda>(rc, out, left).
     if rc = Z_STREAM_ERROR then crash AssertFail
     else
       seqM (ext (os_fwrite E dest out)) (\<lambda>ok.
       if \<not> ok then close_with (z_deflateEnd E strm) (Inr (Inl Z_ERRNO))
       else if CHUNK \<le> length out then ret (Inl left)
       else ret (Inr (Inr (rc, left)))))"

definition zip_body ::
  "('w, 'm) env_scheme \<Rightarrow> nat \<Rightarrow> nat \<Rightarrow> nat \<Rightarrow> unit \<Rightarrow> ('w, unit + int) dprog" where
  "zip_body E strm source dest _ =
     seqM (ext (os_fread E source CHUNK)) (\<lambda>(inp, err, eof).
     if err then close_with (z_deflateEnd E strm) (Inr Z_ERRNO)
     else
       seqM (loopM (deflate_body E strm dest eof) inp) (\<lambda>r.
       case r of Inl rc \<Rightarrow> ret (Inr rc)
       | Inr (rc, left) \<Rightarrow>
           if left \<noteq> [] then crash AssertFail
           else if \<not> eof then ret (Inl ())
           else if rc \<noteq> Z_STREAM_END then crash AssertFail
           else close_with (z_deflateEnd E strm) (Inr Z_OK)))"

definition zip :: "('w, 'm) env_scheme \<Rightarrow> nat \<Rightarrow> nat \<Rightarrow> int \<Rightarrow> ('w, int) dprog" where
  "zip E source dest level =
     seqM (ext (z_deflateInit E level)) (\<lambda>(rc, strm).
     if rc \<noteq> Z_OK then ret rc else loopM (zip_body E strm source dest) ())"

text \<open>The loops of \<open>unzip\<close>, in the same way; the outer one carries the last code of \<open>inflate\<close>.\<close>

definition inflate_body ::
  "('w, 'm) env_scheme \<Rightarrow> nat \<Rightarrow> nat \<Rightarrow> string \<Rightarrow> ('w, string + (int + int)) dprog" where
  "inflate_body E strm dest inp =
     seqM (ext (z_inflate E strm inp CHUNK)) (\<lambda>(rc, out, left).
     if rc = Z_STREAM_ERROR then crash AssertFail
     else if rc = Z_NEED_DICT then close_with (z_inflateEnd E strm) (Inr (Inl Z_DATA_ERROR))
     else if rc = Z_DATA_ERROR \<or> rc = Z_MEM_ERROR then
       close_with (z_inflateEnd E strm) (Inr (Inl rc))
     else
       seqM (ext (os_fwrite E dest out)) (\<lambda>ok.
       if \<not> ok then close_with (z_inflateEnd E strm) (Inr (Inl Z_ERRNO))
       else if CHUNK \<le> length out then ret (Inl left)
       else ret (Inr (Inr rc))))"

definition unzip_end :: "('w, 'm) env_scheme \<Rightarrow> nat \<Rightarrow> int \<Rightarrow> ('w, int + int) dprog" where
  "unzip_end E strm rc =
     close_with (z_inflateEnd E strm) (Inr (if rc = Z_STREAM_END then Z_OK else Z_DATA_ERROR))"

definition unzip_body ::
  "('w, 'm) env_scheme \<Rightarrow> nat \<Rightarrow> nat \<Rightarrow> nat \<Rightarrow> int \<Rightarrow> ('w, int + int) dprog" where
  "unzip_body E strm source dest rc =
     seqM (ext (os_fread E source CHUNK)) (\<lambda>(inp, err, eof).
     if err then close_with (z_inflateEnd E strm) (Inr Z_ERRNO)
     else if inp = [] then unzip_end E strm rc
     else
       seqM (loopM (inflate_body E strm dest) inp) (\<lambda>r.
       case r of Inl rc \<Rightarrow> ret (Inr rc)
       | Inr rc \<Rightarrow> if rc \<noteq> Z_STREAM_END then ret (Inl rc) else unzip_end E strm rc))"

definition unzip :: "('w, 'm) env_scheme \<Rightarrow> nat \<Rightarrow> nat \<Rightarrow> ('w, int) dprog" where
  "unzip E source dest =
     seqM (ext (z_inflateInit E)) (\<lambda>(rc, strm).
     if rc \<noteq> Z_OK then ret rc else loopM (unzip_body E strm source dest) rc)"

definition zerr_to_str :: "int \<Rightarrow> ('s, string) prog" where
  "zerr_to_str rc =
     (if rc = Z_ERRNO then ret ''read/write error''
      else if rc = Z_STREAM_ERROR then ret ''invalid compression level''
      else if rc = Z_DATA_ERROR then ret ''invalid or incomplete deflate data''
      else if rc = Z_MEM_ERROR then ret ''out of memory''
      else if rc = Z_VERSION_ERROR then ret ''zlib version mismatch''
      else crash AssertFail)"

lemma worldly_zip [worldly_intro]: "worldly (zip E source dest level)" "worldly (unzip E source dest)"
  unfolding zip_def zip_body_def deflate_body_def unzip_def unzip_body_def inflate_body_def
    unzip_end_def close_with_def
  by (intro worldly_intro)+

lemmas keeps_wf_zip [wf_intro] = worldly_zip [THEN keeps_wf_worldly]

section \<open>What the streams hold\<close>

text \<open>
  The views of the outside world in which the properties are stated: what is left to read of
  the source (\<open>v_in\<close>), what the target has got (\<open>v_out\<close>), and of the stream of zlib what it has
  consumed and put out so far (\<open>v_fed\<close>, \<open>v_put\<close>), and whether it has been finished.
\<close>

record 'w zview =
  v_in :: "'w \<Rightarrow> string"
  v_out :: "'w \<Rightarrow> string"
  v_fed :: "'w \<Rightarrow> string"
  v_put :: "'w \<Rightarrow> string"
  v_end :: "'w \<Rightarrow> bool"

definition same_files :: "'w zview \<Rightarrow> 'w \<Rightarrow> 'w \<Rightarrow> bool" where
  "same_files V w w' \<longleftrightarrow> v_in V w' = v_in V w \<and> v_out V w' = v_out V w"

definition same_stream :: "'w zview \<Rightarrow> 'w \<Rightarrow> 'w \<Rightarrow> bool" where
  "same_stream V w w' \<longleftrightarrow> v_fed V w' = v_fed V w \<and> v_put V w' = v_put V w \<and> v_end V w' = v_end V w"

text \<open>
  \<open>fread\<close> and \<open>fwrite\<close>, which may fail: a read that is not short is not the end of the file,
  and a short one is.
\<close>

definition files :: "('w, 'm) env_scheme \<Rightarrow> nat \<Rightarrow> nat \<Rightarrow> 'w zview \<Rightarrow> bool" where
  "files E source dest V \<longleftrightarrow>
     (\<forall>w inp err eof w'. os_fread E source CHUNK w = ((inp, err, eof), w') \<longrightarrow>
        same_stream V w w' \<and> v_out V w' = v_out V w \<and>
        (\<not> err \<longrightarrow> v_in V w = inp @ v_in V w' \<and> (eof \<longleftrightarrow> length inp < CHUNK) \<and> (eof \<longrightarrow> v_in V w' = []))) \<and>
     (\<forall>out w ok w'. os_fwrite E dest out w = (ok, w') \<longrightarrow>
        same_stream V w w' \<and> v_in V w' = v_in V w \<and> (ok \<longrightarrow> v_out V w' = v_out V w @ out))"

lemma filesD:
  assumes "files E source dest V"
  shows "os_fread E source CHUNK w = ((inp, err, eof), w') \<Longrightarrow>
       same_stream V w w' \<and> v_out V w' = v_out V w \<and>
       (\<not> err \<longrightarrow> v_in V w = inp @ v_in V w' \<and> (eof \<longleftrightarrow> length inp < CHUNK) \<and> (eof \<longrightarrow> v_in V w' = []))"
    and "os_fwrite E dest out w = (ok, w') \<Longrightarrow>
       same_stream V w w' \<and> v_in V w' = v_in V w \<and> (ok \<longrightarrow> v_out V w' = v_out V w @ out)"
  using assms unfolding files_def by blast+

text \<open>
  \<open>deflate\<close>, for a codec \<open>enc\<close> whose output is bounded: it consumes some of the input and puts
  something out.  If there is room left in the buffer, it has consumed all, and once it was told
  that there is no more, what it has put out is the coded input; only then it is finished.
\<close>

definition deflate_step ::
  "(string \<Rightarrow> string) \<Rightarrow> (string \<Rightarrow> nat) \<Rightarrow> 'w zview \<Rightarrow> bool \<Rightarrow> string \<Rightarrow> 'w \<Rightarrow>
   int \<Rightarrow> string \<Rightarrow> string \<Rightarrow> 'w \<Rightarrow> bool" where
  "deflate_step enc bound V flush inp w rc out left w' \<longleftrightarrow>
     same_files V w w' \<and> rc \<noteq> Z_STREAM_ERROR \<and> v_fed V w' @ left = v_fed V w @ inp \<and>
     v_put V w' = v_put V w @ out \<and> length (v_put V w') \<le> bound (v_fed V w @ inp) \<and>
     (if length out < CHUNK
      then left = [] \<and> (if flush then rc = Z_STREAM_END \<and> v_put V w' = enc (v_fed V w') else \<not> v_end V w')
      else \<not> v_end V w')"

definition deflates ::
  "('w, 'm) env_scheme \<Rightarrow> (string \<Rightarrow> string) \<Rightarrow> (string \<Rightarrow> nat) \<Rightarrow> 'w zview \<Rightarrow> bool" where
  "deflates E enc bound V \<longleftrightarrow>
     (\<forall>level strm w w'. z_deflateInit E level w = ((Z_OK, strm), w') \<longrightarrow>
        same_files V w w' \<and> v_fed V w' = [] \<and> v_put V w' = [] \<and> \<not> v_end V w') \<and>
     (\<forall>strm inp flush w rc out left w'. \<not> v_end V w \<longrightarrow>
        z_deflate E strm inp flush CHUNK w = ((rc, out, left), w') \<longrightarrow>
        deflate_step enc bound V flush inp w rc out left w') \<and>
     (\<forall>strm w. same_files V w (z_deflateEnd E strm w))"

text \<open>
  \<open>inflate\<close>, on the coded text of \<open>d\<close>: what it puts out is the beginning of \<open>d\<close>.  It runs out
  of memory, or consumes its input as \<open>deflate\<close> does, and ends when all has been consumed and put
  out; \<open>coming\<close> is what follows the input.
\<close>

definition inflate_step ::
  "(string \<Rightarrow> string) \<Rightarrow> string \<Rightarrow> 'w zview \<Rightarrow> string \<Rightarrow> string \<Rightarrow> 'w \<Rightarrow> int \<Rightarrow> string \<Rightarrow> string \<Rightarrow> 'w \<Rightarrow> bool" where
  "inflate_step enc d V inp coming w rc out left w' \<longleftrightarrow> same_files V w w' \<and>
     (rc = Z_MEM_ERROR \<or>
      rc \<notin> {Z_STREAM_ERROR, Z_NEED_DICT, Z_DATA_ERROR} \<and>
      v_fed V w' @ left = v_fed V w @ inp \<and> v_put V w' = v_put V w @ out \<and>
      v_put V w' = take (length (v_put V w')) d \<and>
      (rc = Z_STREAM_END \<longrightarrow> v_fed V w' = enc d \<and> v_put V w' = d) \<and>
      (length out < CHUNK \<longrightarrow> left = [] \<and> (coming = [] \<longrightarrow> rc = Z_STREAM_END)))"

definition inflates ::
  "('w, 'm) env_scheme \<Rightarrow> (string \<Rightarrow> string) \<Rightarrow> string \<Rightarrow> 'w zview \<Rightarrow> bool" where
  "inflates E enc d V \<longleftrightarrow> enc d \<noteq> [] \<and>
     (\<forall>strm w w'. z_inflateInit E w = ((Z_OK, strm), w') \<longrightarrow>
        same_files V w w' \<and> v_fed V w' = [] \<and> v_put V w' = []) \<and>
     (\<forall>strm inp coming w rc out left w'. v_fed V w @ inp @ coming = enc d \<longrightarrow>
        v_put V w = take (length (v_put V w)) d \<longrightarrow>
        z_inflate E strm inp CHUNK w = ((rc, out, left), w') \<longrightarrow>
        inflate_step enc d V inp coming w rc out left w') \<and>
     (\<forall>strm w. same_files V w (z_inflateEnd E strm w))"

lemma deflatesD:
  assumes "deflates E enc bound V"
  shows "z_deflateInit E level w = ((Z_OK, strm), w') \<Longrightarrow>
       same_files V w w' \<and> v_fed V w' = [] \<and> v_put V w' = [] \<and> \<not> v_end V w'"
    and "\<not> v_end V w \<Longrightarrow> z_deflate E strm inp flush CHUNK w = ((rc, out, left), w') \<Longrightarrow>
       deflate_step enc bound V flush inp w rc out left w'"
    and "same_files V w (z_deflateEnd E strm w)"
  using assms unfolding deflates_def by blast+

lemma inflatesD:
  assumes "inflates E enc d V"
  shows "enc d \<noteq> []"
    and "z_inflateInit E w = ((Z_OK, strm), w') \<Longrightarrow> same_files V w w' \<and> v_fed V w' = [] \<and> v_put V w' = []"
    and "v_fed V w @ inp @ coming = enc d \<Longrightarrow> v_put V w = take (length (v_put V w)) d \<Longrightarrow>
       z_inflate E strm inp CHUNK w = ((rc, out, left), w') \<Longrightarrow> inflate_step enc d V inp coming w rc out left w'"
    and "same_files V w (z_inflateEnd E strm w)"
  using assms unfolding inflates_def by blast+

section \<open>Compressing\<close>

text \<open>The inner loop: \<open>F\<close> is all that the stream has been given with this input.\<close>

definition deflating :: "'w zview \<Rightarrow> string \<Rightarrow> string \<Rightarrow> string \<Rightarrow> string \<Rightarrow> 'w gstate \<Rightarrow> bool" where
  "deflating V D S F x s \<longleftrightarrow> \<not> v_end V (world s) \<and> v_fed V (world s) @ x = F \<and>
     v_out V (world s) = D @ v_put V (world s) \<and> v_in V (world s) = S"

definition deflated :: "(string \<Rightarrow> string) \<Rightarrow> 'w zview \<Rightarrow> string \<Rightarrow> string \<Rightarrow> string \<Rightarrow> bool \<Rightarrow>
    int + int \<times> string \<Rightarrow> 'w gstate \<Rightarrow> bool" where
  "deflated enc V D S F flush r s \<longleftrightarrow> (case r of Inl rc \<Rightarrow> rc = Z_ERRNO
     | Inr (rc, left) \<Rightarrow> left = [] \<and> v_fed V (world s) = F \<and> v_in V (world s) = S \<and>
         v_out V (world s) = D @ v_put V (world s) \<and>
         (if flush then rc = Z_STREAM_END \<and> v_put V (world s) = enc F else \<not> v_end V (world s)))"

lemma deflate_loop:
  fixes s :: "'w gstate"
  assumes c: "deflates E enc bound V" and f: "files E source dest V" and i: "deflating V D S F inp s"
  shows "\<exists>r s'. loopM (deflate_body E strm dest flush) inp s = Inr (r, s') \<and> deflated enc V D S F flush r s'"
proof -
  have "case loopM (deflate_body E strm dest flush) inp s of Inl f \<Rightarrow> False
    | Inr (r, s') \<Rightarrow> deflated enc V D S F flush r s'"
  proof (rule loopM_rule [where I = "deflating V D S F" and m = "\<lambda>_ t. bound F - length (v_put V (world t))"
        and F = "\<lambda>_. False" and Q = "deflated enc V D S F flush"])
    show "deflating V D S F inp s" by (rule i)
    fix x and t :: "'w gstate"
    assume I: "deflating V D S F x t"
    obtain rc out left w where z: "z_deflate E strm x flush CHUNK (world t) = ((rc, out, left), w)"
      by (metis prod.exhaust)
    obtain ok w' where o: "os_fwrite E dest out w = (ok, w')" by fastforce
    from I have "\<not> v_end V (world t)" by (simp add: deflating_def)
    note 1 = deflatesD(2) [OF c this z]
    note 2 = filesD(2) [OF f o]
    show "case deflate_body E strm dest flush x t of Inl f \<Rightarrow> False
      | Inr (Inl x', s') \<Rightarrow> deflating V D S F x' s' \<and>
          bound F - length (v_put V (world s')) < bound F - length (v_put V (world t))
      | Inr (Inr a, s') \<Rightarrow> deflated enc V D S F flush a s'"
      using I z o 1 2
      by (cases "length out < CHUNK")
         (auto simp: deflate_body_def seqM_apply ext_apply close_with_def deflated_def deflating_def
          deflate_step_def same_files_def same_stream_def CHUNK_def)
  qed
  then show ?thesis by (auto split: sum.splits)
qed


text \<open>The outer loop and \<open>zip\<close>: \<open>T\<close> is the whole source.\<close>

definition zipping :: "'w zview \<Rightarrow> string \<Rightarrow> string \<Rightarrow> unit \<Rightarrow> 'w gstate \<Rightarrow> bool" where
  "zipping V D T x s \<longleftrightarrow> \<not> v_end V (world s) \<and> v_fed V (world s) @ v_in V (world s) = T \<and>
     v_out V (world s) = D @ v_put V (world s)"

definition zipped :: "(string \<Rightarrow> string) \<Rightarrow> 'w zview \<Rightarrow> string \<Rightarrow> string \<Rightarrow> int \<Rightarrow> 'w gstate \<Rightarrow> bool" where
  "zipped enc V D T rc s \<longleftrightarrow> rc = Z_ERRNO \<or> rc = Z_OK \<and> v_out V (world s) = D @ enc T"

lemma zip_loop:
  fixes s :: "'w gstate"
  assumes c: "deflates E enc bound V" and f: "files E source dest V" and i: "zipping V D T () s"
  shows "\<exists>rc s'. loopM (zip_body E strm source dest) () s = Inr (rc, s') \<and> zipped enc V D T rc s'"
proof -
  have "case loopM (zip_body E strm source dest) () s of Inl f \<Rightarrow> False
    | Inr (rc, s') \<Rightarrow> zipped enc V D T rc s'"
  proof (rule loopM_rule [where I = "zipping V D T" and m = "\<lambda>_ t. length (v_in V (world t))"
        and F = "\<lambda>_. False" and Q = "zipped enc V D T"])
    show "zipping V D T () s" by (rule i)
    fix x and t :: "'w gstate"
    assume I: "zipping V D T x t"
    obtain inp err eof w where r: "os_fread E source CHUNK (world t) = ((inp, err, eof), w)"
      by (metis prod.exhaust)
    note 1 = filesD(1) [OF f r]
    show "case zip_body E strm source dest x t of Inl f \<Rightarrow> False
      | Inr (Inl x', s') \<Rightarrow> zipping V D T x' s' \<and> length (v_in V (world s')) < length (v_in V (world t))
      | Inr (Inr a, s') \<Rightarrow> zipped enc V D T a s'"
    proof (cases err)
      case True
      with r show ?thesis by (simp add: zip_body_def seqM_apply ext_apply close_with_def zipped_def)
    next
      case False
      let ?S = "v_in V w" and ?F = "v_fed V w @ inp"
      have "deflating V D ?S ?F inp (t\<lparr>world := w\<rparr>)"
        using I 1 by (simp add: deflating_def zipping_def same_stream_def)
      from deflate_loop [OF c f this, of strm eof] obtain q s1 where
        l: "loopM (deflate_body E strm dest eof) inp (t\<lparr>world := w\<rparr>) = Inr (q, s1)"
          "deflated enc V D ?S ?F eof q s1" by blast
      have T: "?F @ ?S = T" using I 1 False by (simp add: zipping_def same_stream_def)
      have len: "\<not> eof \<Longrightarrow> length ?S < length (v_in V (world t))" "eof \<Longrightarrow> ?S = []"
        using 1 False by (auto simp: CHUNK_def)
      have e: "same_files V (world s1) (z_deflateEnd E strm (world s1))" by (rule deflatesD(3) [OF c])
      show ?thesis
      proof (cases q)
        case (Inl rc)
        with r l False show ?thesis
          by (simp add: zip_body_def seqM_apply ext_apply zipped_def deflated_def)
      next
        case (Inr p)
        with r l False T len e show ?thesis
          by (cases p; cases eof)
             (auto simp: zip_body_def seqM_apply ext_apply close_with_def zipped_def zipping_def
              deflated_def same_files_def)
      qed
    qed
  qed
  then show ?thesis by (auto split: sum.splits)
qed

lemma zip_run:
  fixes s :: "'w gstate"
  assumes "deflates E enc bound V" "files E source dest V"
    and "z_deflateInit E level (world s) = ((rc, strm), w)"
  shows "\<exists>r s'. zip E source dest level s = Inr (r, s') \<and>
     (if rc \<noteq> Z_OK then r = rc else zipped enc V (v_out V (world s)) (v_in V (world s)) r s')"
proof (cases "rc = Z_OK")
  case True
  have "zipping V (v_out V (world s)) (v_in V (world s)) () (s\<lparr>world := w\<rparr>)"
    using deflatesD(1) [OF assms(1) assms(3) [unfolded True]] by (simp add: zipping_def same_files_def)
  from zip_loop [OF assms(1,2) this, of strm] assms(3) True show ?thesis
    by (simp add: zip_def seqM_apply ext_apply)
qed (use assms(3) in \<open>simp add: zip_def seqM_apply ext_apply\<close>)

section \<open>Expanding\<close>

definition inflating :: "(string \<Rightarrow> string) \<Rightarrow> 'w zview \<Rightarrow> string \<Rightarrow> string \<Rightarrow> string \<Rightarrow> string \<Rightarrow> 'w gstate \<Rightarrow> bool" where
  "inflating enc V D d S x s \<longleftrightarrow> v_fed V (world s) @ x @ S = enc d \<and> v_in V (world s) = S \<and>
     v_put V (world s) = take (length (v_put V (world s))) d \<and> v_out V (world s) = D @ v_put V (world s)"

definition inflated :: "(string \<Rightarrow> string) \<Rightarrow> 'w zview \<Rightarrow> string \<Rightarrow> string \<Rightarrow> string \<Rightarrow> int + int \<Rightarrow> 'w gstate \<Rightarrow> bool" where
  "inflated enc V D d S r s \<longleftrightarrow> (case r of Inl rc \<Rightarrow> rc \<in> {Z_ERRNO, Z_MEM_ERROR}
     | Inr rc \<Rightarrow> inflating enc V D d S [] s \<and> (if S = [] then rc = Z_STREAM_END \<and> v_put V (world s) = d
         else rc \<noteq> Z_STREAM_END))"

lemma inflate_loop:
  fixes s :: "'w gstate"
  assumes c: "inflates E enc d V" and f: "files E source dest V" and i: "inflating enc V D d S inp s"
  shows "\<exists>r s'. loopM (inflate_body E strm dest) inp s = Inr (r, s') \<and> inflated enc V D d S r s'"
proof -
  have "case loopM (inflate_body E strm dest) inp s of Inl f \<Rightarrow> False
    | Inr (r, s') \<Rightarrow> inflated enc V D d S r s'"
  proof (rule loopM_rule [where I = "inflating enc V D d S" and F = "\<lambda>_. False"
        and m = "\<lambda>_ t. length d - length (v_put V (world t))" and Q = "inflated enc V D d S"])
    show "inflating enc V D d S inp s" by (rule i)
    fix x and t :: "'w gstate"
    assume I: "inflating enc V D d S x t"
    obtain rc out left w where z: "z_inflate E strm x CHUNK (world t) = ((rc, out, left), w)"
      by (metis prod.exhaust)
    obtain ok w' where o: "os_fwrite E dest out w = (ok, w')" by fastforce
    from I have "v_fed V (world t) @ x @ S = enc d" "v_put V (world t) = take (length (v_put V (world t))) d"
      by (simp_all add: inflating_def)
    note 1 = inflatesD(3) [OF c this z]
    note 2 = filesD(2) [OF f o]
    show "case inflate_body E strm dest x t of Inl f \<Rightarrow> False
      | Inr (Inl x', s') \<Rightarrow> inflating enc V D d S x' s' \<and>
          length d - length (v_put V (world s')) < length d - length (v_put V (world t))
      | Inr (Inr a, s') \<Rightarrow> inflated enc V D d S a s'"
    proof (cases "rc = Z_MEM_ERROR")
      case True
      with z show ?thesis
        by (simp add: inflate_body_def seqM_apply ext_apply close_with_def inflated_def z_codes)
    next
      case False
      with 1 have 3: "same_files V (world t) w" "rc \<notin> {Z_STREAM_ERROR, Z_NEED_DICT, Z_DATA_ERROR}"
        "v_fed V w @ left = v_fed V (world t) @ x" "v_put V w = v_put V (world t) @ out"
        "v_put V w = take (length (v_put V w)) d" "rc = Z_STREAM_END \<Longrightarrow> v_fed V w = enc d \<and> v_put V w = d"
        "length out < CHUNK \<Longrightarrow> left = []" "length out < CHUNK \<Longrightarrow> S = [] \<Longrightarrow> rc = Z_STREAM_END"
        by (auto simp: inflate_step_def)
      have len: "length (v_put V (world t)) + length out \<le> length d"
        using arg_cong [OF 3(5), of length] 3(4) by simp
      have fed: "v_fed V w @ left @ S = enc d" using 3(3) I by (metis append.assoc inflating_def)
      then have last: "rc = Z_STREAM_END \<Longrightarrow> S = []" using 3(6) by auto
      have I': "ok \<Longrightarrow> inflating enc V D d S left (t\<lparr>world := w'\<rparr>)"
        using I 2 3 fed len by (simp add: inflating_def same_files_def same_stream_def min_absorb2)
      show ?thesis
      proof (cases "length out < CHUNK")
        case True
        with z o 3 False I' last 2 show ?thesis
          by (auto simp: inflate_body_def seqM_apply ext_apply close_with_def inflated_def same_stream_def)
      next
        case full: False
        with len have "length d - length (v_put V w) < length d - length (v_put V (world t))"
          using 3(4) by (simp add: CHUNK_def)
        with full z o 3 False I' 2 show ?thesis
          by (auto simp: inflate_body_def seqM_apply ext_apply close_with_def inflated_def same_stream_def)
      qed
    qed
  qed
  then show ?thesis by (auto split: sum.splits)
qed

definition unzipping :: "(string \<Rightarrow> string) \<Rightarrow> 'w zview \<Rightarrow> string \<Rightarrow> string \<Rightarrow> int \<Rightarrow> 'w gstate \<Rightarrow> bool" where
  "unzipping enc V D d rc s \<longleftrightarrow> v_in V (world s) \<noteq> [] \<and> inflating enc V D d (v_in V (world s)) [] s"

definition unzipped :: "'w zview \<Rightarrow> string \<Rightarrow> string \<Rightarrow> int \<Rightarrow> 'w gstate \<Rightarrow> bool" where
  "unzipped V D d rc s \<longleftrightarrow> rc \<in> {Z_ERRNO, Z_MEM_ERROR} \<or> rc = Z_OK \<and> v_out V (world s) = D @ d"

lemma unzip_loop:
  fixes s :: "'w gstate"
  assumes c: "inflates E enc d V" and f: "files E source dest V" and i: "unzipping enc V D d rc s"
  shows "\<exists>rc' s'. loopM (unzip_body E strm source dest) rc s = Inr (rc', s') \<and> unzipped V D d rc' s'"
proof -
  have "case loopM (unzip_body E strm source dest) rc s of Inl f \<Rightarrow> False
    | Inr (rc, s') \<Rightarrow> unzipped V D d rc s'"
  proof (rule loopM_rule [where I = "unzipping enc V D d" and m = "\<lambda>_ t. length (v_in V (world t))"
        and F = "\<lambda>_. False" and Q = "unzipped V D d"])
    show "unzipping enc V D d rc s" by (rule i)
    fix x and t :: "'w gstate"
    assume I: "unzipping enc V D d x t"
    obtain inp err eof w where r: "os_fread E source CHUNK (world t) = ((inp, err, eof), w)"
      by (metis prod.exhaust)
    note 1 = filesD(1) [OF f r]
    show "case unzip_body E strm source dest x t of Inl f \<Rightarrow> False
      | Inr (Inl x', s') \<Rightarrow> unzipping enc V D d x' s' \<and> length (v_in V (world s')) < length (v_in V (world t))
      | Inr (Inr a, s') \<Rightarrow> unzipped V D d a s'"
    proof (cases err)
      case True
      with r show ?thesis by (simp add: unzip_body_def seqM_apply ext_apply close_with_def unzipped_def)
    next
      case False
      let ?S = "v_in V w"
      have inp: "inp \<noteq> []" "length ?S < length (v_in V (world t))"
        using 1 False I by (auto simp: unzipping_def CHUNK_def)
      have "inflating enc V D d ?S inp (t\<lparr>world := w\<rparr>)"
        using I 1 False by (auto simp: inflating_def unzipping_def same_stream_def)
      from inflate_loop [OF c f this, of strm] obtain q s1 where
        l: "loopM (inflate_body E strm dest) inp (t\<lparr>world := w\<rparr>) = Inr (q, s1)"
          "inflated enc V D d ?S q s1" by blast
      have e: "same_files V (world s1) (z_inflateEnd E strm (world s1))" by (rule inflatesD(4) [OF c])
      show ?thesis
      proof (cases q)
        case (Inl rc)
        with r l False inp show ?thesis
          by (simp add: unzip_body_def seqM_apply ext_apply unzipped_def inflated_def)
      next
        case (Inr rc)
        with r l False inp e show ?thesis
          by (cases "?S = []")
             (auto simp: unzip_body_def seqM_apply ext_apply unzip_end_def close_with_def unzipped_def
              unzipping_def inflated_def inflating_def same_files_def)
      qed
    qed
  qed
  then show ?thesis by (auto split: sum.splits)
qed

lemma unzip_run:
  fixes s :: "'w gstate"
  assumes "inflates E enc d V" "files E source dest V" "v_in V (world s) = enc d"
    and "z_inflateInit E (world s) = ((rc, strm), w)"
  shows "\<exists>r s'. unzip E source dest s = Inr (r, s') \<and>
     (if rc \<noteq> Z_OK then r = rc else unzipped V (v_out V (world s)) d r s')"
proof (cases "rc = Z_OK")
  case True
  have "unzipping enc V (v_out V (world s)) d rc (s\<lparr>world := w\<rparr>)"
    using inflatesD(2) [OF assms(1) assms(4) [unfolded True]] inflatesD(1) [OF assms(1)] assms(3)
    by (simp add: unzipping_def inflating_def same_files_def)
  from unzip_loop [OF assms(1,2) this, of strm] assms(4) True show ?thesis
    by (simp add: unzip_def seqM_apply ext_apply)
qed (use assms(4) in \<open>simp add: unzip_def seqM_apply ext_apply\<close>)

section \<open>Properties\<close>

text \<open>
  C17. Compressing ends, and compresses: with a codec whose output is bounded, on files that are
  read and written as documented, \<open>zip\<close> returns whatever the files answer and no assertion
  of it fails; if it returns \<open>Z_OK\<close>, what it has written is exactly the coded text of all that
  was left of its source, however the two buffers cut the streams.
\<close>

theorem zip_complete:
  fixes s :: "'w gstate"
  assumes "deflates E enc bound V" and "files E source dest V"
  shows "\<exists>r s'. zip E source dest level s = Inr (r, s') \<and>
     (r = Z_OK \<longrightarrow> v_out V (world s') = v_out V (world s) @ enc (v_in V (world s)))"
proof -
  obtain rc strm w where "z_deflateInit E level (world s) = ((rc, strm), w)"
    by (metis prod.exhaust)
  from zip_run [OF assms this] show ?thesis
    by (auto simp: zipped_def z_codes split: if_splits)
qed

text \<open>
  C7. What \<open>zip\<close> has written, \<open>unzip\<close> turns into what \<open>zip\<close> has read: if compressing a file
  returned \<open>Z_OK\<close>, expanding what it wrote returns, never finds the data invalid, and if it
  returns \<open>Z_OK\<close> has written the bytes of the file, and nothing else.
\<close>

theorem zip_round_trip:
  fixes s t :: "'w gstate"
  assumes "deflates E enc bound V" and "files E source dest V"
    and "inflates E enc (v_in V (world s)) V'" and "files E source' dest' V'"
    and "zip E source dest level s = Inr (Z_OK, s')"
    and "v_out V (world s') = v_out V (world s) @ v_in V' (world t)"
    and "fst (fst (z_inflateInit E (world t))) = Z_OK"
  shows "\<exists>r t'. unzip E source' dest' t = Inr (r, t') \<and> r \<in> {Z_OK, Z_ERRNO, Z_MEM_ERROR} \<and>
     (r = Z_OK \<longrightarrow> v_out V' (world t') = v_out V' (world t) @ v_in V (world s))"
proof -
  obtain rc strm w where i: "z_deflateInit E level (world s) = ((rc, strm), w)"
    by (metis prod.exhaust)
  from zip_run [OF assms(1,2) i] assms(5,6) have z: "v_in V' (world t) = enc (v_in V (world s))"
    by (auto simp: zipped_def z_codes split: if_splits)
  obtain strm' w' where "z_inflateInit E (world t) = ((Z_OK, strm'), w')"
    using assms(7) by (metis prod.exhaust fst_conv)
  from unzip_run [OF assms(3,4) z this] show ?thesis by (auto simp: unzipped_def z_codes)
qed

definition sim_zview :: "sim zview" where
  "sim_zview = \<lparr>v_in = sim_unread, v_out = sim_out, v_fed = sim_zin,
     v_put = (\<lambda>w. sim_enc (sim_zin w) @ (if sim_zend w then [CHR 0x00] else [])), v_end = sim_zend\<rparr>"

definition sim_unview :: "sim zview" where
  "sim_unview = sim_zview\<lparr>v_put := (\<lambda>w. sim_dec (sim_zin w))\<rparr>"

definition sim_codec :: "string \<Rightarrow> string" where
  "sim_codec f = sim_enc f @ [CHR 0x00]"

lemma sim_files: "files sim_env source dest sim_zview" "files sim_env source dest sim_unview"
  by (auto simp: files_def sim_defs sim_unview_def sim_zview_def same_stream_def)

lemma sim_enc_append: "sim_enc (f @ g) = sim_enc f @ sim_enc g"
  by (simp add: sim_enc_def)

lemma sim_enc_length: "length (sim_enc f) = 2 * length f"
  by (induction f) (simp_all add: sim_enc_def)

lemma sim_enc_Nil [simp]: "sim_enc [] = []"
  by (simp add: sim_enc_def)

lemma sim_deflates: "deflates sim_env sim_codec (\<lambda>f. 2 * length f + 1) sim_zview"
  unfolding deflates_def deflate_step_def
  by (auto simp: sim_defs sim_deflate_def sim_zview_def same_files_def z_codes sim_enc_append sim_enc_length
      sim_codec_def CHUNK_def Let_def split: if_splits)

text \<open>The beginning of a coded text, decoded.\<close>

lemma sim_codec_Cons: "sim_codec (c # f) = CHR 0x01 # c # sim_codec f"
  by (simp add: sim_codec_def sim_enc_def)

lemma sim_dec_take: "sim_dec (take k (sim_codec f)) = take (k div 2) f"
proof (induction f arbitrary: k)
  case Nil
  show ?case by (cases k) (simp_all add: sim_codec_def sim_enc_def)
next
  case (Cons c f)
  consider "k = 0" | "k = 1" | j where "k = Suc (Suc j)" by (metis One_nat_def not0_implies_Suc)
  then show ?case by cases (simp_all add: sim_codec_Cons Cons.IH)
qed

lemma sim_codec_last:
  "odd k \<Longrightarrow> k \<le> length (sim_codec f) \<Longrightarrow>
   last (take k (sim_codec f)) = CHR 0x00 \<longleftrightarrow> k = length (sim_codec f)"
proof (induction f arbitrary: k)
  case Nil
  then have "k = 1" by (auto simp: sim_codec_def sim_enc_def le_Suc_eq)
  then show ?case by (simp add: sim_codec_def sim_enc_def)
next
  case (Cons c f)
  show ?case
  proof (cases "k = 1")
    case False
    with Cons.prems(1) obtain j where j: "k = Suc (Suc j)" "odd j" by (metis One_nat_def dvd_def even_Suc not0_implies_Suc even_zero)
    then have "take j (sim_codec f) \<noteq> []" using odd_pos [of j] by (auto simp: sim_codec_def)
    with j Cons show ?thesis by (simp add: sim_codec_Cons)
  qed (simp add: sim_codec_Cons)
qed


lemma sim_inflates: "inflates sim_env sim_codec d sim_unview"
  unfolding inflates_def
proof (intro conjI allI impI)
  fix strm inp coming w rc out left w'
  assume fed: "v_fed sim_unview w @ inp @ coming = sim_codec d"
    and "z_inflate sim_env strm inp CHUNK w = ((rc, out, left), w')"
  let ?z = "sim_zin w"
  define m where "m = 2 * CHUNK - length ?z mod 2"
  define z where "z = ?z @ take m inp"
  from \<open>z_inflate sim_env strm inp CHUNK w = _\<close>
  have r: "rc = (if odd (length z) \<and> last z = CHR 0x00 then 1 else 0)"
    "out = drop (length (sim_dec ?z)) (sim_dec z)" "left = drop m inp" "w' = w\<lparr>sim_zin := z\<rparr>"
    by (simp_all add: sim_defs sim_inflate_def z_def m_def Let_def)
  have c: "?z @ inp @ coming = sim_codec d" using fed by (simp add: sim_unview_def sim_zview_def)
  then have "?z = take (length ?z) (sim_codec d)" by (metis append_eq_conv_conj)
  then have dz: "sim_dec ?z = take (length ?z div 2) d" using sim_dec_take by metis
  have all: "z @ drop m inp @ coming = sim_codec d" using c by (simp add: z_def flip: append_assoc [of "take m inp"])
  then have pz: "z = take (length z) (sim_codec d)" by (metis append_eq_conv_conj)
  then have dd: "sim_dec z = take (length z div 2) d" using sim_dec_take by metis
  have lz: "length z \<le> length (sim_codec d)" using arg_cong [OF all, of length] by simp
  have le: "length ?z \<le> length z" by (simp add: z_def)
  have len: "length (sim_codec d) = 2 * length d + 1" by (simp add: sim_codec_def sim_enc_length)
  have split: "sim_dec z = sim_dec ?z @ out"
  proof -
    have "length ?z div 2 \<le> length z div 2" using le by (rule div_le_mono)
    then have "take (length ?z div 2) d = take (length ?z div 2) (sim_dec z)" by (simp add: dd min_def)
    then show ?thesis unfolding r(2) by (metis append_take_drop_id dz length_take take_take append_eq_conv_conj)
  qed
  have fin: "rc = 1 \<longleftrightarrow> length z = length (sim_codec d)"
    using sim_codec_last [of "length z" d] pz lz len unfolding r(1) by auto
  have full: "length out < CHUNK \<Longrightarrow> drop m inp = []"
  proof (rule ccontr)
    assume o: "length out < CHUNK" and "drop m inp \<noteq> []"
    then have "length z = length ?z + m" by (simp add: z_def)
    moreover have "length z < length (sim_codec d)"
      using arg_cong [OF all, of length] \<open>drop m inp \<noteq> []\<close> by (cases "drop m inp") auto
    ultimately have "length out = CHUNK"
      unfolding r(2) dd dz length_drop length_take using len by (simp add: m_def CHUNK_def) presburger
    with o show False by simp
  qed
  show "inflate_step sim_codec d sim_unview inp coming w rc out left w'"
    unfolding inflate_step_def
  proof (intro conjI disjI2 impI)
    show "same_files sim_unview w w'" by (simp add: same_files_def sim_unview_def sim_zview_def r(4))
    show "rc \<notin> {Z_STREAM_ERROR, Z_NEED_DICT, Z_DATA_ERROR}" by (simp add: r(1) z_codes)
    show "v_fed sim_unview w' @ left = v_fed sim_unview w @ inp"
      by (simp add: r sim_unview_def sim_zview_def z_def)
    show "v_put sim_unview w' = v_put sim_unview w @ out" using split by (simp add: r(4) sim_unview_def)
    show "v_put sim_unview w' = take (length (v_put sim_unview w')) d"
      by (simp add: r(4) sim_unview_def dd min_def)
    show "v_fed sim_unview w' = sim_codec d" if "rc = Z_STREAM_END"
      using that fin pz by (simp add: r(4) z_codes sim_unview_def sim_zview_def)
    show "v_put sim_unview w' = d" if "rc = Z_STREAM_END"
      using that fin len by (simp add: r(4) z_codes sim_unview_def dd)
    show "left = []" if "length out < CHUNK" using full [OF that] r(3) by simp
    show "rc = Z_STREAM_END" if "length out < CHUNK" "coming = []"
      using full [OF that(1)] that(2) all fin by (simp add: z_codes)
  qed
qed (simp_all add: sim_defs sim_unview_def sim_zview_def same_files_def sim_codec_def)

lemma sim_zip:
  "\<exists>s'. zip sim_env 1 2 3 sim_state = Inr (Z_OK, s') \<and> v_out sim_zview (world s') = sim_codec ''abcdef''"
proof -
  let ?f = "''abcdef''"
  let ?s = "sim_state\<lparr>world := sim_world\<lparr>sim_zin := [], sim_zend := False, sim_unread := []\<rparr>\<rparr>"
  let ?t = "sim_state\<lparr>world := sim_world\<lparr>sim_zin := ?f, sim_zend := True, sim_unread := [],
      sim_out := sim_codec ?f\<rparr>\<rparr>"
  have d: "sim_deflate ?f True CHUNK w = ((1, sim_codec ?f, []), w\<lparr>sim_zin := sim_zin w @ ?f, sim_zend := True\<rparr>)" for w
    by (simp add: sim_deflate_def CHUNK_def sim_codec_def Let_def)
  have l: "length (sim_codec ?f) < CHUNK" by (simp add: sim_codec_def sim_enc_length CHUNK_def)
  have inner: "loopM (deflate_body sim_env 1 2 True) ?f ?s = Inr (Inr (1, []), ?t)"
    using l by (subst loopM_unfold) (simp add: deflate_body_def seqM_apply ext_apply sim_defs d z_codes sim_world_def)
  have read: "os_fread sim_env 1 CHUNK (sim_world\<lparr>sim_zin := [], sim_zend := False\<rparr>) =
      ((?f, False, True), sim_world\<lparr>sim_zin := [], sim_zend := False, sim_unread := []\<rparr>)"
    by (simp add: sim_defs sim_world_def CHUNK_def)
  have init: "z_deflateInit sim_env 3 w = ((Z_OK, 1), w\<lparr>sim_zin := [], sim_zend := False\<rparr>)"
    "z_deflateEnd sim_env 1 w = w" "world sim_state = sim_world" for w
    by (simp_all add: sim_defs sim_state_def z_codes)
  have "zip_body sim_env 1 1 2 () (sim_state\<lparr>world := sim_world\<lparr>sim_zin := [], sim_zend := False\<rparr>\<rparr>) =
      Inr (Inr Z_OK, ?t)"
    using inner read
    by (simp add: zip_body_def close_with_def seqM_apply ext_apply init [unfolded One_nat_def] z_codes)
  then have "zip sim_env 1 2 3 sim_state = Inr (Z_OK, ?t)"
    by (simp add: zip_def seqM_apply ext_apply init [unfolded One_nat_def]
        loopM_unfold [of "zip_body sim_env 1 1 2", unfolded One_nat_def])
  then show ?thesis by (simp add: sim_zview_def)
qed

lemma sim_unzip:
  "\<exists>s'. unzip sim_env 3 4 (sim_state\<lparr>world := sim_world\<lparr>sim_unread := sim_codec ''abcdef''\<rparr>\<rparr>) = Inr (Z_OK, s')"
proof -
  let ?f = "''abcdef''"
  let ?w = "sim_world\<lparr>sim_unread := sim_codec ?f, sim_zin := []\<rparr>"
  let ?v = "?w\<lparr>sim_unread := []\<rparr>"
  let ?t = "sim_state\<lparr>world := ?v\<lparr>sim_zin := sim_codec ?f, sim_out := ?f\<rparr>\<rparr>"
  have l: "length (sim_codec ?f) = 13" "odd (length (sim_codec ?f))" "last (sim_codec ?f) = CHR 0x00"
    "sim_dec (sim_codec ?f) = ?f" "sim_codec ?f \<noteq> []"
    by (simp_all add: sim_codec_def sim_enc_def)
  have d: "sim_inflate (sim_codec ?f) CHUNK w = ((1, ?f, []), w\<lparr>sim_zin := sim_codec ?f\<rparr>)"
    if "sim_zin w = []" for w using that
    by (simp add: sim_inflate_def CHUNK_def Let_def l)
  have z: "z_inflate sim_env 1 = sim_inflate" "z_inflateEnd sim_env 1 w = w"
    "z_inflateInit sim_env w = ((Z_OK, 1), w\<lparr>sim_zin := []\<rparr>)"
    "os_fwrite sim_env 4 buf w = (True, w\<lparr>sim_out := sim_out w @ buf\<rparr>)" for w buf
    by (simp_all add: sim_defs z_codes)
  have w: "sim_out sim_world = []" "\<not> CHUNK \<le> Suc (Suc (Suc (Suc (Suc (Suc 0)))))" by (simp_all add: sim_world_def CHUNK_def)
  have read: "os_fread sim_env 3 CHUNK w = ((sim_codec ?f, False, True), w\<lparr>sim_unread := []\<rparr>)"
    if "sim_unread w = sim_codec ?f" for w using that
    by (simp add: sim_defs CHUNK_def l)
  have inner: "loopM (inflate_body sim_env 1 4) (sim_codec ?f) (sim_state\<lparr>world := ?v\<rparr>) = Inr (Inr 1, ?t)"
    by (subst loopM_unfold)
       (simp add: inflate_body_def seqM_apply ext_apply z [unfolded One_nat_def] d z_codes w)
  have "unzip_body sim_env 1 3 4 Z_OK (sim_state\<lparr>world := ?w\<rparr>) = Inr (Inr Z_OK, ?t)"
    using inner
    by (simp add: unzip_body_def unzip_end_def close_with_def seqM_apply ext_apply read l(5) z [unfolded One_nat_def]
        z_codes)
  then show ?thesis
    by (simp add: unzip_def seqM_apply ext_apply z [unfolded One_nat_def]
        loopM_unfold [of "unzip_body sim_env 1 3 4", unfolded One_nat_def])
qed

lemma zip_complete_witness:
  "\<exists>s'. zip sim_env 1 2 3 sim_state = Inr (Z_OK, s') \<and> sim_out (world s') = sim_codec ''abcdef''"
proof -
  obtain r s' where "zip sim_env 1 2 3 sim_state = Inr (r, s')"
    "r = Z_OK \<longrightarrow> sim_out (world s') = sim_codec ''abcdef''"
    using zip_complete [OF sim_deflates sim_files(1), of 1 2 3 sim_state]
    by (auto simp: sim_zview_def sim_state_def sim_world_def)
  with sim_zip show ?thesis by auto
qed

lemma zip_round_trip_witness:
  "\<exists>t'. unzip sim_env 3 4 (sim_state\<lparr>world := sim_world\<lparr>sim_unread := sim_codec ''abcdef''\<rparr>\<rparr>) = Inr (Z_OK, t') \<and>
     sim_out (world t') = ''abcdef''"
proof -
  obtain s' where s': "zip sim_env 1 2 3 sim_state = Inr (Z_OK, s')"
    "v_out sim_zview (world s') = sim_codec ''abcdef''" using sim_zip by blast
  obtain t' where "unzip sim_env 3 4 (sim_state\<lparr>world := sim_world\<lparr>sim_unread := sim_codec ''abcdef''\<rparr>\<rparr>) = Inr (Z_OK, t')"
    using sim_unzip by blast
  then show ?thesis
    using zip_round_trip [OF sim_deflates sim_files(1) sim_inflates sim_files(2) s'(1),
        of "sim_state\<lparr>world := sim_world\<lparr>sim_unread := sim_codec ''abcdef''\<rparr>\<rparr>" 3 4] s'(2)
    by (auto simp: sim_zview_def sim_unview_def sim_state_def sim_world_def sim_defs z_codes)
qed

end
