(* ===== verification/File.thy ===== *)
theory File
  imports Hash Zip
begin

text \<open>
  The local copies of \<open>src/file.c\<close>: writing and reading whole files, the digest of the
  cached copy, the download of a remote file into the cache.  The lemmas show what
  \<open>write_all\<close> writes, when a cached copy is used as it is, and that the encryption of a
  remote file is never recognised.
\<close>

section \<open>Writing and reading\<close>

text \<open>
  \<open>write_all\<close> runs on the outside world alone, because libdroplet calls it back: each round
  passes what is left.  The buffer has at least the length given, which is an \<open>int\<close>.
\<close>

definition wext :: "('w \<Rightarrow> 'a \<times> 'w) \<Rightarrow> ('w, 'a) prog" where
  "wext f w = Inr (f w)"

definition write_all_body ::
  "('w, 'm) env_scheme \<Rightarrow> int \<Rightarrow> string \<Rightarrow> ('w, string + int) prog" where
  "write_all_body E fd buf =
     seqM (wext (os_write E fd buf)) (\<lambda>cc.
     case cc of
       Inl e \<Rightarrow> if e = EINTR then ret (Inl buf) else ret (Inr (- 1))
     | Inr n \<Rightarrow> if drop n buf = [] then ret (Inr 0) else ret (Inl (drop n buf)))"

definition write_all :: "('w, 'm) env_scheme \<Rightarrow> int \<Rightarrow> string \<Rightarrow> ('w, int) prog" where
  "write_all E fd buf = loopM (write_all_body E fd) buf"

definition WRITE_BLOCK_SIZE :: nat where "WRITE_BLOCK_SIZE = 1000 * 1000"

definition read_write_body ::
  "('w, 'm) env_scheme \<Rightarrow> int \<Rightarrow> nat \<Rightarrow> unit \<Rightarrow> ('w, unit + int) dprog" where
  "read_write_body E fd vfile _ =
     seqM (ext (os_read E fd WRITE_BLOCK_SIZE)) (\<lambda>r.
     case r of
       Inl _ \<Rightarrow> ret (Inr (- 1))
     | Inr buf \<Rightarrow>
         if buf = [] then ret (Inr 0)
         else
           seqM (ext (d_write E vfile buf)) (\<lambda>rc.
           if rc \<noteq> DPL_SUCCESS then ret (Inr (- 1)) else ret (Inl ())))"

definition read_write_all_vfile :: "('w, 'm) env_scheme \<Rightarrow> int \<Rightarrow> nat \<Rightarrow> ('w, int) dprog" where
  "read_write_all_vfile E fd vfile = loopM (read_write_body E fd vfile) ()"

text \<open>The callback of \<open>dpl_openread\<close>: its \<open>arg\<close> holds the descriptor.\<close>

definition cb_get_buffered :: "('w, 'm) env_scheme \<Rightarrow> int \<Rightarrow> string \<Rightarrow> ('w, int) prog" where
  "cb_get_buffered E fd buf =
     seqM (write_all E fd buf) (\<lambda>r.
     if d_status_code E DPL_SUCCESS \<noteq> r then ret (- 1) else ret 0)"

definition ftype_to_str :: "dpl_ftype \<Rightarrow> string" where
  "ftype_to_str type = (case type of DPL_FTYPE_REG \<Rightarrow> ''regular file''
     | DPL_FTYPE_DIR \<Rightarrow> ''directory'' | DPL_FTYPE_OTHER \<Rightarrow> ''unknown'')"

definition flags_to_str :: "32 word \<Rightarrow> ('s, string) prog" where
  "flags_to_str flags =
     (if flags AND O_ACCMODE = O_RDONLY then ret ''read only''
      else if flags AND O_ACCMODE = O_WRONLY then ret ''write only''
      else if flags AND O_ACCMODE = O_RDWR then ret ''read/write''
      else crash AssertFail)"

section \<open>Headers and digests\<close>

text \<open>The result, and the dictionary \<open>*headersp\<close> is set to.\<close>

definition download_headers ::
  "('w, 'm) env_scheme \<Rightarrow> string \<Rightarrow> ('w, int \<times> addr option) dprog" where
  "download_headers E path =
     seqM (dfs_namei_timeout E path None) (\<lambda>(rc, type, key).
     if rc \<noteq> DPL_SUCCESS then ret (- 1, None)
     else
       seqM (dfs_head_all_timeout E key) (\<lambda>(rc, dict).
       if rc \<noteq> DPL_SUCCESS then ret (1, None)
       else
         case dict of None \<Rightarrow> ret (0, None)
         | Some d \<Rightarrow> seqM (own_dict d) (\<lambda>a. ret (0, Some a))))"

text \<open>\<open>memcmp\<close> and \<open>memcpy\<close> read 16 bytes of the header, its NUL included.\<close>

definition compare_digests :: "addr \<Rightarrow> addr option \<Rightarrow> ('w, int) dprog" where
  "compare_digests a dict =
     seqM (get_pe a) (\<lambda>pe.
     if FILE_LOCAL \<noteq> pe_ondisk pe then ret (- 1)
     else
       seqM (derefM NullDeref dict) (\<lambda>h.
       seqM (get_dict h) (\<lambda>d.
       case d ''etag'' of None \<Rightarrow> ret (- 1)
       | Some remote \<Rightarrow>
           seqM (derefM UninitRead (pe_digest pe)) (\<lambda>digest.
           let remote = remote @ [CHR 0x00] in
           if length remote < MD5_DIGEST_LENGTH then crash OutOfBounds
           else if digest = take MD5_DIGEST_LENGTH remote then ret 0
           else
             seqM (upd_pe a (\<lambda>pe. pe\<lparr>pe_digest := Some (take MD5_DIGEST_LENGTH remote)\<rparr>)) (\<lambda>_.
             ret (- 1))))))"

definition check_permissions :: "addr \<Rightarrow> addr \<Rightarrow> int" where
  "check_permissions a metadata = 0"

text \<open>
  The second \<open>goto end\<close> is not guarded by the \<open>if\<close> above it: what follows is never run.
\<close>

definition check_encryption_flag :: "('w, 'm) env_scheme \<Rightarrow> dict \<Rightarrow> 32 word" where
  "check_encryption_flag E metadata =
     (let ret' = 0 :: 32 word;
          cipher = metadata ''cipher'';
          cipher_type = metadata ''cipher-type''
      in case (cipher, cipher_type) of
           (Some c, Some t) \<Rightarrow>
             (let ret' = (if \<not> strncasecmp_eq c ''yes'' 3 then 0 else ret') in ret')
         | _ \<Rightarrow> 0)"

section \<open>Compression\<close>

definition close_streams ::
  "('w, 'm) env_scheme \<Rightarrow> nat option \<Rightarrow> nat option \<Rightarrow> 'a \<Rightarrow> ('w, 'a) dprog" where
  "close_streams E fpsrc fpdst r =
     seqM (case fpsrc of None \<Rightarrow> ret () | Some f \<Rightarrow> ext (\<lambda>w. ((), os_fclose E f w))) (\<lambda>_.
     seqM (case fpdst of None \<Rightarrow> ret () | Some f \<Rightarrow> ext (\<lambda>w. ((), os_fclose E f w))) (\<lambda>_.
     ret r))"

text \<open>
  The result, and the descriptor of \<open>get_data\<close>.  The part between the opening and the
  closing of the streams comes first.
\<close>

definition uncompress_local ::
  "('w, 'm) env_scheme \<Rightarrow> string \<Rightarrow> string \<Rightarrow> int \<Rightarrow> addr \<Rightarrow> nat \<Rightarrow> nat \<Rightarrow> ('w, int \<times> int) dprog" where
  "uncompress_local E uzlocal local fd metadata fpsrc fpdst =
     seqM (unzip E fpsrc fpdst) (\<lambda>zret.
     if Z_OK \<noteq> zret then ret (- 1, fd)
     else
       seqM (dict_call (\<lambda>d. d_dict_update E d ''compression'' ''none'') metadata) (\<lambda>rc.
       if rc \<noteq> DPL_SUCCESS then ret (- 1, fd)
       else
         seqM (ext (os_rename E uzlocal local)) (\<lambda>err.
         if err \<noteq> None then ret (1, fd)
         else
           seqM (safe_close E fd) (\<lambda>_.
           seqM (ext (os_open E local O_RDONLY 0)) (\<lambda>r.
           case r of Inl _ \<Rightarrow> ret (- 1, - 1) | Inr fd \<Rightarrow> ret (0, int fd))))))"

definition handle_compression ::
  "('w, 'm) env_scheme \<Rightarrow> string \<Rightarrow> string \<Rightarrow> int \<Rightarrow> addr \<Rightarrow> ('w, int \<times> int) dprog" where
  "handle_compression E remote local fd metadata =
     seqM (get_dict metadata) (\<lambda>d.
     case d ''compression'' of None \<Rightarrow> ret (0, fd)
     | Some compressed \<Rightarrow>
         if strncmp_eq compressed ''none'' 4 then ret (0, fd)
         else if \<not> strncmp_eq compressed ''zlib'' 4 then ret (- 1, fd)
         else
           let uzlocal = fmt (local @ ''.tmp'') in
           seqM (ext (os_fopen E local ''r'')) (\<lambda>r.
           case r of Inl _ \<Rightarrow> ret (- 1, fd)
           | Inr fpsrc \<Rightarrow>
               seqM (ext (os_fopen E uzlocal ''w'')) (\<lambda>r.
               case r of Inl _ \<Rightarrow> close_streams E (Some fpsrc) None (- 1, fd)
               | Inr fpdst \<Rightarrow>
                   seqM (uncompress_local E uzlocal local fd metadata fpsrc fpdst) (\<lambda>res.
                   close_streams E (Some fpsrc) (Some fpdst) res))))"

section \<open>The local copy\<close>

text \<open>The exit of \<open>dfs_get_local_copy\<close>.\<close>

definition copy_end :: "addr option \<Rightarrow> addr option \<Rightarrow> int \<Rightarrow> ('w, int) dprog" where
  "copy_end metadata headers fd =
     seqM (dict_free_opt metadata) (\<lambda>_. seqM (dict_free_opt headers) (\<lambda>_. ret fd))"

text \<open>What follows a download: expand the copy, close it, open it as the caller asked.\<close>

definition fetch_end ::
  "('w, 'm) env_scheme \<Rightarrow> string \<Rightarrow> string \<Rightarrow> 32 word \<Rightarrow> addr option \<Rightarrow> int \<Rightarrow> addr \<Rightarrow> ('w, int) dprog" where
  "fetch_end E remote local flags headers fd metadata =
     seqM (handle_compression E remote local fd metadata) (\<lambda>(r, fd).
     if r = - 1 then copy_end (Some metadata) headers (- 1)
     else
       seqM (safe_close E fd) (\<lambda>c.
       if c = - 1 then copy_end (Some metadata) headers (- 1)
       else
         seqM (ext (os_open E local flags 0x180)) (\<lambda>r.
         case r of Inl _ \<Rightarrow> copy_end (Some metadata) headers (- 1)
         | Inr f \<Rightarrow> copy_end (Some metadata) headers (int f))))"

text \<open>
  \<open>dpl_openread\<close> stores the metadata it received in the caller's variable.
\<close>

definition fetch ::
  "('w, 'm) env_scheme \<Rightarrow> string \<Rightarrow> string \<Rightarrow> 32 word \<Rightarrow> addr option \<Rightarrow> int \<Rightarrow> addr \<Rightarrow> ('w, int) dprog" where
  "fetch E remote local flags headers fd metadata =
     seqM (get_dict metadata) (\<lambda>md.
     seqM (case md ''mode'' of None \<Rightarrow> ret None
           | Some m \<Rightarrow> ext (os_fchmod E fd (ucast (strtoul m)))) (\<lambda>err.
     if err \<noteq> None then seqM (safe_close E fd) (\<lambda>_. copy_end (Some metadata) headers (- 1))
     else
       let encryption = check_encryption_flag E md in
       seqM (ext_prog (d_openread E remote encryption (cb_get_buffered E fd))) (\<lambda>(rc, got).
       case got of
         None \<Rightarrow>
           if rc \<noteq> DPL_SUCCESS then seqM (safe_close E fd) (\<lambda>_. copy_end (Some metadata) headers (- 1))
           else fetch_end E remote local flags headers fd metadata
       | Some d \<Rightarrow>
           seqM (own_dict d) (\<lambda>metadata.
           if rc \<noteq> DPL_SUCCESS then seqM (safe_close E fd) (\<lambda>_. copy_end (Some metadata) headers (- 1))
           else fetch_end E remote local flags headers fd metadata))))"

definition dfs_get_local_copy ::
  "('w, 'm) env_scheme \<Rightarrow> addr \<Rightarrow> string \<Rightarrow> 32 word \<Rightarrow> ('w, int) dprog" where
  "dfs_get_local_copy E a remote flags =
     seqM (getS gconf) (\<lambda>conf.
     seqM (sptr_show (c_cache_dir conf)) (\<lambda>dir.
     let local = fmt (dir @ remote) in
     seqM (download_headers E remote) (\<lambda>(r, headers).
     if r = - 1 then copy_end None headers (- 1)
     else
       seqM (dict_new E) (\<lambda>new.
       case new of None \<Rightarrow> copy_end None headers (- 1)
       | Some metadata \<Rightarrow>
           seqM (case headers of None \<Rightarrow> ret None | Some h \<Rightarrow> seqM (get_dict h) (\<lambda>d. ret (Some d))) (\<lambda>hd.
           seqM (dict_call (d_metadata_from_headers E hd) metadata) (\<lambda>rc.
           if rc = DPL_FAILURE then copy_end (Some metadata) headers (- 1)
           else
             seqM (pentry_md_lock a) (\<lambda>_.
             seqM (pentry_set_usermd E a (Some metadata)) (\<lambda>r.
             seqM (pentry_md_unlock a) (\<lambda>_.
             if r = - 1 then copy_end (Some metadata) headers (- 1)
             else if check_permissions a metadata = - 1 then copy_end (Some metadata) headers (- 1)
             else
               seqM (compare_digests a headers) (\<lambda>r.
               if r = 0 then seqM (get_pe a) (\<lambda>pe. copy_end (Some metadata) headers (pe_fd pe))
               else
                 seqM (ext (os_access E local)) (\<lambda>err.
                 seqM (if err = None then ext (os_unlink E local) else ret None) (\<lambda>_.
                 seqM (ext (os_open E local (O_RDWR OR O_CREAT OR O_TRUNC) 0x1A4)) (\<lambda>r.
                 case r of Inl _ \<Rightarrow> copy_end (Some metadata) headers (- 1)
                 | Inr fd \<Rightarrow> fetch E remote local flags headers (int fd) metadata)))))))))))))"

section \<open>The invariant\<close>

lemma worldly_timeouts [worldly_intro]:
  "worldly (dfs_getattr_timeout E p)" "worldly (dfs_getattr_all_headers_timeout E p)"
  "worldly (dfs_setattr_timeout E p md)" "worldly (dfs_mknod_timeout E p)"
  "worldly (dfs_mkdir_timeout E p)" "worldly (dfs_unlink_timeout E p)" "worldly (dfs_rmdir_timeout E p)"
  "worldly (dfs_fcopy_timeout E p q)" "worldly (dfs_chdir_timeout E p)"
  "worldly (dfs_opendir_timeout E p)" "worldly (dfs_namei_timeout E p i)"
  "worldly (dfs_head_all_timeout E p)"
  unfolding timeout_defs by (intro worldly_intro)+

lemma worldly_file [worldly_intro]:
  "worldly (read_write_all_vfile E fd vfile)" "worldly (close_streams E f g r)"
  unfolding read_write_all_vfile_def read_write_body_def close_streams_def by (intro worldly_intro)+

lemmas keeps_wf_file [wf_intro] =
  worldly_timeouts [THEN keeps_wf_worldly] worldly_file [THEN keeps_wf_worldly]

lemma download_headers_gives: "gives D (download_headers E path) (\<lambda>(r, p). set_option p)"
  unfolding download_headers_def
  by (intro gives_worldly worldly_intro gives_branch gives_ret gives_own) simp_all

lemma keeps_wf_copy_end:
  "set_option m \<subseteq> D \<Longrightarrow> set_option h \<subseteq> D \<Longrightarrow> keeps (spare D) (copy_end m h fd)"
  unfolding copy_end_def by (intro keeps_intro keeps_wf_dict_free_opt)

lemma keeps_wf_handle_compression [wf_intro]: "keeps (spare D) (handle_compression E remote local fd md)"
  unfolding handle_compression_def uncompress_local_def
  by (intro keeps_intro wf_intro)

lemma keeps_wf_compare_digests [wf_intro]: "keeps (spare D) (compare_digests a h)"
  unfolding compare_digests_def
  by (intro keeps_intro wf_intro keeps_wf_upd_pe) simp_all

lemma keeps_wf_fetch_end:
  "m \<in> D \<Longrightarrow> set_option h \<subseteq> D \<Longrightarrow> keeps (spare D) (fetch_end E remote local flags h fd m)"
  unfolding fetch_end_def
  by (intro keeps_intro wf_intro keeps_wf_copy_end) auto

lemma keeps_wf_fetch:
  "m \<in> D \<Longrightarrow> set_option h \<subseteq> D \<Longrightarrow> keeps (spare D) (fetch E remote local flags h fd m)"
  unfolding fetch_def Let_def
  by (intro keeps_wf_own_dict keeps_intro keeps_wf_fetch_end keeps_wf_copy_end
        wf_intro) auto

lemma keeps_wf_get_local_copy [wf_intro]: "keeps (spare D) (dfs_get_local_copy E a remote flags)"
  unfolding dfs_get_local_copy_def Let_def
  by (intro keeps_gives [OF download_headers_gives] keeps_wf_dict_new keeps_intro wf_intro
        keeps_wf_fetch keeps_wf_copy_end) auto

section \<open>What is written and sent\<close>

text \<open>
  What \<open>write(2)\<close> documents, for a descriptor whose written bytes are \<open>content\<close>: it appends
  a prefix of the buffer, or fails and appends nothing; \<open>progresses\<close>: it does not return
  0 for a buffer that is not empty, nor fail.
\<close>

definition appends :: "('w, 'm) env_scheme \<Rightarrow> int \<Rightarrow> ('w \<Rightarrow> string) \<Rightarrow> bool" where
  "appends E fd content \<longleftrightarrow> (\<forall>buf w. case os_write E fd buf w of
     (Inl e, w') \<Rightarrow> content w' = content w
   | (Inr n, w') \<Rightarrow> n \<le> length buf \<and> content w' = content w @ take n buf)"

definition progresses :: "('w, 'm) env_scheme \<Rightarrow> int \<Rightarrow> bool" where
  "progresses E fd \<longleftrightarrow> (\<forall>buf w. \<exists>n w'. os_write E fd buf w = (Inr n, w') \<and> (buf = [] \<or> 0 < n))"

text \<open>The same while \<open>P\<close> holds of the world, which writing does not change.\<close>

definition appends_on ::
  "('w, 'm) env_scheme \<Rightarrow> int \<Rightarrow> ('w \<Rightarrow> bool) \<Rightarrow> ('w \<Rightarrow> string) \<Rightarrow> bool" where
  "appends_on E fd P content \<longleftrightarrow> (\<forall>buf w. P w \<longrightarrow> (case os_write E fd buf w of
     (Inl e, w') \<Rightarrow> P w' \<and> content w' = content w
   | (Inr n, w') \<Rightarrow> P w' \<and> n \<le> length buf \<and> content w' = content w @ take n buf))"

lemma appends_onD:
  assumes "appends_on E fd P content" "P w" "os_write E fd buf w = (res, w')"
  shows "P w' \<and> (case res of Inl e \<Rightarrow> content w' = content w
    | Inr n \<Rightarrow> n \<le> length buf \<and> content w' = content w @ take n buf)"
  using assms(1) [unfolded appends_on_def, THEN spec, THEN spec, of w buf] assms(2,3)
  by (simp split: sum.splits)

lemma appends_on_always: "appends E fd content \<longleftrightarrow> appends_on E fd (\<lambda>_. True) content"
  by (simp add: appends_def appends_on_def cong: prod.case_cong sum.case_cong)

lemma write_all_content_on:
  assumes "appends_on E fd P content" "P w" "write_all E fd buf w = Inr (r, w')"
  shows "P w' \<and> (r = 0 \<and> content w' = content w @ buf \<or> r = - 1 \<and> (\<exists>n. content w' = content w @ take n buf))"
  using assms(3) unfolding write_all_def
proof (rule loopM_partial [where I = "\<lambda>x v. P v \<and> content v @ x = content w @ buf \<and> (\<exists>n. content v = content w @ take n buf)"])
  show "P w \<and> content w @ buf = content w @ buf \<and> (\<exists>n. content w = content w @ take n buf)"
    using assms(2) by (auto intro: exI [of _ 0])
next
  fix x v r v'
  assume I: "P v \<and> content v @ x = content w @ buf \<and> (\<exists>n. content v = content w @ take n buf)"
    and run: "write_all_body E fd x v = Inr (r, v')"
  obtain res u where o: "os_write E fd x v = (res, u)" by fastforce
  from I have "P v" by blast
  from appends_onD [OF assms(1) this o] have c: "P u" "case res of Inl e \<Rightarrow> content u = content v
    | Inr n \<Rightarrow> n \<le> length x \<and> content u = content v @ take n x" by blast+
  show "case r of Inl x' \<Rightarrow> P v' \<and> content v' @ x' = content w @ buf \<and> (\<exists>n. content v' = content w @ take n buf)
      | Inr r \<Rightarrow> P v' \<and> (r = 0 \<and> content v' = content w @ buf \<or> r = - 1 \<and> (\<exists>n. content v' = content w @ take n buf))"
  proof (cases res)
    case (Inl e)
    with run o c I show ?thesis
      by (auto simp: write_all_body_def wext_def seqM_apply split: if_splits)
  next
    case (Inr n)
    with c have n: "n \<le> length x" "content u = content v @ take n x" by auto
    then have split: "content u @ drop n x = content w @ buf" using I by simp
    from I obtain m where m: "content v = content w @ take m buf" by blast
    with I have "buf = take m buf @ x" by simp
    then have "take (length (take m buf) + n) buf = take m buf @ take n x"
      by (metis append_take_drop_id same_append_eq take_add append_eq_conv_conj)
    with m n have "\<exists>m. content u = content w @ take m buf" by (metis append_assoc)
    then show ?thesis
      using run o Inr split c(1) by (auto simp: write_all_body_def wext_def seqM_apply split: if_splits)
  qed
qed

lemma write_all_content:
  assumes "appends E fd content" "write_all E fd buf w = Inr (r, w')"
  shows "r = 0 \<and> content w' = content w @ buf \<or> r = - 1 \<and> (\<exists>n. content w' = content w @ take n buf)"
  using write_all_content_on [of E fd "\<lambda>_. True" content w buf r w'] assms by (simp add: appends_on_always)

lemma write_all_total:
  assumes "progresses E fd"
  shows "\<exists>r w'. write_all E fd buf w = Inr (r, w')"
proof -
  have "case loopM (write_all_body E fd) buf w of Inl f \<Rightarrow> False | Inr (a, w') \<Rightarrow> True"
  proof (rule loopM_rule [where I = "\<lambda>_ _. True" and m = "\<lambda>x _. length x" and F = "\<lambda>_. False" and Q = "\<lambda>_ _. True"])
    fix x v
    obtain n v' where "os_write E fd x v = (Inr n, v')" "x = [] \<or> 0 < n"
      using assms unfolding progresses_def by blast
    then show "case write_all_body E fd x v of Inl f \<Rightarrow> False
       | Inr (Inl x', s') \<Rightarrow> True \<and> length x' < length x | Inr (Inr a, s') \<Rightarrow> True"
      by (auto simp: write_all_body_def wext_def seqM_apply)
  qed simp
  then show ?thesis by (auto simp: write_all_def split: sum.splits)
qed

text \<open>A \<open>write\<close> that keeps returning 0 is tried for ever.\<close>

lemma loopM_diverges:
  assumes "\<And>x s. I x s \<Longrightarrow> \<exists>x' s'. body x s = Inr (Inl x', s') \<and> I x' s'" "I x s"
  shows "loopM body x s = Inl Diverges"
proof -
  have "while_option loop_running (loop_step body) (Running x s) = None"
  proof (rule ccontr)
    assume "while_option loop_running (loop_step body) (Running x s) \<noteq> None"
    then obtain t where t: "while_option loop_running (loop_step body) (Running x s) = Some t" by blast
    have "case t of Running x s \<Rightarrow> I x s | Finished r \<Rightarrow> False"
      by (rule while_option_rule [OF _ t, where P = "\<lambda>t. case t of Running x s \<Rightarrow> I x s | Finished r \<Rightarrow> False"])
         (use assms in \<open>fastforce split: loop_state.splits\<close>)+
    with while_loop_finished [OF t] show False by auto
  qed
  then show ?thesis by (simp add: loopM_def)
qed

text \<open>
  A descriptor on which \<open>write\<close> keeps answering 0 makes \<open>write_all\<close> run for ever: it gives up
  only on an error.
\<close>

theorem write_all_stuck:
  assumes "\<And>v. os_write E fd buf v = (Inr 0, v)" "buf \<noteq> []"
  shows "write_all E fd buf w = Inl Diverges"
  unfolding write_all_def
  by (rule loopM_diverges [where I = "\<lambda>x _. x = buf"])
     (use assms in \<open>auto simp: write_all_body_def wext_def seqM_apply\<close>)

text \<open>
  Sending a file: \<open>left\<close> is what is unread of the descriptor, \<open>sent\<close> what the cloud has.
\<close>

definition reads :: "('w, 'm) env_scheme \<Rightarrow> int \<Rightarrow> ('w \<Rightarrow> string) \<Rightarrow> ('w \<Rightarrow> string) \<Rightarrow> bool" where
  "reads E fd left sent \<longleftrightarrow> (\<forall>n w. case os_read E fd n w of
     (Inl e, w') \<Rightarrow> sent w' = sent w
   | (Inr buf, w') \<Rightarrow> left w = buf @ left w' \<and> (buf = [] \<longrightarrow> n = 0 \<or> left w = []) \<and> sent w' = sent w)"

definition sends :: "('w, 'm) env_scheme \<Rightarrow> nat \<Rightarrow> ('w \<Rightarrow> string) \<Rightarrow> ('w \<Rightarrow> string) \<Rightarrow> bool" where
  "sends E vfile left sent \<longleftrightarrow> (\<forall>buf w. case d_write E vfile buf w of
     (rc, w') \<Rightarrow> left w' = left w \<and> (rc = DPL_SUCCESS \<longrightarrow> sent w' = sent w @ buf))"

lemma read_write_all_content:
  assumes r: "reads E fd left sent" and s: "sends E vfile left sent"
    and run: "read_write_all_vfile E fd vfile st = Inr (0, st')"
  shows "sent (world st') = sent (world st) @ left (world st)"
proof -
  let ?all = "sent (world st) @ left (world st)"
  have "(0 :: int) = 0 \<longrightarrow> sent (world st') = ?all"
    using run unfolding read_write_all_vfile_def
  proof (rule loopM_partial [where I = "\<lambda>_ t. sent (world t) @ left (world t) = ?all" and
        Q = "\<lambda>a t. a = 0 \<longrightarrow> sent (world t) = ?all"])
    fix x t q t'
    assume I: "sent (world t) @ left (world t) = ?all" and b: "read_write_body E fd vfile x t = Inr (q, t')"
    obtain res u where o: "os_read E fd WRITE_BLOCK_SIZE (world t) = (res, u)" by fastforce
    have c: "case res of Inl e \<Rightarrow> sent u = sent (world t)
       | Inr buf \<Rightarrow> left (world t) = buf @ left u \<and> (buf = [] \<longrightarrow> left (world t) = []) \<and> sent u = sent (world t)"
      using r [unfolded reads_def, THEN spec, THEN spec, of "world t" WRITE_BLOCK_SIZE] o
      by (auto simp: WRITE_BLOCK_SIZE_def split: sum.splits)
    show "case q of Inl x' \<Rightarrow> sent (world t') @ left (world t') = ?all
       | Inr a \<Rightarrow> a = 0 \<longrightarrow> sent (world t') = ?all"
    proof (cases res)
      case (Inl e)
      with b o show ?thesis by (auto simp: read_write_body_def seqM_apply ext_def)
    next
      case (Inr buf)
      obtain rc v where d: "d_write E vfile buf u = (rc, v)" by fastforce
      have "left v = left u \<and> (rc = DPL_SUCCESS \<longrightarrow> sent v = sent u @ buf)"
        using s [unfolded sends_def, THEN spec, THEN spec, of u buf] d by simp
      with b o d Inr c I show ?thesis
        by (auto simp: read_write_body_def seqM_apply ext_def split: if_splits)
    qed
  qed simp
  then show ?thesis by simp
qed

lemma send_file_total:
  fixes s :: "'w gstate"
  assumes "reads E fd left sent" and "sends E vfile left sent"
  shows "\<exists>r s'. read_write_all_vfile E fd vfile s = Inr (r, s') \<and>
     (r = 0 \<and> sent (world s') = sent (world s) @ left (world s) \<or> r = - 1)"
proof -
  have "case loopM (read_write_body E fd vfile) () s of Inl f \<Rightarrow> False | Inr (r, s') \<Rightarrow> r = 0 \<or> r = - 1"
  proof (rule loopM_rule [where I = "\<lambda>_ _. True" and m = "\<lambda>_ t. length (left (world t))"
      and F = "\<lambda>_. False" and Q = "\<lambda>r _. r = 0 \<or> r = - 1"])
    fix x and t :: "'w gstate"
    obtain res u where o: "os_read E fd WRITE_BLOCK_SIZE (world t) = (res, u)" by fastforce
    show "case read_write_body E fd vfile x t of Inl f \<Rightarrow> False
       | Inr (Inl x', t') \<Rightarrow> True \<and> length (left (world t')) < length (left (world t))
       | Inr (Inr r, t') \<Rightarrow> r = 0 \<or> r = - 1"
    proof (cases res)
      case (Inl e)
      with o show ?thesis by (simp add: read_write_body_def seqM_apply ext_def)
    next
      case (Inr buf)
      with assms(1) [unfolded reads_def, THEN spec, THEN spec, of "world t" WRITE_BLOCK_SIZE] o
      have l: "left (world t) = buf @ left u" by simp
      obtain rc v where d: "d_write E vfile buf u = (rc, v)" by fastforce
      with assms(2) [unfolded sends_def, THEN spec, THEN spec, of u buf] have "left v = left u" by simp
      with l d o Inr show ?thesis by (auto simp: read_write_body_def seqM_apply ext_def)
    qed
  qed simp
  then obtain r s' where "read_write_all_vfile E fd vfile s = Inr (r, s')" "r = 0 \<or> r = - 1"
    by (auto simp: read_write_all_vfile_def split: sum.splits)
  with read_write_all_content [OF assms, of s s'] show ?thesis by blast
qed

section \<open>Digests and encryption\<close>

lemma compare_digests_run:
  assumes "pes s a = Some pe" "pe_ondisk pe = FILE_LOCAL" "dicts s h = Some d"
    "d ''etag'' = Some remote" "pe_digest pe = Some digest" "MD5_DIGEST_LENGTH \<le> length remote"
  shows "compare_digests a (Some h) s =
     (if digest = take MD5_DIGEST_LENGTH remote then Inr (0, s)
      else Inr (- 1, s\<lparr>pes := (pes s)(a \<mapsto> pe\<lparr>pe_digest := Some (take MD5_DIGEST_LENGTH remote)\<rparr>)\<rparr>))"
  using assms
  by (simp add: compare_digests_def get_pe_def get_dict_def upd_pe_def seqM_apply Let_def)

section \<open>Properties\<close>

text \<open>
  C18. \<open>write_all\<close> writes everything: on a descriptor that takes at least one byte of each write
  it returns 0 and the whole buffer, in order, is what the descriptor got, however the writes
  were cut short.
\<close>

theorem write_all_complete:
  assumes "appends E fd content" and "progresses E fd"
  shows "\<exists>w'. write_all E fd buf w = Inr (0, w') \<and> content w' = content w @ buf"
proof -
  obtain r w' where r: "write_all E fd buf w = Inr (r, w')"
    using write_all_total [OF assms(2)] by blast
  have "r = 0"
    using r unfolding write_all_def
  proof (rule loopM_partial [where I = "\<lambda>_ _. True"])
    fix x v q v'
    assume "write_all_body E fd x v = Inr (q, v')"
    moreover obtain n u where "os_write E fd x v = (Inr n, u)"
      using assms(2) unfolding progresses_def by blast
    ultimately show "case q of Inl _ \<Rightarrow> True | Inr r \<Rightarrow> r = 0"
      by (auto simp: write_all_body_def wext_def seqM_apply split: if_splits)
  qed simp
  with r write_all_content [OF assms(1) r] show ?thesis by auto
qed

text \<open>
  C16. Sending a file ends: reading a descriptor to its end, \<open>read_write_all_vfile\<close> returns 0 or
  -1 whatever the cloud answers, and if it returns 0 the cloud has got exactly what was left
  of the file, in order.
\<close>

theorem send_file_complete:
  fixes s :: "'w gstate"
  assumes "reads E fd left sent" and "sends E vfile left sent"
  shows "\<exists>r s'. read_write_all_vfile E fd vfile s = Inr (r, s') \<and>
     (r = 0 \<and> sent (world s') = sent (world s) @ left (world s) \<or> r = - 1)"
  using assms by (rule send_file_total)

text \<open>The flag of a copy in the cloud never asks for encryption, whatever the metadata say.\<close>

lemma never_encrypted: "check_encryption_flag E metadata = 0"
  by (simp add: check_encryption_flag_def Let_def split: option.split)

lemma sim_appends: "appends sim_env fd sim_out"
  by (simp add: appends_def sim_defs min_def)

lemma write_all_complete_witness:
  "\<exists>w'. write_all sim_env 3 ''hello world'' sim_world = Inr (0, w') \<and> sim_out w' = ''hello world''"
proof -
  have "progresses sim_env 3" by (simp add: progresses_def sim_defs)
  from write_all_complete [OF sim_appends this, of "''hello world''" sim_world]
  show ?thesis by (simp add: sim_world_def)
qed

lemma write_all_stuck_witness:
  "write_all (sim_env\<lparr>os_write := \<lambda>fd buf w. (Inr 0, w)\<rparr>) 3 ''a'' sim_world = Inl Diverges"
  by (rule write_all_stuck) simp_all

lemma send_file_complete_witness:
  "\<exists>r s'. read_write_all_vfile sim_env 3 1 sim_state = Inr (r, s') \<and>
     (r = 0 \<and> sim_out (world s') = ''abcdef'' \<or> r = - 1)"
proof -
  have "reads sim_env 3 sim_unread sim_out" by (auto simp: reads_def sim_defs)
  moreover have "sends sim_env 1 sim_unread sim_out" by (simp add: sends_def sim_defs)
  ultimately show ?thesis
    using send_file_complete [of sim_env 3 sim_unread sim_out 1 sim_state]
    by (simp add: sim_state_def sim_world_def)
qed

end
