(* ===== verification/Getattr.thy ===== *)
theory Getattr
  imports File
begin

text \<open>
  The attributes of \<open>src/getattr.c\<close>.  \<open>dfs_getattr\<close> finds or makes the entry of the path
  and answers by where the file is: from the metadata of the entry (\<open>getattr_remote\<close>), from
  the cache file (\<open>getattr_local\<close>), or from the cloud (\<open>getattr_unset\<close>, which fills the
  entry).  The lemmas show what is answered on each path and what the entry becomes.
\<close>

section \<open>The operations\<close>

definition set_default_stat ::
  "('w, 'm) env_scheme \<Rightarrow> dpl_ftype option \<Rightarrow> ('w, stat) dprog" where
  "set_default_stat E type =
     seqM (derefM UninitRead type) (\<lambda>type.
     seqM (ask (os_getuid E)) (\<lambda>uid.
     seqM (ask (os_getgid E)) (\<lambda>gid.
     seqM (ext (os_time E)) (\<lambda>now.
     ret (zero_stat\<lparr>st_mode := (case type of
              DPL_FTYPE_DIR \<Rightarrow> S_IFDIR OR S_IRUSR OR S_IXUSR
            | DPL_FTYPE_REG \<Rightarrow> S_IFREG OR S_IRUSR OR S_IWUSR
            | DPL_FTYPE_OTHER \<Rightarrow> 0),
          st_uid := uid, st_gid := gid, st_size := 0,
          st_atime := now, st_mtime := now, st_ctime := now\<rparr>)))))"

text \<open>The tests combine the mode and the constant with \<open>|\<close>.\<close>

definition set_filetype_from_stat :: "addr \<Rightarrow> stat \<Rightarrow> ('w, unit) dprog" where
  "set_filetype_from_stat a st =
     (if st_mode st OR S_IFREG \<noteq> 0 then upd_pe a (\<lambda>pe. pe\<lparr>pe_filetype := Some FILE_REG\<rparr>)
      else if st_mode st OR S_IFDIR \<noteq> 0 then upd_pe a (\<lambda>pe. pe\<lparr>pe_filetype := Some FILE_DIR\<rparr>)
      else if st_mode st OR S_IFLNK \<noteq> 0 then upd_pe a (\<lambda>pe. pe\<lparr>pe_filetype := Some FILE_SYMLINK\<rparr>)
      else upd_pe a (\<lambda>pe. pe))"

text \<open>
  The result and the caller's path, which is cut at its last slash for the lookup and put
  together again only when the directory is found.
\<close>

definition hash_fill_dirent ::
  "('w, 'm) env_scheme \<Rightarrow> string \<Rightarrow> ('w, int \<times> string) dprog" where
  "hash_fill_dirent E path =
     (case strrchr path CHR ''/'' of None \<Rightarrow> ret (- 1, path)
      | Some i \<Rightarrow>
          let dirname = (if i = 0 then ''/'' else take i path);
              cut = (if i = 0 then path else take i path)
          in seqM (hash_lookup (Some dirname)) (\<lambda>dir.
             case dir of None \<Rightarrow> ret (- 1, cut)
             | Some d \<Rightarrow> seqM (pentry_add_dirent E d path) (\<lambda>_. ret (0, path))))"

text \<open>The result and the attributes; without metadata the mutex stays locked.\<close>

definition getattr_remote :: "addr \<Rightarrow> stat \<Rightarrow> ('w, int \<times> stat) dprog" where
  "getattr_remote a st =
     seqM (pentry_md_lock a) (\<lambda>_.
     seqM (get_pe a) (\<lambda>pe.
     case pe_usermd pe of None \<Rightarrow> ret (- 1, st)
     | Some d \<Rightarrow>
         seqM (get_dict d) (\<lambda>md.
         seqM (pentry_md_unlock a) (\<lambda>_.
         ret (0, fill_stat_from_metadata st md)))))"

definition getattr_local :: "('w, 'm) env_scheme \<Rightarrow> addr \<Rightarrow> stat \<Rightarrow> ('w, int \<times> stat) dprog" where
  "getattr_local E a st =
     seqM (get_pe a) (\<lambda>pe.
     if pe_fd pe < 0 then ret (- 1, st)
     else
       seqM (ext (os_fstat E (pe_fd pe))) (\<lambda>r.
       case r of Inl _ \<Rightarrow> ret (- 1, st) | Inr st \<Rightarrow> ret (0, st)))"

definition getattr_end :: "addr option \<Rightarrow> addr option \<Rightarrow> 'a \<Rightarrow> ('w, 'a) dprog" where
  "getattr_end metadata dict r =
     seqM (dict_free_opt metadata) (\<lambda>_. seqM (dict_free_opt dict) (\<lambda>_. ret r))"

text \<open>
  The attributes the new dictionary gives.  Without a size it is an object of another
  application: its size is the header \<open>content-length\<close>, read even if there is none.
\<close>

definition unset_attributes ::
  "('w, 'm) env_scheme \<Rightarrow> addr option \<Rightarrow> addr \<Rightarrow> stat \<Rightarrow> ('w, stat) dprog" where
  "unset_attributes E metadata dict st =
     seqM (get_dict dict) (\<lambda>d.
     case d ''size'' of
       None \<Rightarrow>
         seqM (fill_metadata_from_stat E dict st) (\<lambda>_.
         seqM (derefM NullDeref metadata) (\<lambda>m.
         seqM (get_dict m) (\<lambda>md.
         seqM (case md ''content-length'' of None \<Rightarrow> ret DPL_SUCCESS
               | Some len \<Rightarrow> dict_call (\<lambda>d. d_dict_add E d ''size'' len) dict) (\<lambda>_.
         seqM (derefM NullDeref (md ''content-length'')) (\<lambda>len.
         ret (st\<lparr>st_size := strtoul len\<rparr>))))))
     | Some _ \<Rightarrow> ret (fill_stat_from_metadata st d))"

text \<open>The entry takes a copy of the metadata, and is then known to be remote.\<close>

definition unset_entry :: "('w, 'm) env_scheme \<Rightarrow> addr \<Rightarrow> addr \<Rightarrow> stat \<Rightarrow> ('w, unit) dprog" where
  "unset_entry E a dict st =
     seqM (pentry_md_lock a) (\<lambda>_.
     seqM (pentry_set_usermd E a (Some dict)) (\<lambda>_.
     seqM (set_filetype_from_stat a st) (\<lambda>_.
     seqM (upd_pe a (\<lambda>pe. pe\<lparr>pe_ondisk := FILE_REMOTE\<rparr>)) (\<lambda>_.
     pentry_md_unlock a))))"

definition getattr_found ::
  "('w, 'm) env_scheme \<Rightarrow> addr \<Rightarrow> string \<Rightarrow> dpl_ftype option \<Rightarrow> stat \<Rightarrow> addr option \<Rightarrow>
   ('w, int \<times> stat) dprog" where
  "getattr_found E a path type st metadata =
     seqM (set_default_stat E type) (\<lambda>st.
     seqM (dict_new E) (\<lambda>new.
     case new of None \<Rightarrow> getattr_end metadata None (- 1, st)
     | Some dict \<Rightarrow>
         seqM (case metadata of None \<Rightarrow> ret None | Some m \<Rightarrow> seqM (get_dict m) (\<lambda>d. ret (Some d))) (\<lambda>md.
         seqM (dict_call (\<lambda>d. d_dict_filter_prefix E d md ''x-amz-meta-'') dict) (\<lambda>rc.
         if rc \<noteq> DPL_SUCCESS then getattr_end metadata (Some dict) (- 1, st)
         else
           seqM (unset_attributes E metadata dict st) (\<lambda>st.
           seqM (unset_entry E a dict st) (\<lambda>_.
           seqM (hash_fill_dirent E path) (\<lambda>_.
           getattr_end metadata (Some dict) (0, st))))))))"

definition getattr_unset ::
  "('w, 'm) env_scheme \<Rightarrow> addr \<Rightarrow> string \<Rightarrow> stat \<Rightarrow> ('w, int \<times> stat) dprog" where
  "getattr_unset E a path st =
     seqM (ask (d_cwd E)) (\<lambda>ino.
     seqM (dfs_namei_timeout E path (Some ino)) (\<lambda>(rc, type, obj).
     if rc \<noteq> DPL_SUCCESS then ret (d_status_code E rc, st)
     else
       seqM (dfs_getattr_all_headers_timeout E path) (\<lambda>(rc, got).
       let bad = (rc \<noteq> DPL_SUCCESS \<and> rc \<noteq> DPL_EISDIR) in
       case got of
         None \<Rightarrow>
           if bad then getattr_end None None (- 1, st) else getattr_found E a path type st None
       | Some d \<Rightarrow>
           seqM (own_dict d) (\<lambda>m.
           if bad then getattr_end (Some m) None (- 1, st)
           else getattr_found E a path type st (Some m)))))"

text \<open>A new entry enters the table; \<open>False\<close> if the key could not be allocated.\<close>

definition getattr_enter :: "('w, 'm) env_scheme \<Rightarrow> string \<Rightarrow> addr \<Rightarrow> ('w, bool) dprog" where
  "getattr_enter E path a =
     seqM (pentry_set_path E a (Some path)) (\<lambda>_.
     seqM (ext (os_alloc E)) (\<lambda>ok.
     if \<not> ok then seqM (pentry_free E a) (\<lambda>_. ret False)
     else seqM (hash_insert E path a) (\<lambda>_. ret True)))"

definition getattr_dispatch ::
  "('w, 'm) env_scheme \<Rightarrow> addr \<Rightarrow> string \<Rightarrow> stat \<Rightarrow> ('w, int \<times> stat) dprog" where
  "getattr_dispatch E a path st =
     seqM (get_pe a) (\<lambda>pe.
     seqM (case pe_ondisk pe of
             FILE_REMOTE \<Rightarrow> getattr_remote a st
           | FILE_LOCAL \<Rightarrow> getattr_local E a st
           | FILE_UNSET \<Rightarrow> getattr_unset E a path st) (\<lambda>(r, st).
     seqM (ext (os_time E)) (\<lambda>now.
     seqM (upd_pe a (\<lambda>pe. pe\<lparr>pe_atime := Some now\<rparr>)) (\<lambda>_.
     ret (r, st)))))"

text \<open>The path has no entry yet.\<close>

definition getattr_miss :: "('w, 'm) env_scheme \<Rightarrow> string \<Rightarrow> stat \<Rightarrow> ('w, int \<times> stat) dprog" where
  "getattr_miss E path st =
     seqM (pentry_new E) (\<lambda>new.
     case new of None \<Rightarrow> ret (- 1, st)
     | Some a \<Rightarrow>
         seqM (getattr_enter E path a) (\<lambda>ok.
         if \<not> ok then ret (- 1, st) else getattr_dispatch E a path st))"

definition dfs_getattr :: "('w, 'm) env_scheme \<Rightarrow> string \<Rightarrow> ('w, int \<times> stat) dprog" where
  "dfs_getattr E path =
     (let st = zero_stat\<lparr>st_nlink := 1\<rparr> in
      if path = ''/'' then ret (0, st\<lparr>st_mode := S_IFDIR\<rparr>)
      else
        seqM (hash_lookup (Some path)) (\<lambda>found.
        case found of Some a \<Rightarrow> getattr_dispatch E a path st | None \<Rightarrow> getattr_miss E path st))"

section \<open>The invariant\<close>

lemma keeps_wf_getattr_parts [wf_intro]:
  "keeps (spare D) (set_default_stat E type)" "keeps (spare D) (set_filetype_from_stat a st)"
  "keeps (spare D) (hash_fill_dirent E path)" "keeps (spare D) (getattr_remote a st)"
  "keeps (spare D) (getattr_local E a st)"
  unfolding set_default_stat_def set_filetype_from_stat_def hash_fill_dirent_def
    getattr_remote_def getattr_local_def
  by (intro keeps_intro wf_intro keeps_wf_upd_pe; simp)+

lemma keeps_wf_getattr_end:
  "set_option m \<subseteq> D \<Longrightarrow> set_option h \<subseteq> D \<Longrightarrow> keeps (spare D) (getattr_end m h r)"
  unfolding getattr_end_def by (intro keeps_intro keeps_wf_dict_free_opt)

lemma keeps_wf_assign_meta [wf_intro]:
  "keeps (spare D) (assign_meta_to_dict E d k v)" "keeps (spare D) (fill_metadata_from_stat E d st)"
  unfolding fill_metadata_from_stat_def assign_meta_to_dict_def by (intro keeps_intro wf_intro)+

lemma keeps_wf_unset_parts [wf_intro]:
  "keeps (spare D) (unset_attributes E m d st)" "keeps (spare D) (unset_entry E a d st)"
  unfolding unset_attributes_def unset_entry_def
  by (intro keeps_intro wf_intro keeps_wf_upd_pe; simp)+

lemma keeps_wf_getattr_found:
  "set_option m \<subseteq> D \<Longrightarrow> keeps (spare D) (getattr_found E a path type st m)"
  unfolding getattr_found_def
  by (intro keeps_wf_dict_new keeps_intro wf_intro keeps_wf_getattr_end) auto

lemma keeps_wf_getattr_unset [wf_intro]: "keeps (spare D) (getattr_unset E a path st)"
  unfolding getattr_unset_def Let_def
  by (intro keeps_wf_own_dict keeps_intro wf_intro keeps_wf_getattr_found keeps_wf_getattr_end) auto

lemma keeps_placement [keeps_intro]:
  "keeps I l \<Longrightarrow> keeps I r \<Longrightarrow> keeps I u \<Longrightarrow>
   keeps I (case p of FILE_LOCAL \<Rightarrow> l | FILE_REMOTE \<Rightarrow> r | FILE_UNSET \<Rightarrow> u)"
  by (cases p) simp_all

lemma keeps_wf_dispatch [wf_intro]: "keeps (spare D) (getattr_dispatch E a path st)"
  unfolding getattr_dispatch_def by (intro keeps_intro wf_intro keeps_wf_upd_pe) simp_all

lemma getattr_enter_wf:
  assumes "loose a s" "getattr_enter E path a s = Inr (ok, s')"
  shows "state_wf s'" and "calm s s'"
proof -
  from assms(1) obtain pe where pe: "pes s a = Some pe" by (auto simp: loose_def)
  obtain k1 w1 where o1: "os_alloc E (world s) = (k1, w1)" by fastforce
  obtain k2 w2 where o2: "os_alloc E w1 = (k2, w2)" by fastforce
  let ?pe = "pe\<lparr>pe_path := (if k1 then Some path else None)\<rparr>"
  let ?s = "s\<lparr>pes := (pes s)(a \<mapsto> ?pe), world := w2\<rparr>"
  have run: "(if \<not> k2 then seqM (pentry_free E a) (\<lambda>_. ret False)
      else seqM (hash_insert E path a) (\<lambda>_. ret True)) ?s = Inr (ok, s')"
    using assms(2) pe o1 o2
    by (simp add: getattr_enter_def pentry_set_path_def get_pe_def upd_pe_def ext_def seqM_apply
        split: if_splits)
  have "upd_pe a (\<lambda>pe. pe\<lparr>pe_path := (if k1 then Some path else None)\<rparr>) s =
      Inr ((), s\<lparr>pes := (pes s)(a \<mapsto> ?pe)\<rparr>)"
    using pe by (simp add: upd_pe_def)
  from loose_upd [OF assms(1) this] have "loose a (s\<lparr>pes := (pes s)(a \<mapsto> ?pe)\<rparr>)" by simp
  then have l: "loose a ?s" by simp
  have c: "calm s ?s" using pe by (auto simp: calm_def owns_def)
  show "state_wf s'"
  proof (cases k2)
    case True
    with run have "hash_insert E path a ?s = Inr ((), s')"
      by (auto simp: seqM_apply split: sum.splits)
    from hash_insert_wf [OF l _ this] show ?thesis by simp
  next
    case False
    with run have "pentry_free E a ?s = Inr ((), s')"
      by (auto simp: seqM_apply split: sum.splits)
    from pentry_free_loose [OF l this] show ?thesis .
  qed
  show "calm s s'"
    using run c by (cases k2) (auto simp: seqM_apply split: sum.splits
        intro: calm_trans pentry_free_calm hash_insert_calm)
qed

text \<open>A new entry that is put into the table, whatever follows.\<close>

lemma keeps_wf_enter_new:
  assumes "keeps (spare D) none" "keeps (spare D) failed" "\<And>a. keeps (spare D) (k a)"
  shows "keeps (spare D) (seqM (pentry_new E) (\<lambda>new.
    case new of None \<Rightarrow> none
    | Some a \<Rightarrow> seqM (getattr_enter E path a) (\<lambda>ok. if \<not> ok then failed else k a)))"
proof (rule keepsI)
  fix s r s'
  assume sp: "spare D s" and "seqM (pentry_new E) (\<lambda>new.
    case new of None \<Rightarrow> none
    | Some a \<Rightarrow> seqM (getattr_enter E path a) (\<lambda>ok. if \<not> ok then failed else k a)) s = Inr (r, s')"
  then obtain new s1 where n: "pentry_new E s = Inr (new, s1)"
    and k: "(case new of None \<Rightarrow> none
    | Some a \<Rightarrow> seqM (getattr_enter E path a) (\<lambda>ok. if \<not> ok then failed else k a)) s1 = Inr (r, s')"
    by (blast elim: seqM_Inr)
  from n show "spare D s'"
  proof (cases rule: pentry_new_run)
    case (1 w)
    with k sp keepsD [OF assms(1), of s1] show ?thesis by auto
  next
    case (2 w)
    then have "pentry_new E s = Inr (Some (fresh s), s1)" using n by simp
    note new = pentry_new_loose(1) [OF _ this]
    from k 2 obtain ok s2 where e: "getattr_enter E path (fresh s) s1 = Inr (ok, s2)"
      and k2: "(if \<not> ok then failed else k (fresh s)) s2 = Inr (r, s')"
      by (auto elim: seqM_Inr)
    have "calm s s1" using 2 by (auto simp: calm_def owns_def new_pentry_def)
    with getattr_enter_wf [OF new e] sp have "spare D s2"
      by (auto simp: spare_def [of D s] intro: spare_calm [OF sp] calm_trans)
    then show ?thesis
      using k2 keepsD [OF assms(3), of s2 "fresh s" r s'] keepsD [OF assms(2), of s2 r s']
      by (cases ok) auto
  qed
qed

lemma keeps_wf_getattr_miss [wf_intro]: "keeps (spare D) (getattr_miss E path st)"
  unfolding getattr_miss_def by (intro keeps_wf_enter_new keeps_intro wf_intro)

lemma keeps_wf_getattr [wf_intro]: "keeps (spare D) (dfs_getattr E path)"
  unfolding dfs_getattr_def Let_def by (intro keeps_intro wf_intro)

section \<open>What is answered\<close>

lemma getattr_root: "dfs_getattr E ''/'' s = Inr ((0, zero_stat\<lparr>st_nlink := 1, st_mode := S_IFDIR\<rparr>), s)"
  by (simp add: dfs_getattr_def)

text \<open>An entry with metadata answers from them and is left as it was.\<close>

lemma getattr_remote_run:
  assumes "pes s a = Some pe" "\<not> pe_md_mutex pe" "pe_usermd pe = Some d" "dicts s d = Some md"
  shows "getattr_remote a st s = Inr ((0, fill_stat_from_metadata st md), s)"
  using assms
  by (simp add: getattr_remote_def seqM_apply lock_runs get_pe_def get_dict_def fun_upd_idem)

text \<open>Without metadata the mutex is never given back: the next request on the entry blocks.\<close>

lemma getattr_remote_leak:
  assumes "pes s a = Some pe" "\<not> pe_md_mutex pe" "pe_usermd pe = None"
  shows "\<exists>s'. getattr_remote a st s = Inr ((- 1, st), s') \<and> getattr_remote a st s' = Inl Blocked"
  using assms by (simp add: getattr_remote_def seqM_apply lock_runs get_pe_def)

lemma set_filetype_always_reg:
  assumes "pes s a = Some pe"
  shows "set_filetype_from_stat a st s = Inr ((), s\<lparr>pes := (pes s)(a \<mapsto> pe\<lparr>pe_filetype := Some FILE_REG\<rparr>)\<rparr>)"
proof -
  have "st_mode st OR S_IFREG \<noteq> 0" by (simp add: or_eq_0_iff)
  with assms show ?thesis by (simp add: set_filetype_from_stat_def upd_pe_def)
qed

text \<open>A first answer has no links: the default attributes overwrite the count.\<close>

lemma fill_stat_nlink: "st_nlink (fill_stat_from_metadata st md) = st_nlink st"
  by (simp add: fill_stat_from_metadata_def store_meta_def Let_def)

lemma getattr_found_nlink:
  "getattr_found E a path type st m s = Inr ((0, st'), s') \<Longrightarrow> st_nlink st' = 0"
  unfolding getattr_found_def set_default_stat_def unset_attributes_def getattr_end_def
  by (auto elim!: seqM_Inr simp: derefM_def zero_stat_def fill_stat_nlink
      split: option.splits if_splits)

lemma getattr_unset_nlink:
  assumes "getattr_unset E a path st s = Inr ((0, st'), s')"
    and "\<forall>rc. rc \<noteq> DPL_SUCCESS \<longrightarrow> d_status_code E rc \<noteq> 0"
  shows "st_nlink st' = 0"
  using assms unfolding getattr_unset_def
  by (auto elim!: seqM_Inr getattr_found_nlink simp: Let_def getattr_end_def
      split: option.splits if_splits)

section \<open>Properties\<close>

text \<open>
  C37. Asking for the attributes of a remote file whose metadata are not known leaves the lock of
  the metadata taken: the request fails, and the next one for the same path waits for ever.
\<close>

theorem getattr_leaks_lock:
  assumes "path \<noteq> ''/''" and "ghash s path = Some a" and "pes s a = Some pe"
    and "pe_ondisk pe = FILE_REMOTE" and "pe_usermd pe = None" and "\<not> pe_md_mutex pe"
  shows "\<exists>st s'. dfs_getattr E path s = Inr ((- 1, st), s') \<and> dfs_getattr E path s' = Inl Blocked"
  using assms
  by (cases "os_time E (world s)")
     (simp add: dfs_getattr_def getattr_dispatch_def getattr_remote_def seqM_apply hash_lookup_def
       get_pe_def upd_pe_def lock_runs ext_def Let_def)

lemma getattr_leaks_lock_witness:
  "\<exists>st s'. dfs_getattr sim_env ''/a'' (sim_state\<lparr>pes := [0 \<mapsto> sim_pe\<lparr>pe_usermd := None\<rparr>]\<rparr>) = Inr ((- 1, st), s') \<and>
     dfs_getattr sim_env ''/a'' s' = Inl Blocked"
  by (rule getattr_leaks_lock [where a = 0 and pe = "sim_pe\<lparr>pe_usermd := None\<rparr>"])
     (simp_all add: sim_state_def sim_pe_def)

end
