(* ===== verification/Open.thy ===== *)
theory Open
  imports Getattr
begin

text \<open>
  Opening and creating (\<open>src/open.c\<close>, \<open>src/create.c\<close>).  \<open>dfs_open\<close> finds or makes the entry,
  takes a reference, and obtains a cache file in one of four ways, chosen by the flags;
  \<open>dfs_create\<close> opens, sets the mode and the metadata, and makes the remote object.  The
  field \<open>fh\<close> of the caller's \<open>info\<close> is part of the result.
\<close>

section \<open>The cache directory\<close>

text \<open>\<open>dirname(3)\<close>\<close>

definition strip_end :: "string \<Rightarrow> string" where
  "strip_end p = rev (dropWhile (\<lambda>c. c = CHR ''/'') (rev p))"

definition dirname :: "string \<Rightarrow> string" where
  "dirname p =
     (if p = [] then ''.''
      else let t = strip_end p in
        if t = [] then ''/''
        else case strrchr t CHR ''/'' of None \<Rightarrow> ''.''
             | Some i \<Rightarrow> (let u = strip_end (take i t) in if u = [] then ''/'' else u))"

definition build_cache_tree :: "('w, 'm) env_scheme \<Rightarrow> string \<Rightarrow> ('w, string option) dprog" where
  "build_cache_tree E path =
     (let path = dropWhile (\<lambda>c. c = CHR ''/'') path in
      seqM (getS gconf) (\<lambda>conf.
      seqM (sptr_show (c_cache_dir conf)) (\<lambda>cache.
      let local = fmt (cache @ ''/'' @ path) in
      seqM (ext (os_alloc E)) (\<lambda>ok.
      if \<not> ok then ret None
      else
        let dir = fmt (dirname local) in
        seqM (ext (os_stat E dir)) (\<lambda>r.
        seqM (case r of Inl e \<Rightarrow> if e = ENOENT then mkdir_tree E (Some dir) else ret ()
              | Inr _ \<Rightarrow> ret ()) (\<lambda>_.
        ret (Some local)))))))"

section \<open>Modes\<close>

datatype state_mode = MODE_RDONLY | MODE_WRONLY | MODE_RDWR | MODE_CREAT

definition open_flags :: "state_mode \<Rightarrow> 32 word" where
  "open_flags m = (case m of
       MODE_RDONLY \<Rightarrow> O_RDONLY
     | MODE_WRONLY \<Rightarrow> O_RDWR
     | MODE_RDWR \<Rightarrow> O_RDWR
     | MODE_CREAT \<Rightarrow> O_RDWR OR O_CREAT OR O_TRUNC)"

definition get_mode_from_flags :: "32 word \<Rightarrow> state_mode" where
  "get_mode_from_flags flags =
     (if flags AND O_APPEND \<noteq> 0 then MODE_RDWR
      else if flags AND O_CREAT \<noteq> 0 then MODE_CREAT
      else if flags AND O_ACCMODE = O_RDONLY then MODE_RDONLY
      else if flags AND O_ACCMODE = O_WRONLY then MODE_CREAT
      else if flags AND O_ACCMODE = O_RDWR then MODE_CREAT
      else MODE_RDWR)"

section \<open>open.c\<close>

definition open_creat ::
  "('w, 'm) env_scheme \<Rightarrow> string \<Rightarrow> addr \<Rightarrow> 32 word \<Rightarrow> ('w, int) dprog" where
  "open_creat E path a flags =
     seqM (build_cache_tree E path) (\<lambda>local.
     case local of None \<Rightarrow> ret (- 1)
     | Some l \<Rightarrow>
         seqM (ext (os_open E l flags 0x1A4)) (\<lambda>r.
         case r of Inl _ \<Rightarrow> ret (- 1)
         | Inr fd \<Rightarrow>
             seqM (upd_pe a (\<lambda>pe. pe\<lparr>pe_fd := int fd, pe_flag := FLAG_DIRTY\<rparr>)) (\<lambda>_. ret 0)))"

definition open_existing ::
  "('w, 'm) env_scheme \<Rightarrow> string \<Rightarrow> addr \<Rightarrow> 32 word \<Rightarrow> ('w, int) dprog" where
  "open_existing E path a flags =
     seqM (get_pe a) (\<lambda>pe.
     if pe_fd pe < 0 then
       seqM (build_cache_tree E path) (\<lambda>_.
       seqM (dfs_get_local_copy E a path flags) (\<lambda>fd.
       seqM (upd_pe a (\<lambda>pe. pe\<lparr>pe_fd := fd\<rparr>)) (\<lambda>_.
       ret (if fd = - 1 then - 1 else 0))))
     else ret 0)"

definition open_rdonly ::
  "('w, 'm) env_scheme \<Rightarrow> string \<Rightarrow> addr \<Rightarrow> 32 word \<Rightarrow> ('w, int) dprog" where
  "open_rdonly E path a flags = open_existing E path a flags"

definition open_wronly ::
  "('w, 'm) env_scheme \<Rightarrow> string \<Rightarrow> addr \<Rightarrow> 32 word \<Rightarrow> ('w, int) dprog" where
  "open_wronly E path a flags =
     seqM (open_existing E path a flags) (\<lambda>r.
     seqM (if r = 0 then upd_pe a (\<lambda>pe. pe\<lparr>pe_flag := FLAG_DIRTY\<rparr>) else ret ()) (\<lambda>_.
     ret r))"

definition open_rdwr ::
  "('w, 'm) env_scheme \<Rightarrow> string \<Rightarrow> addr \<Rightarrow> 32 word \<Rightarrow> ('w, int) dprog" where
  "open_rdwr E path a flags = open_wronly E path a flags"

text \<open>The table of functions, and the entry once it is known.\<close>

definition open_fn ::
  "('w, 'm) env_scheme \<Rightarrow> state_mode \<Rightarrow> string \<Rightarrow> addr \<Rightarrow> 32 word \<Rightarrow> ('w, int) dprog" where
  "open_fn E smode = (case smode of
       MODE_RDONLY \<Rightarrow> open_rdonly E
     | MODE_WRONLY \<Rightarrow> open_wronly E
     | MODE_RDWR \<Rightarrow> open_rdwr E
     | MODE_CREAT \<Rightarrow> open_creat E)"

definition open_entry ::
  "('w, 'm) env_scheme \<Rightarrow> string \<Rightarrow> 32 word \<Rightarrow> addr \<Rightarrow> ('w, int \<times> addr option) dprog" where
  "open_entry E path flags a =
     seqM (pentry_inc_refcount a) (\<lambda>_.
     let smode = get_mode_from_flags flags in
     seqM (open_fn E smode path a (open_flags smode)) (\<lambda>r.
     if r = - 1 then ret (- 1, Some a)
     else
       seqM (upd_pe a (\<lambda>pe. pe\<lparr>pe_ondisk := FILE_LOCAL\<rparr>)) (\<lambda>_.
       ret (0, Some a))))"

text \<open>
  The end \<open>err\<close> logs the descriptor of the entry at the level \<open>LOG_DEBUG\<close>, also when there is no
  entry, or when \<open>populate_hash\<close> has released it.
\<close>

definition open_err :: "addr option \<Rightarrow> ('w, int \<times> addr option) dprog" where
  "open_err pep =
     seqM (getS gconf) (\<lambda>conf.
     seqM (if LOG_DEBUG > c_log_level conf then ret ()
           else seqM (derefM NullDeref pep) (\<lambda>a. seqM (get_pe a) (\<lambda>_. ret ()))) (\<lambda>_.
     ret (- 1, None)))"

definition dfs_open ::
  "('w, 'm) env_scheme \<Rightarrow> string \<Rightarrow> 32 word \<Rightarrow> ('w, int \<times> addr option) dprog" where
  "dfs_open E path flags =
     seqM (hash_lookup (Some path)) (\<lambda>found.
     case found of
       Some a \<Rightarrow> open_entry E path flags a
     | None \<Rightarrow>
         seqM (populate_hash E path FILE_REG) (\<lambda>(r, pep).
         if r = - 1 then open_err pep
         else seqM (derefM NullDeref pep) (open_entry E path flags)))"

section \<open>create.c\<close>

definition create_end :: "addr option \<Rightarrow> int \<times> addr option \<Rightarrow> ('w, int \<times> addr option) dprog" where
  "create_end usermd r = seqM (dict_free_opt usermd) (\<lambda>_. ret r)"

text \<open>
  From the metadata on.  \<open>usermd\<close> is the dictionary of the entry where it has one, and
  \<open>pentry_set_usermd\<close> releases that dictionary before it copies from its argument.
\<close>

definition create_md ::
  "('w, 'm) env_scheme \<Rightarrow> string \<Rightarrow> mode_t \<Rightarrow> bool \<Rightarrow> addr \<Rightarrow> stat \<Rightarrow> addr \<Rightarrow>
   ('w, int \<times> addr option) dprog" where
  "create_md E path mode exclude a st usermd =
     seqM (fill_metadata_from_stat E usermd st) (\<lambda>_.
     seqM (assign_meta_to_dict E usermd ''mode'' (ucast mode)) (\<lambda>_.
     seqM (pentry_md_lock a) (\<lambda>_.
     seqM (pentry_set_usermd E a (Some usermd)) (\<lambda>_.
     seqM (pentry_md_unlock a) (\<lambda>_.
     if \<not> exclude then
       seqM (dfs_mknod_timeout E path) (\<lambda>rc.
       create_end (Some usermd) (if rc \<noteq> DPL_SUCCESS then - 1 else 0, Some a))
     else create_end (Some usermd) (0, Some a))))))"

definition create_opened ::
  "('w, 'm) env_scheme \<Rightarrow> string \<Rightarrow> mode_t \<Rightarrow> bool \<Rightarrow> addr \<Rightarrow> ('w, int \<times> addr option) dprog" where
  "create_opened E path mode exclude a =
     seqM (upd_pe a (\<lambda>pe. pe\<lparr>pe_exclude := exclude\<rparr>)) (\<lambda>_.
     seqM (get_pe a) (\<lambda>pe.
     if pe_fd pe = - 1 then ret (- 1, Some a)
     else
       seqM (ext (os_fchmod E (pe_fd pe) mode)) (\<lambda>err.
       case err of Some e \<Rightarrow> ret (- e, Some a)
       | None \<Rightarrow>
           seqM (ext (os_fstat E (pe_fd pe))) (\<lambda>r.
           case r of Inl e \<Rightarrow> ret (- e, Some a)
           | Inr st \<Rightarrow>
               case pe_usermd pe of
                 Some d \<Rightarrow> create_md E path mode exclude a st d
               | None \<Rightarrow>
                   seqM (dict_new E) (\<lambda>new.
                   case new of None \<Rightarrow> ret (- 1, Some a)
                   | Some d \<Rightarrow> create_md E path mode exclude a st d)))))"

definition dfs_create ::
  "('w, 'm) env_scheme \<Rightarrow> string \<Rightarrow> mode_t \<Rightarrow> 32 word \<Rightarrow> addr option \<Rightarrow>
   ('w, int \<times> addr option) dprog" where
  "dfs_create E path mode flags fh =
     (if mode AND S_IFMT \<noteq> S_IFREG then ret (- 1, fh)
      else
        seqM (getS gconf) (\<lambda>conf.
        seqM (re_matcher E (c_regex conf) path) (\<lambda>exclude.
        seqM (if exclude then ret DPL_SUCCESS
              else seqM (ask (d_cwd E)) (\<lambda>ino.
                   seqM (dfs_namei_timeout E path (Some ino)) (\<lambda>(rc, _). ret rc))) (\<lambda>rc.
        if \<not> exclude \<and> rc \<noteq> DPL_SUCCESS \<and> rc \<noteq> DPL_ENOENT then ret (- 1, fh)
        else
          seqM (dfs_open E path flags) (\<lambda>(r, fh).
          if r = - 1 then ret (- 1, fh)
          else case fh of None \<Rightarrow> ret (- 1, None) | Some a \<Rightarrow> create_opened E path mode exclude a)))))"

section \<open>The invariant\<close>

lemma worldly_mkdir [worldly_intro]: "worldly (mkdir_tree E d)"
proof -
  have q: "worldly (mkdir_quiet E p m)" for p m
    unfolding mkdir_quiet_def by (intro worldly_intro)
  have "worldly (mkdir_scan E p cs)" for p cs
  proof (induction cs arbitrary: p)
    case (Cons c cs)
    then show ?case unfolding mkdir_scan.simps by (intro worldly_intro q)
  qed (simp add: q)
  then show ?thesis
    unfolding mkdir_tree_def by (auto intro!: worldly_intro split: option.split list.split)
qed

lemma worldly_build [worldly_intro]: "worldly (build_cache_tree E path)"
  unfolding build_cache_tree_def by (intro worldly_intro)

lemma worldly_matcher [worldly_intro]: "worldly (re_matcher E re path)"
  unfolding re_matcher_def by (intro worldly_intro)

lemmas keeps_wf_open_calls [wf_intro] =
  worldly_mkdir [THEN keeps_wf_worldly] worldly_build [THEN keeps_wf_worldly]
  worldly_matcher [THEN keeps_wf_worldly]

lemma keeps_wf_open_modes [wf_intro]:
  "keeps (spare D) (open_creat E path a flags)" "keeps (spare D) (open_existing E path a flags)"
  "keeps (spare D) (open_wronly E path a flags)"
proof -
  show e: "keeps (spare D) (open_existing E path a flags)"
    unfolding open_existing_def by (intro keeps_intro wf_intro keeps_wf_upd_pe) simp_all
  show "keeps (spare D) (open_creat E path a flags)"
    unfolding open_creat_def by (intro keeps_intro wf_intro keeps_wf_upd_pe) simp_all
  show "keeps (spare D) (open_wronly E path a flags)"
    unfolding open_wronly_def by (intro keeps_intro wf_intro e keeps_wf_upd_pe) simp_all
qed

lemma keeps_wf_open_fn [wf_intro]: "keeps (spare D) (open_fn E smode path a flags)"
  by (cases smode) (simp_all add: open_fn_def open_rdonly_def open_rdwr_def, (intro wf_intro)+)

lemma keeps_wf_open_entry [wf_intro]: "keeps (spare D) (open_entry E path flags a)"
  unfolding open_entry_def by (intro keeps_intro wf_intro keeps_wf_upd_pe) simp_all

lemma worldly_open_err [worldly_intro]: "worldly (open_err pep)"
  unfolding open_err_def by (intro worldly_intro)

lemma keeps_wf_open [wf_intro]: "keeps (spare D) (dfs_open E path flags)"
  unfolding dfs_open_def open_err_def by (intro keeps_intro wf_intro)

lemma keeps_wf_create_md:
  "d \<in> D \<Longrightarrow> keeps (spare D) (create_md E path mode exclude a st d)"
  unfolding create_md_def create_end_def by (intro keeps_intro wf_intro keeps_wf_dict_free_opt) auto

text \<open>The dictionary of an entry cannot be copied into that entry.\<close>

lemma set_usermd_self:
  assumes wf: "state_wf s" and "owns s a d"
  shows "(\<exists>f. pentry_set_usermd E a (Some d) s = Inl f) \<or>
     (\<exists>s'. pentry_set_usermd E a (Some d) s = Inr (- 1, s') \<and> dicts s' d = None)"
proof -
  from assms obtain pe where pe: "pes s a = Some pe" "pe_usermd pe = Some d"
    by (auto simp: owns_def)
  from assms obtain x where d: "dicts s d = Some x" "d < fresh s"
    unfolding state_wf_def dict_wf_def fresh_wf_def by blast
  obtain ok w where o: "os_alloc E (world s) = (ok, w)" by fastforce
  show ?thesis
    using pe d o
    by (cases ok) (simp_all add: pentry_set_usermd_def get_pe_def dict_ops state_ops seqM_apply)
qed

lemma create_end_gone: "dicts t d = None \<Longrightarrow> create_end (Some d) x t = Inl UseAfterFree"
  by (simp add: create_end_def dict_free_opt_def dict_free_def seqM_apply)

lemma create_md_shared:
  assumes wf: "state_wf s" and own: "owns s a d"
  shows "\<exists>f. create_md E path mode exclude a st d s = Inl f"
proof (rule ccontr)
  let ?I = "\<lambda>s. state_wf s \<and> owns s a d"
  assume "\<nexists>f. create_md E path mode exclude a st d s = Inl f"
  then obtain r s' where run: "create_md E path mode exclude a st d s = Inr (r, s')"
    by (cases "create_md E path mode exclude a st d s") auto
  have assign: "keeps ?I (assign_meta_to_dict E d k v)" for k v
  proof (rule keepsI)
    fix s u s' assume I: "?I s" and r: "assign_meta_to_dict E d k v s = Inr (u, s')"
    have "state_wf s'"
      using keepsD [OF keeps_wf_assign_meta(1) [where D = "{}"]] I r by auto
    moreover from r have "pes s' = pes s"
      by (auto simp: assign_meta_to_dict_def dict_call_def state_ops seqM_apply split: option.splits prod.splits)
    ultimately show "?I s'" using I by (simp add: owns_def)
  qed
  have fill: "keeps ?I (fill_metadata_from_stat E d st)"
    unfolding fill_metadata_from_stat_def by (intro keeps_seqM assign)
  from run obtain s1 s2 s3 s4 s5 rr where
    1: "fill_metadata_from_stat E d st s = Inr ((), s1)"
    and 2: "assign_meta_to_dict E d ''mode'' (ucast mode) s1 = Inr ((), s2)"
    and 3: "pentry_md_lock a s2 = Inr ((), s3)"
    and 4: "pentry_set_usermd E a (Some d) s3 = Inr (rr, s4)"
    and 5: "pentry_md_unlock a s4 = Inr ((), s5)"
    and 6: "(if \<not> exclude then seqM (dfs_mknod_timeout E path) (\<lambda>rc.
       create_end (Some d) (if rc \<noteq> DPL_SUCCESS then - 1 else 0, Some a))
     else create_end (Some d) (0, Some a)) s5 = Inr (r, s')"
    unfolding create_md_def by (elim seqM_Inr) auto
  have "?I s2" using keepsD [OF assign] keepsD [OF fill] 1 2 wf own by blast
  moreover have "owns s3 = owns s2"
    using 3 by (auto simp: pentry_md_lock_def pentry_gen_lock_def get_pe_def upd_pe_def seqM_apply
        owns_def fun_eq_iff split: option.splits if_splits)
  moreover have "state_wf s3"
    using keepsD [OF keeps_wf_locks(5) [where D = "{}"]] \<open>?I s2\<close> 3 by auto
  ultimately have "dicts s4 d = None"
    using set_usermd_self [of s3 a d E] 4 by auto
  moreover have "dicts s5 = dicts s4"
    using 5 by (auto simp: pentry_md_unlock_def pentry_gen_unlock_def upd_pe_def split: option.splits)
  ultimately have none: "dicts s5 d = None" by simp
  have "dfs_mknod_timeout E path s5 = Inr (rc, t) \<Longrightarrow> dicts t = dicts s5" for rc t
    by (rule worldly_frame(6) [of "dfs_mknod_timeout E path"], intro worldly_intro)
  then show False
    using 6 none by (auto simp: seqM_apply create_end_gone split: if_splits sum.splits)
qed

lemma keeps_wf_create_opened [wf_intro]: "keeps (spare D) (create_opened E path mode exclude a)"
proof (rule keepsI)
  fix s r s'
  assume sp: "spare D s" and run: "create_opened E path mode exclude a s = Inr (r, s')"
  then obtain s1 where u: "upd_pe a (\<lambda>pe. pe\<lparr>pe_exclude := exclude\<rparr>) s = Inr ((), s1)"
    by (auto simp: create_opened_def elim: seqM_Inr)
  have sp1: "spare D s1" by (rule keepsD [OF keeps_wf_upd_pe sp u]) simp_all
  show "spare D s'"
  proof (cases "pes s1 a")
    case None
    with run u show ?thesis by (simp add: create_opened_def seqM_apply get_pe_def)
  next
    case (Some pe)
    show ?thesis
    proof (cases "pe_usermd pe")
      case None
      have "keeps (spare D) (if pe_fd pe = - 1 then ret (- 1, Some a)
         else seqM (ext (os_fchmod E (pe_fd pe) mode)) (\<lambda>err. case err of Some e \<Rightarrow> ret (- e, Some a)
         | None \<Rightarrow> seqM (ext (os_fstat E (pe_fd pe))) (\<lambda>r. case r of Inl e \<Rightarrow> ret (- e, Some a)
         | Inr st \<Rightarrow> seqM (dict_new E) (\<lambda>new. case new of None \<Rightarrow> ret (- 1, Some a)
             | Some d \<Rightarrow> create_md E path mode exclude a st d))))"
        by (intro keeps_wf_dict_new keeps_intro wf_intro keeps_wf_create_md) auto
      from keepsD [OF this sp1] run u Some None show ?thesis
        by (simp add: create_opened_def seqM_apply get_pe_def
            cong: if_cong option.case_cong sum.case_cong)
    next
      fix d
      assume d: "pe_usermd pe = Some d"
      obtain err w1 where c: "os_fchmod E (pe_fd pe) mode (world s1) = (err, w1)" by fastforce
      obtain st w2 where f: "os_fstat E (pe_fd pe) w1 = (st, w2)" by fastforce
      have "owns (s1\<lparr>world := w2\<rparr>) a d" "state_wf (s1\<lparr>world := w2\<rparr>)"
        using Some d sp1 by (auto simp: owns_def spare_def)
      then obtain g where "create_md E path mode exclude a (projr st) d (s1\<lparr>world := w2\<rparr>) = Inl g"
        using create_md_shared by blast
      with run u Some d sp1 c f show ?thesis
        by (cases "pe_fd pe = - 1"; cases err; cases st)
           (simp_all add: create_opened_def seqM_apply get_pe_def ext_def, auto)
    qed
  qed
qed

lemma keeps_wf_create [wf_intro]: "keeps (spare D) (dfs_create E path mode flags fh)"
  unfolding dfs_create_def by (intro keeps_intro wf_intro)

section \<open>References\<close>

text \<open>\<open>refs a n\<close>: the entry \<open>a\<close> has \<open>n\<close> references.  Rules for \<open>keeps (refs a n)\<close>.\<close>

definition refs :: "addr \<Rightarrow> nat \<Rightarrow> 'w gstate \<Rightarrow> bool" where
  "refs a n s \<longleftrightarrow> (\<exists>pe. pes s a = Some pe \<and> pe_refcount pe = n)"

named_theorems refs_intro "rules that show that a program leaves a reference count alone"

lemma keeps_refs_worldly: "worldly m \<Longrightarrow> keeps (refs a n) m"
  by (rule keeps_worldly) (simp_all add: refs_def)

lemma keeps_refs_upd_pe:
  "(\<And>pe. pe_refcount (f pe) = pe_refcount pe) \<Longrightarrow> keeps (refs a n) (upd_pe b f)"
  by (auto simp: keeps_def refs_def upd_pe_def split: option.splits)

lemmas keeps_refs_calls [refs_intro] =
  worldly_basic [THEN keeps_refs_worldly] worldly_sptr [THEN keeps_refs_worldly]
  worldly_safe_close [THEN keeps_refs_worldly] worldly_retry [THEN keeps_refs_worldly]
  worldly_hash [THEN keeps_refs_worldly] worldly_zip [THEN keeps_refs_worldly]
  worldly_timeouts [THEN keeps_refs_worldly] worldly_file [THEN keeps_refs_worldly]
  worldly_mkdir [THEN keeps_refs_worldly] worldly_build [THEN keeps_refs_worldly]

lemma keeps_refs_dicts [refs_intro]:
  "keeps (refs a n) (set_dict d x)" "keeps (refs a n) (own_dict x)" "keeps (refs a n) (dict_free d)"
  by (auto simp: keeps_def refs_def set_dict_def own_dict_def dict_free_def split: option.splits)

lemma keeps_refs_dict_ops [refs_intro]:
  "keeps (refs a n) (dict_new E)" "keeps (refs a n) (dict_free_opt p)" "keeps (refs a n) (dict_call f d)"
  unfolding dict_ops by (intro keeps_intro refs_intro)+

lemma keeps_refs_locks [refs_intro]:
  "keeps (refs a n) (pentry_md_lock b)" "keeps (refs a n) (pentry_md_unlock b)"
  "keeps (refs a n) (pentry_set_usermd E b p)" "keeps (refs a n) (compare_digests b h)"
  unfolding pentry_md_lock_def pentry_gen_lock_def pentry_md_unlock_def pentry_gen_unlock_def
    pentry_set_usermd_def compare_digests_def
  by (intro keeps_intro refs_intro keeps_refs_upd_pe; simp)+

lemma keeps_refs_local_copy [refs_intro]: "keeps (refs a n) (dfs_get_local_copy E b remote flags)"
  unfolding dfs_get_local_copy_def download_headers_def copy_end_def fetch_def fetch_end_def
    handle_compression_def uncompress_local_def Let_def
  by (intro keeps_intro refs_intro)

lemma keeps_refs_open_fn [refs_intro]: "keeps (refs a n) (open_fn E smode path b flags)"
  unfolding open_fn_def
  by (cases smode)
     (simp_all add: open_rdonly_def open_rdwr_def open_wronly_def open_existing_def open_creat_def,
      (intro keeps_intro refs_intro keeps_refs_upd_pe; simp)+)

text \<open>Opening takes a reference, whether it succeeds or not.\<close>

lemma open_entry_refs:
  assumes "refs a n s" "n < SEM_VALUE_MAX" "open_entry E path flags a s = Inr ((r, fh), s')"
  shows "refs a (Suc n) s'" and "fh = Some a"
proof -
  from assms(1) obtain pe where pe: "pes s a = Some pe" "pe_refcount pe = n" by (auto simp: refs_def)
  let ?s = "s\<lparr>pes := (pes s)(a \<mapsto> pe\<lparr>pe_refcount := Suc n\<rparr>)\<rparr>"
  let ?m = "let smode = get_mode_from_flags flags in
     seqM (open_fn E smode path a (open_flags smode)) (\<lambda>r.
     if r = - 1 then ret (- 1, Some a)
     else seqM (upd_pe a (\<lambda>pe. pe\<lparr>pe_ondisk := FILE_LOCAL\<rparr>)) (\<lambda>_. ret (0, Some a)))"
  have inc: "pentry_inc_refcount a s = Inr ((), ?s)"
    using pe assms(2) by (simp add: pentry_inc_refcount_def upd_pe_def)
  with assms(3) have run: "?m ?s = Inr ((r, fh), s')"
    by (simp add: open_entry_def seqM_apply)
  have "keeps (refs a (Suc n)) ?m"
    unfolding Let_def by (intro keeps_intro refs_intro keeps_refs_upd_pe) simp_all
  from keepsD [OF this _ run] show "refs a (Suc n) s'" by (simp add: refs_def)
  from run show "fh = Some a" by (auto simp: Let_def elim!: seqM_Inr split: if_splits)
qed

section \<open>Entries without a local copy\<close>

text \<open>\<open>away a\<close>: the entry \<open>a\<close> has no local copy.  Rules for \<open>keeps (away a)\<close>.\<close>

definition away :: "addr \<Rightarrow> 'w gstate \<Rightarrow> bool" where
  "away a s \<longleftrightarrow> (\<exists>pe. pes s a = Some pe \<and> pe_ondisk pe \<noteq> FILE_LOCAL)"

named_theorems away_intro "rules that show that a program does not make a local copy known"

lemma keeps_away_worldly: "worldly m \<Longrightarrow> keeps (away a) m"
  by (rule keeps_worldly) (simp_all add: away_def)

lemma keeps_away_upd_pe:
  "(\<And>pe. pe_ondisk (f pe) = pe_ondisk pe) \<Longrightarrow> keeps (away a) (upd_pe b f)"
  by (auto simp: keeps_def away_def upd_pe_def split: option.splits)

lemmas keeps_away_calls [away_intro] =
  worldly_basic [THEN keeps_away_worldly] worldly_sptr [THEN keeps_away_worldly]
  worldly_safe_close [THEN keeps_away_worldly] worldly_zip [THEN keeps_away_worldly]
  worldly_timeouts [THEN keeps_away_worldly] worldly_file [THEN keeps_away_worldly]
  worldly_build [THEN keeps_away_worldly]

lemma keeps_away_dicts [away_intro]:
  "keeps (away a) (set_dict d x)" "keeps (away a) (own_dict x)" "keeps (away a) (dict_free d)"
  by (auto simp: keeps_def away_def set_dict_def own_dict_def dict_free_def split: option.splits)

lemma keeps_away_dict_ops [away_intro]:
  "keeps (away a) (dict_new E)" "keeps (away a) (dict_free_opt p)" "keeps (away a) (dict_call f d)"
  unfolding dict_ops by (intro keeps_intro away_intro)+

lemma keeps_away_locks [away_intro]:
  "keeps (away a) (pentry_md_lock b)" "keeps (away a) (pentry_md_unlock b)"
  "keeps (away a) (pentry_set_usermd E b p)" "keeps (away a) (compare_digests b h)"
  unfolding pentry_md_lock_def pentry_gen_lock_def pentry_md_unlock_def pentry_gen_unlock_def
    pentry_set_usermd_def compare_digests_def
  by (intro keeps_intro away_intro keeps_away_upd_pe; simp)+

lemma keeps_away_headers [away_intro]: "keeps (away a) (download_headers E remote)"
  unfolding download_headers_def by (intro keeps_intro away_intro)

lemma keeps_away_copy: "keeps (away a) (dfs_get_local_copy E b remote flags)"
  unfolding dfs_get_local_copy_def copy_end_def fetch_def fetch_end_def
    handle_compression_def uncompress_local_def Let_def
  by (intro keeps_intro away_intro)

section \<open>How a file is opened\<close>

lemma mode_never_wronly: "get_mode_from_flags flags \<noteq> MODE_WRONLY"
  by (simp add: get_mode_from_flags_def)

text \<open>Every opening for writing that does not append starts with an empty file.\<close>

lemma open_for_writing_truncates:
  assumes "flags AND O_ACCMODE \<noteq> O_RDONLY" "flags AND O_ACCMODE \<noteq> O_ACCMODE"
    "flags AND O_APPEND = 0"
  shows "get_mode_from_flags flags = MODE_CREAT"
    and "open_flags (get_mode_from_flags flags) AND O_TRUNC \<noteq> 0"
proof -
  have "flags AND O_ACCMODE \<in> {0, 1, 2, 3}"
  proof -
    have "unat (flags AND O_ACCMODE) \<le> unat (3 :: 32 word)"
      by (metis word_and_le1 word_le_nat_alt)
    then have "unat (flags AND O_ACCMODE) \<in> {0, 1, 2, 3}" by auto
    then have "(word_of_nat (unat (flags AND O_ACCMODE)) :: 32 word) \<in>
        {word_of_nat 0, word_of_nat 1, word_of_nat 2, word_of_nat 3}"
      by (elim insertE emptyE) simp_all
    then show ?thesis by simp
  qed
  with assms show m: "get_mode_from_flags flags = MODE_CREAT"
    by (auto simp: get_mode_from_flags_def)
  show "open_flags (get_mode_from_flags flags) AND O_TRUNC \<noteq> 0"
    unfolding m by (simp add: open_flags_def)
qed

text \<open>A cached file is opened for reading without any call to the outside.\<close>

lemma open_cached:
  assumes "ghash s path = Some a" "pes s a = Some pe" "0 \<le> pe_fd pe" "pe_refcount pe < SEM_VALUE_MAX"
    "flags AND O_ACCMODE = O_RDONLY" "flags AND O_APPEND = 0" "flags AND O_CREAT = 0"
  shows "dfs_open E path flags s = Inr ((0, Some a), s\<lparr>pes := (pes s)(a \<mapsto>
     pe\<lparr>pe_refcount := Suc (pe_refcount pe), pe_ondisk := FILE_LOCAL\<rparr>)\<rparr>)"
  using assms
  by (simp add: dfs_open_def hash_lookup_def open_entry_def pentry_inc_refcount_def upd_pe_def
      get_mode_from_flags_def open_fn_def open_rdonly_def open_existing_def get_pe_def seqM_apply)

section \<open>Properties\<close>

text \<open>
  C22. An open of a known file takes exactly one reference, on the entry that its handle is, also
  when it fails; nothing gives that reference back when FUSE is told of the failure.
\<close>

theorem open_takes_reference:
  assumes "ghash s path = Some a" and "refs a n s" and "n < SEM_VALUE_MAX"
    and "dfs_open E path flags s = Inr ((r, fh), s')"
  shows "fh = Some a \<and> refs a (n + 1) s'"
proof -
  from assms(1,4) have "open_entry E path flags a s = Inr ((r, fh), s')"
    by (simp add: dfs_open_def seqM_apply hash_lookup_def)
  from open_entry_refs [OF assms(2,3) this] show ?thesis by simp
qed

text \<open>
  C38. Creating a file whose entry already has metadata never returns: they are released before
  they are copied from, and used again.
\<close>

theorem create_again_faults:
  assumes "state_wf s" and "pes s a = Some pe" and "pe_usermd pe = Some d" and "pe_fd pe \<noteq> - 1"
    and "os_fchmod E (pe_fd pe) mode (world s) = (None, w)" and "os_fstat E (pe_fd pe) w = (Inr st, w')"
  shows "\<exists>f. create_opened E path mode exclude a s = Inl f"
proof -
  let ?s = "s\<lparr>pes := (pes s)(a \<mapsto> pe\<lparr>pe_exclude := exclude\<rparr>), world := w'\<rparr>"
  have own: "owns ?s = owns s" using assms(2) by (auto simp: owns_def fun_eq_iff)
  have "state_wf ?s"
    using assms(1,2) own unfolding state_wf_def hash_wf_def path_wf_def dict_wf_def fresh_wf_def
    by (auto simp: insert_absorb)
  moreover have "owns ?s a d" using assms(2,3) by (simp add: owns_def)
  ultimately have "\<exists>f. create_md E path mode exclude a st d ?s = Inl f" by (rule create_md_shared)
  then show ?thesis
    using assms by (simp add: create_opened_def seqM_apply get_pe_def upd_pe_def ext_def)
qed

text \<open>
  A file that is opened for writing only, or for reading and writing, and not for appending,
  is opened by \<open>open_creat\<close> and truncated, whether the caller asked for \<open>O_TRUNC\<close> or not.
\<close>

theorem open_for_writing_creates:
  assumes "flags AND O_ACCMODE \<noteq> O_RDONLY" and "flags AND O_ACCMODE \<noteq> O_ACCMODE"
    and "flags AND O_APPEND = 0"
  shows "open_fn E (get_mode_from_flags flags) = open_creat E \<and>
     open_flags (get_mode_from_flags flags) AND O_TRUNC \<noteq> 0"
  using open_for_writing_truncates [OF assms] by (simp add: open_fn_def)

lemma open_takes_reference_witness:
  "\<exists>s'. dfs_open sim_env ''/a'' 0 sim_state = Inr ((0, Some 0), s') \<and> refs 0 1 s'"
proof -
  have "\<exists>s'. dfs_open sim_env ''/a'' 0 sim_state = Inr ((0, Some 0), s')"
    by (subst open_cached [of _ _ 0 sim_pe]) (simp_all add: sim_state_def sim_pe_def SEM_VALUE_MAX_def)
  then obtain s' where r: "dfs_open sim_env ''/a'' 0 sim_state = Inr ((0, Some 0), s')" by blast
  have "refs 0 0 sim_state" by (simp add: refs_def sim_state_def sim_pe_def)
  with r open_takes_reference [OF _ this _ r] show ?thesis by (simp add: sim_state_def SEM_VALUE_MAX_def)
qed

lemma create_again_faults_witness:
  "\<exists>f. create_opened sim_env ''/a'' 0x81A4 False 0 sim_state = Inl f"
  by (rule create_again_faults [OF sim_state_wf, where pe = sim_pe and d = 1 and st = sim_stat
        and w = sim_world and w' = sim_world])
     (simp_all add: sim_defs sim_state_def sim_pe_def)

lemma open_for_writing_creates_witness:
  "open_fn sim_env (get_mode_from_flags 1) = open_creat sim_env"
  using open_for_writing_creates [of 1 sim_env]
  by simp

end
