(* ===== verification/Release.thy ===== *)
theory Release
  imports Open
begin

text \<open>
  Closing a file (\<open>src/release.c\<close>): \<open>dfs_release\<close> gives the reference back and, unless the
  file was opened for reading or is excluded, sends the cache file to the cloud, compressed
  if the configuration says so.  The label \<open>err\<close> is also the way out of a successful
  upload; \<open>release_err\<close> is everything behind it.
\<close>

section \<open>The operations\<close>

text \<open>The descriptor of the compressed file and its size; 0 means: send it uncompressed.\<close>

definition compress_before_sending ::
  "('w, 'm) env_scheme \<Rightarrow> nat \<Rightarrow> nat \<Rightarrow> addr \<Rightarrow> ('w, int \<times> 64 word) dprog" where
  "compress_before_sending E fpsrc fpdst dict =
     seqM (getS gconf) (\<lambda>conf.
     seqM (zip E fpsrc fpdst (c_zlib_level conf)) (\<lambda>zrc.
     if Z_OK \<noteq> zrc then ret (0, 0)
     else
       seqM (ext (\<lambda>w. ((), os_fflush E fpdst w))) (\<lambda>_.
       seqM (ask (os_fileno E fpdst)) (\<lambda>zfd.
       if zfd = - 1 then ret (0, 0)
       else
         seqM (ext (os_fstat E zfd)) (\<lambda>r.
         case r of Inl _ \<Rightarrow> ret (0, 0)
         | Inr zst \<Rightarrow>
             seqM (ext (os_rewind E zfd)) (\<lambda>_.
             seqM (dict_call (\<lambda>d. d_dict_update E d ''compression'' ''zlib'') dict) (\<lambda>rc.
             if rc \<noteq> DPL_SUCCESS then ret (0, 0) else ret (zfd, st_size zst))))))))"

text \<open>The label \<open>exc\<close>, and the label \<open>err\<close> with the variables it looks at.\<close>

definition release_exc :: "addr \<Rightarrow> int \<Rightarrow> ('w, int) dprog" where
  "release_exc a r =
     seqM (upd_pe a (\<lambda>pe. pe\<lparr>pe_flag := FLAG_CLEAN\<rparr>)) (\<lambda>_.
     seqM (pentry_unlock a) (\<lambda>_. ret r))"

record release_vars =
  rv_dict :: "addr option"
  rv_vfile :: "nat option"
  rv_fpsrc :: "nat option"
  rv_fpdst :: "nat option"
  rv_zlocal :: "string option"

definition no_vars :: release_vars where
  "no_vars = \<lparr>rv_dict = None, rv_vfile = None, rv_fpsrc = None, rv_fpdst = None, rv_zlocal = None\<rparr>"

definition release_err ::
  "('w, 'm) env_scheme \<Rightarrow> addr option \<Rightarrow> release_vars \<Rightarrow> int \<Rightarrow> ('w, int) dprog" where
  "release_err E fh v r =
     seqM (dict_free_opt (rv_dict v)) (\<lambda>_.
     seqM (case rv_vfile v of None \<Rightarrow> ret r
           | Some f \<Rightarrow> seqM (ext (d_close E f)) (\<lambda>rc. ret (if rc \<noteq> DPL_SUCCESS then - 1 else r))) (\<lambda>r.
     seqM (close_streams E (rv_fpsrc v) None ()) (\<lambda>_.
     seqM (derefM NullDeref fh) (\<lambda>a.
     seqM (get_pe a) (\<lambda>pe.
     seqM (ext (os_rewind E (pe_fd pe))) (\<lambda>_.
     seqM (close_streams E None (rv_fpdst v) ()) (\<lambda>_.
     seqM (case rv_zlocal v of None \<Rightarrow> ret None | Some z \<Rightarrow> ext (os_unlink E z)) (\<lambda>_.
     release_exc a r))))))))"

text \<open>From the flags of the transfer on: \<open>fd\<close> and \<open>size\<close> are those of the data to send.\<close>

definition release_send ::
  "('w, 'm) env_scheme \<Rightarrow> string \<Rightarrow> addr \<Rightarrow> release_vars \<Rightarrow> addr \<Rightarrow> int \<Rightarrow> 64 word \<Rightarrow> ('w, int) dprog" where
  "release_send E path a v dict fd size' =
     seqM (getS gconf) (\<lambda>conf.
     seqM (sptr_get (c_encryption_method conf)) (\<lambda>method.
     let flags = d_flag_creat E OR d_flag_md5 E
           OR (if strncasecmp_eq method ''aes'' 3 then d_flag_encrypt E else 0) in
     seqM (get_dict dict) (\<lambda>d.
     seqM (ext (d_openwrite E path flags d size')) (\<lambda>(rc, vfile).
     let v = v\<lparr>rv_vfile := vfile\<rparr> in
     if rc \<noteq> DPL_SUCCESS then release_err E (Some a) v (- 1)
     else
       seqM (derefM NullDeref vfile) (\<lambda>vf.
       seqM (read_write_all_vfile E fd vf) (\<lambda>r.
       if r = - 1 then release_err E (Some a) v (- 1)
       else release_err E (Some a) v 0))))))"

text \<open>The compression, with the file uncompressed where its target cannot be opened.\<close>

definition release_compress ::
  "('w, 'm) env_scheme \<Rightarrow> string \<Rightarrow> addr \<Rightarrow> string \<Rightarrow> release_vars \<Rightarrow> addr \<Rightarrow> int \<Rightarrow> 64 word \<Rightarrow>
   ('w, int) dprog" where
  "release_compress E path a local v dict fd size' =
     (let zlocal = fmt (local @ ''.tmp'');
          v = v\<lparr>rv_zlocal := Some zlocal\<rparr> in
      seqM (ext (os_fopen E local ''r'')) (\<lambda>r.
      case r of Inl _ \<Rightarrow> release_err E (Some a) v (- 1)
      | Inr fpsrc \<Rightarrow>
          let v = v\<lparr>rv_fpsrc := Some fpsrc\<rparr> in
          seqM (ext (os_fopen E zlocal ''w+'')) (\<lambda>r.
          case r of Inl _ \<Rightarrow> release_send E path a v dict fd size'
          | Inr fpdst \<Rightarrow>
              let v = v\<lparr>rv_fpdst := Some fpdst\<rparr> in
              seqM (compress_before_sending E fpsrc fpdst dict) (\<lambda>(zfd, zsize).
              if zfd < 0 then release_err E (Some a) v (- 1)
              else if zfd > 0 then release_send E path a v dict zfd zsize
              else release_send E path a v dict fd size'))))"

definition release_upload ::
  "('w, 'm) env_scheme \<Rightarrow> string \<Rightarrow> addr \<Rightarrow> stat \<Rightarrow> addr \<Rightarrow> ('w, int) dprog" where
  "release_upload E path a st dict =
     seqM (fill_metadata_from_stat E dict st) (\<lambda>_.
     seqM (get_pe a) (\<lambda>pe.
     seqM (getS gconf) (\<lambda>conf.
     seqM (sptr_show (c_cache_dir conf)) (\<lambda>cache.
     let local = fmt (cache @ ''/'' @ path);
         v = no_vars\<lparr>rv_dict := Some dict\<rparr> in
     seqM (sptr_get (c_compression_method conf)) (\<lambda>method.
     if strncasecmp_eq method ''zlib'' 4
     then release_compress E path a local v dict (pe_fd pe) (st_size st)
     else release_send E path a v dict (pe_fd pe) (st_size st))))))"

definition dfs_release ::
  "('w, 'm) env_scheme \<Rightarrow> string \<Rightarrow> addr option \<Rightarrow> 32 word \<Rightarrow> ('w, int) dprog" where
  "dfs_release E path fh flags =
     (case fh of None \<Rightarrow> release_err E None no_vars (- 1)
      | Some a \<Rightarrow>
          seqM (get_pe a) (\<lambda>pe.
          if pe_fd pe < 0 then release_err E fh no_vars (- 1)
          else
            seqM (ext (os_fstat E (pe_fd pe))) (\<lambda>r.
            case r of Inl _ \<Rightarrow> release_err E fh no_vars (- 1)
            | Inr st \<Rightarrow>
                seqM (pentry_dec_refcount a) (\<lambda>_.
                if flags AND O_ACCMODE = O_RDONLY then ret 0
                else if pe_exclude pe then release_exc a 0
                else
                  seqM (dict_new E) (\<lambda>new.
                  case new of None \<Rightarrow> release_err E fh no_vars (- 1)
                  | Some dict \<Rightarrow> release_upload E path a st dict)))))"

section \<open>The invariant\<close>

lemma keeps_wf_release_err:
  "set_option (rv_dict v) \<subseteq> D \<Longrightarrow> keeps (spare D) (release_err E fh v r)"
  unfolding release_err_def release_exc_def
  by (intro keeps_intro wf_intro keeps_wf_dict_free_opt keeps_wf_upd_pe) simp_all

lemma keeps_wf_release_send:
  "set_option (rv_dict v) \<subseteq> D \<Longrightarrow> keeps (spare D) (release_send E path a v d fd n)"
  unfolding release_send_def Let_def
  by (intro keeps_intro wf_intro keeps_wf_release_err) simp_all

lemma keeps_wf_compress [wf_intro]: "keeps (spare D) (compress_before_sending E f g d)"
  unfolding compress_before_sending_def by (intro keeps_intro wf_intro)

lemma keeps_wf_release_upload:
  "d \<in> D \<Longrightarrow> keeps (spare D) (release_upload E path a st d)"
  unfolding release_upload_def release_compress_def Let_def
  by (intro keeps_intro wf_intro keeps_wf_release_err keeps_wf_release_send) (simp_all add: no_vars_def)

lemma keeps_wf_release [wf_intro]: "keeps (spare D) (dfs_release E path fh flags)"
  unfolding dfs_release_def release_exc_def
  by (intro keeps_wf_dict_new keeps_intro wf_intro keeps_wf_release_err keeps_wf_release_upload
        keeps_wf_upd_pe) (simp_all add: no_vars_def)

section \<open>What a release leaves behind\<close>

definition clean :: "addr \<Rightarrow> 'w gstate \<Rightarrow> bool" where
  "clean a s \<longleftrightarrow> (\<exists>pe. pes s a = Some pe \<and> pe_flag pe = FLAG_CLEAN \<and> \<not> pe_mutex pe)"

lemma release_exc_clean: "ends (\<lambda>_. True) (release_exc a r) (\<lambda>r' s. clean a s \<and> r' = r)"
  by (auto simp: ends_def release_exc_def upd_pe_def seqM_apply clean_def pentry_unlock_def
      pentry_gen_unlock_def split: option.splits)

lemma ends_last: "(\<And>a. ends (\<lambda>_. True) (k a) Q) \<Longrightarrow> ends P (seqM m k) Q"
  by (rule ends_seqM [where R = "\<lambda>_ _. True"]) (simp_all add: ends_def)

lemma release_err_clean: "ends (\<lambda>_. True) (release_err E (Some a) v r) (\<lambda>_. clean a)"
  unfolding release_err_def derefM_simps seqM_ret
  by (intro ends_last, rule ends_weaken [OF release_exc_clean]) simp

lemma release_send_clean: "ends (\<lambda>_. True) (release_send E path a v d fd n) (\<lambda>_. clean a)"
  unfolding release_send_def Let_def
  by (intro ends_last ends_branch release_err_clean)

lemma release_upload_clean: "ends (\<lambda>_. True) (release_upload E path a st d) (\<lambda>_. clean a)"
  unfolding release_upload_def release_compress_def Let_def
  by (intro ends_last ends_branch release_err_clean release_send_clean)

text \<open>Closing a file opened for writing marks it clean, whether the upload succeeded or not.\<close>

text \<open>
  Whatever a release of a file open for writing meets, once it returns the entry counts as
  clean and is not locked, also if nothing was sent.
\<close>

theorem release_leaves_clean:
  assumes "flags AND O_ACCMODE \<noteq> O_RDONLY" "dfs_release E path (Some a) flags s = Inr (r, s')"
  shows "clean a s'"
proof -
  have "ends (\<lambda>_. True) (dfs_release E path (Some a) flags) (\<lambda>_. clean a)"
    unfolding dfs_release_def option.case if_not_P [OF assms(1)]
    by (intro ends_last ends_branch release_err_clean release_upload_clean
          ends_weaken [OF release_exc_clean]) simp
  from endsD [OF this _ assms(2)] show ?thesis by simp
qed

lemma release_rdonly:
  assumes "pes s a = Some pe" "0 \<le> pe_fd pe" "pe_refcount pe = Suc n"
    "flags AND O_ACCMODE = O_RDONLY" "os_fstat E (pe_fd pe) (world s) = (Inr st, w)"
  shows "dfs_release E path (Some a) flags s =
     Inr (0, s\<lparr>world := w, pes := (pes s)(a \<mapsto> pe\<lparr>pe_refcount := n\<rparr>)\<rparr>)"
  using assms
  by (simp add: dfs_release_def get_pe_def seqM_apply ext_def pentry_dec_refcount_def upd_pe_def)

lemma release_no_entry: "dfs_release E path None flags s = Inl NullDeref"
  by (simp add: dfs_release_def release_err_def no_vars_def dict_free_opt_def close_streams_def)

text \<open>With a descriptor that cannot be used, the reference is not given back.\<close>

lemma release_bad_fd:
  assumes "refs a n s" "pes s a = Some pe" "pe_fd pe < 0" "dfs_release E path (Some a) flags s = Inr (r, s')"
  shows "r = - 1" "refs a n s'"
proof -
  have run: "release_err E (Some a) no_vars (- 1) s = Inr (r, s')"
    using assms by (simp add: dfs_release_def get_pe_def seqM_apply)
  have "keeps (refs a n) (release_err E (Some a) no_vars (- 1))"
    unfolding release_err_def release_exc_def pentry_unlock_def pentry_gen_unlock_def
    by (intro keeps_intro refs_intro keeps_refs_upd_pe) simp_all
  from keepsD [OF this assms(1) run] show "refs a n s'" .
  have "ends (\<lambda>_. True) (release_err E (Some a) no_vars (- 1)) (\<lambda>r' _. r' = - 1)"
    unfolding release_err_def no_vars_def release_vars.select_convs option.case derefM_simps seqM_ret
    by (intro ends_last, rule ends_weaken [OF release_exc_clean]) simp
  from endsD [OF this _ run] show "r = - 1" by simp
qed

section \<open>Properties\<close>

text \<open>
  C23. Opening a file of the cache for reading and releasing it is neutral: the entry has the
  references it had, and only its placement is now the cache.
\<close>

theorem open_release_balanced:
  assumes "ghash s path = Some a" and "pes s a = Some pe" and "0 \<le> pe_fd pe"
    and "pe_refcount pe < SEM_VALUE_MAX" and "flags AND O_ACCMODE = O_RDONLY"
    and "flags AND O_APPEND = 0" and "flags AND O_CREAT = 0"
    and "os_fstat E (pe_fd pe) (world s) = (Inr st, w)"
  shows "\<exists>s1. dfs_open E path flags s = Inr ((0, Some a), s1) \<and>
     dfs_release E path (Some a) flags s1 =
       Inr (0, s\<lparr>world := w, pes := (pes s)(a \<mapsto> pe\<lparr>pe_ondisk := FILE_LOCAL\<rparr>)\<rparr>)"
proof -
  let ?pe = "pe\<lparr>pe_refcount := Suc (pe_refcount pe), pe_ondisk := FILE_LOCAL\<rparr>"
  let ?s = "s\<lparr>pes := (pes s)(a \<mapsto> ?pe)\<rparr>"
  have "dfs_release E path (Some a) flags ?s =
     Inr (0, ?s\<lparr>world := w, pes := (pes ?s)(a \<mapsto> ?pe\<lparr>pe_refcount := pe_refcount pe\<rparr>)\<rparr>)"
    by (rule release_rdonly) (use assms in simp_all)
  then show ?thesis
    using open_cached [OF assms(1-7), of E] by simp
qed

lemma open_release_balanced_witness:
  "\<exists>s1. dfs_open sim_env ''/a'' 0 sim_state = Inr ((0, Some 0), s1) \<and>
     dfs_release sim_env ''/a'' (Some 0) 0 s1 =
       Inr (0, sim_state\<lparr>pes := [0 \<mapsto> sim_pe\<lparr>pe_ondisk := FILE_LOCAL\<rparr>]\<rparr>)"
  using open_release_balanced [of sim_state "''/a''" 0 sim_pe 0 sim_env sim_stat sim_world]
  by (simp add: sim_defs sim_state_def sim_pe_def SEM_VALUE_MAX_def)

lemma release_leaves_clean_witness:
  "\<exists>r s'. dfs_release sim_env ''/a'' (Some 0) 1 (sim_state\<lparr>pes := [0 \<mapsto> sim_pe\<lparr>pe_fd := - 1\<rparr>]\<rparr>) = Inr (r, s') \<and>
     clean 0 s'"
proof -
  let ?s = "sim_state\<lparr>pes := [0 \<mapsto> sim_pe\<lparr>pe_fd := - 1\<rparr>]\<rparr>"
  have "\<exists>r s'. dfs_release sim_env ''/a'' (Some 0) 1 ?s = Inr (r, s')"
    by (simp add: dfs_release_def release_err_def release_exc_def no_vars_def close_streams_def
        dict_free_opt_def seqM_apply state_ops sim_state_def sim_pe_def sim_defs lock_runs)
  with release_leaves_clean [of 1 sim_env "''/a''" 0 ?s] show ?thesis
    by auto
qed

section \<open>What a release sends\<close>

text \<open>
  What the calls document, for the descriptor \<open>fd\<close>: \<open>left\<close> is what is unread of the file,
  \<open>sent\<close> the bytes of the object that is being written, \<open>attrs\<close> its metadata.  Opening an object
  for writing starts it anew with the given metadata; the other calls leave alone what is not
  theirs.
\<close>

definition uploads ::
  "('w, 'm) env_scheme \<Rightarrow> int \<Rightarrow> ('w \<Rightarrow> string) \<Rightarrow> ('w \<Rightarrow> string) \<Rightarrow> ('w \<Rightarrow> dict) \<Rightarrow> bool" where
  "uploads E fd left sent attrs \<longleftrightarrow>
     reads E fd left sent \<and> (\<forall>v. sends E v left sent) \<and>
     (\<forall>n w. attrs (snd (os_read E fd n w)) = attrs w) \<and>
     (\<forall>v buf w. attrs (snd (d_write E v buf w)) = attrs w) \<and>
     (\<forall>p flags d n w v w'. d_openwrite E p flags d n w = ((DPL_SUCCESS, v), w') \<longrightarrow>
        left w' = left w \<and> sent w' = [] \<and> attrs w' = d) \<and>
     (\<forall>w. left (snd (os_fstat E fd w)) = left w) \<and> (\<forall>w. left (snd (os_alloc E w)) = left w) \<and>
     (\<forall>d k x w. left (snd (d_dict_update E d k x w)) = left w) \<and>
     (\<forall>v w. sent (snd (d_close E v w)) = sent w \<and> attrs (snd (d_close E v w)) = attrs w) \<and>
     (\<forall>fd w. sent (snd (os_rewind E fd w)) = sent w \<and> attrs (snd (os_rewind E fd w)) = attrs w)"

lemma uploadsD:
  assumes "uploads E fd left sent attrs"
  shows "reads E fd left sent" "sends E v left sent"
    "attrs (snd (os_read E fd n w)) = attrs w" "attrs (snd (d_write E v buf w)) = attrs w"
    "d_openwrite E p flags d m w = ((DPL_SUCCESS, vf), w') \<Longrightarrow> left w' = left w \<and> sent w' = [] \<and> attrs w' = d"
    "left (snd (os_fstat E fd w)) = left w" "left (snd (os_alloc E w)) = left w"
    "left (snd (d_dict_update E d k x w)) = left w"
    "sent (snd (d_close E v w)) = sent w" "attrs (snd (d_close E v w)) = attrs w"
    "sent (snd (os_rewind E fd' w)) = sent w" "attrs (snd (os_rewind E fd' w)) = attrs w"
  using assms by (simp_all add: uploads_def)

text \<open>An invariant of the world through a call.\<close>

lemma keeps_ext_frame: "(\<And>w. P (snd (f w)) = P w) \<Longrightarrow> keeps (\<lambda>s. P (world s)) (ext f)"
  by (rule keepsI) (auto simp: ext_def split_beta)

lemma keeps_still:
  "keeps (\<lambda>s. P (world s)) (dict_free_opt p)" "keeps (\<lambda>s. P (world s)) (set_dict a d)"
  "keeps (\<lambda>s. P (world s)) (get_dict a)" "keeps (\<lambda>s. P (world s)) (get_pe a)"
  "keeps (\<lambda>s. P (world s)) (upd_pe a f)"
  by (rule keepsI, simp add: dict_free_opt_def dict_free_def set_dict_def get_dict_def get_pe_def upd_pe_def
      split: option.splits; auto)+

text \<open>A view of the world that is the same until the data are sent.\<close>

definition unmoved :: "('w, 'm) env_scheme \<Rightarrow> int \<Rightarrow> ('w \<Rightarrow> 'v) \<Rightarrow> bool" where
  "unmoved E fd look \<longleftrightarrow> (\<forall>w. look (snd (os_fstat E fd w)) = look w) \<and>
     (\<forall>w. look (snd (os_alloc E w)) = look w) \<and> (\<forall>d k x w. look (snd (d_dict_update E d k x w)) = look w)"

lemma uploads_unmoved: "uploads E fd left sent attrs \<Longrightarrow> unmoved E fd left"
  by (simp add: uploads_def unmoved_def)

lemma fill_metadata_unmoved:
  assumes "unmoved E fd look"
  shows "keeps (\<lambda>s. look (world s) = x) (fill_metadata_from_stat E a st)"
  using assms
  unfolding fill_metadata_from_stat_def assign_meta_to_dict_def dict_call_def unmoved_def
  by (intro keeps_intro keeps_still [where P = "\<lambda>w. look w = x"] keeps_ext_frame [where P = "\<lambda>w. look w = x"]) simp_all

lemma read_write_attrs:
  assumes "uploads E fd left sent attrs"
  shows "keeps (\<lambda>s. attrs (world s) = x) (read_write_all_vfile E fd vf)"
  unfolding read_write_all_vfile_def read_write_body_def
  by (intro keeps_intro keeps_ext_frame [where P = "\<lambda>w. attrs w = x"])
     (simp_all add: uploadsD(3,4) [OF assms])

lemma release_err_code:
  assumes "release_err E (Some a) v r s = Inr (r', s')"
  shows "r' = r \<or> r' = - 1"
  using assms
  by (auto simp: release_err_def release_exc_def elim!: seqM_Inr split: option.splits if_splits)

text \<open>The way out changes neither the object nor its metadata, if closing and removing files does not.\<close>

definition cleans_up ::
  "('w, 'm) env_scheme \<Rightarrow> release_vars \<Rightarrow> ('w \<Rightarrow> string) \<Rightarrow> ('w \<Rightarrow> dict) \<Rightarrow> bool" where
  "cleans_up E v sent attrs \<longleftrightarrow>
     (\<forall>f\<in>set_option (rv_fpsrc v) \<union> set_option (rv_fpdst v). \<forall>w.
        sent (os_fclose E f w) = sent w \<and> attrs (os_fclose E f w) = attrs w) \<and>
     (\<forall>z\<in>set_option (rv_zlocal v). \<forall>w.
        sent (snd (os_unlink E z w)) = sent w \<and> attrs (snd (os_unlink E z w)) = attrs w)"

lemma release_err_frame:
  assumes u: "uploads E fd left sent attrs" and v: "cleans_up E v sent attrs"
  shows "keeps (\<lambda>s. sent (world s) = x \<and> attrs (world s) = y) (release_err E fh v r)"
proof -
  let ?P = "\<lambda>w. sent w = x \<and> attrs w = y"
  note frame = keeps_ext_frame [where P = ?P] keeps_still [where P = ?P]
  have close: "keeps (\<lambda>s. ?P (world s)) (case rv_vfile v of None \<Rightarrow> ret r
      | Some f \<Rightarrow> seqM (ext (d_close E f)) (\<lambda>rc. ret (if rc \<noteq> DPL_SUCCESS then - 1 else r)))"
    by (intro keeps_intro frame) (simp add: uploadsD(9,10) [OF u])
  have streams: "keeps (\<lambda>s. ?P (world s)) (close_streams E (rv_fpsrc v) None ())"
    "keeps (\<lambda>s. ?P (world s)) (close_streams E None (rv_fpdst v) ())"
    using v unfolding close_streams_def cleans_up_def by (intro keeps_intro frame; simp)+
  have unlink: "keeps (\<lambda>s. ?P (world s)) (case rv_zlocal v of None \<Rightarrow> ret None | Some z \<Rightarrow> ext (os_unlink E z))"
    using v unfolding cleans_up_def by (intro keeps_intro frame; simp)
  have rewind: "keeps (\<lambda>s. ?P (world s)) (ext (os_rewind E fd'))" for fd'
    by (intro frame) (simp add: uploadsD(11,12) [OF u])
  show ?thesis
    unfolding release_err_def release_exc_def pentry_unlock_def pentry_gen_unlock_def
    by (intro keeps_seqM close streams unlink rewind frame keeps_derefM keeps_ret)
qed

lemma release_send_delivers:
  fixes s :: "'w gstate"
  assumes u: "uploads E fd left sent attrs" and v: "\<And>f. cleans_up E (v\<lparr>rv_vfile := f\<rparr>) sent attrs"
    and d: "dicts s dict = Some md"
    and run: "release_send E path a v dict fd n s = Inr (0, s')"
  shows "sent (world s') = left (world s) \<and> attrs (world s') = md"
proof -
  define flags where "flags = (\<lambda>m. d_flag_creat E OR d_flag_md5 E
    OR (if strncasecmp_eq m ''aes'' 3 then d_flag_encrypt E else 0))"
  from run d obtain m rc vfile w where
    o: "d_openwrite E path (flags m) md n (world s) = ((rc, vfile), w)"
    and k: "(if rc \<noteq> DPL_SUCCESS then release_err E (Some a) (v\<lparr>rv_vfile := vfile\<rparr>) (- 1)
      else seqM (derefM NullDeref vfile) (\<lambda>vf. seqM (read_write_all_vfile E fd vf) (\<lambda>r.
        if r = - 1 then release_err E (Some a) (v\<lparr>rv_vfile := vfile\<rparr>) (- 1)
        else release_err E (Some a) (v\<lparr>rv_vfile := vfile\<rparr>) 0))) (s\<lparr>world := w\<rparr>) = Inr (0, s')"
    unfolding release_send_def Let_def flags_def
    by (elim seqM_Inr) (auto simp: sptr_get_def get_dict_def ext_def split: sptr.splits prod.splits)
  have rc: "rc = DPL_SUCCESS" using k release_err_code by fastforce
  with k obtain vf r s1 where
    rw: "read_write_all_vfile E fd vf (s\<lparr>world := w\<rparr>) = Inr (r, s1)"
    and e: "(if r = - 1 then release_err E (Some a) (v\<lparr>rv_vfile := vfile\<rparr>) (- 1)
        else release_err E (Some a) (v\<lparr>rv_vfile := vfile\<rparr>) 0) s1 = Inr (0, s')"
    by (auto elim!: seqM_Inr simp: derefM_def split: option.splits)
  have r: "r \<noteq> - 1" using e release_err_code by fastforce
  have open': "left w = left (world s) \<and> sent w = [] \<and> attrs w = md"
    using uploadsD(5) [OF u] o rc by blast
  have "sent (world s1) = sent w @ left w"
  proof -
    obtain q t where "read_write_all_vfile E fd vf (s\<lparr>world := w\<rparr>) = Inr (q, t)"
      "q = 0 \<and> sent (world t) = sent w @ left w \<or> q = - 1"
      using send_file_total [OF uploadsD(1) [OF u] uploadsD(2) [OF u], where s = "s\<lparr>world := w\<rparr>" and vfile = vf] by auto
    with rw r show ?thesis by auto
  qed
  moreover have "attrs (world s1) = md"
    using keepsD [OF read_write_attrs [OF u] _ rw] open' by simp
  moreover from r e have err: "release_err E (Some a) (v\<lparr>rv_vfile := vfile\<rparr>) 0 s1 = Inr (0, s')" by simp
  note keepsD [OF release_err_frame [OF u v, where x = "sent (world s1)" and y = "attrs (world s1)"] _ err]
  ultimately show ?thesis using open' by simp
qed

text \<open>What comes before the data are sent: their metadata, and the choice of how to send them.\<close>

lemma release_reaches:
  fixes s :: "'w gstate"
  assumes "dict_updates E" and "pes s a = Some pe" and "0 \<le> pe_fd pe" and "\<not> pe_exclude pe"
    and "flags AND O_ACCMODE \<noteq> O_RDONLY" and "c_compression_method (gconf s) = Live m"
    and "os_fstat E (pe_fd pe) (world s) = (Inr st, w)"
    and "dfs_release E path (Some a) flags s = Inr (0, s')"
  obtains s2 d local where "\<And>cache. c_cache_dir (gconf s) = Live cache \<Longrightarrow> local = fmt (cache @ ''/'' @ path)"
    and "dicts s2 d = Some (md_of_stat st)"
    and "\<And>look :: 'w \<Rightarrow> string. unmoved E (pe_fd pe) look \<Longrightarrow> look (world s2) = look (world s)"
    and "(if strncasecmp_eq m ''zlib'' 4
       then release_compress E path a local (no_vars\<lparr>rv_dict := Some d\<rparr>) d (pe_fd pe) (st_size st)
       else release_send E path a (no_vars\<lparr>rv_dict := Some d\<rparr>) d (pe_fd pe) (st_size st)) s2 = Inr (0, s')"
proof -
  let ?pe = "pe\<lparr>pe_refcount := pe_refcount pe - 1\<rparr>"
  let ?s = "s\<lparr>world := w, pes := (pes s)(a \<mapsto> ?pe)\<rparr>"
  from assms(2-5,7,8) have k: "seqM (dict_new E) (\<lambda>new.
      case new of None \<Rightarrow> release_err E (Some a) no_vars (- 1)
      | Some dict \<Rightarrow> release_upload E path a st dict) ?s = Inr (0, s')"
    by (auto simp: dfs_release_def get_pe_def seqM_apply ext_def pentry_dec_refcount_def upd_pe_def
        split: if_splits)
  obtain ok w1 where al: "os_alloc E w = (ok, w1)" by fastforce
  have ok: ok using k al release_err_code [of E a no_vars "- 1" "?s\<lparr>world := w1\<rparr>" 0 s']
    by (auto simp: dict_new_def seqM_apply ext_def split: if_splits)
  let ?d = "fresh s"
  let ?s1 = "?s\<lparr>world := w1, dicts := (dicts s)(?d \<mapsto> Map.empty), fresh := Suc ?d\<rparr>"
  from k al ok have up: "release_upload E path a st ?d ?s1 = Inr (0, s')"
    by (simp add: dict_new_def own_dict_def seqM_apply ext_def)
  obtain s2 where f: "fill_metadata_from_stat E ?d st ?s1 = Inr ((), s2)"
    "dicts s2 = (dicts ?s1)(?d \<mapsto> Map.empty ++ md_of_stat st)"
    "s2 = ?s1\<lparr>world := world s2, dicts := dicts s2\<rparr>"
    using fill_metadata_from_stat_run [OF assms(1), of ?s1 ?d Map.empty st] by auto
  have pes: "pes s2 = pes ?s1" "gconf s2 = gconf s" by (subst f(3), simp)+
  obtain local where local: "\<And>cache. c_cache_dir (gconf s) = Live cache \<Longrightarrow> local = fmt (cache @ ''/'' @ path)"
    and run: "(if strncasecmp_eq m ''zlib'' 4
       then release_compress E path a local (no_vars\<lparr>rv_dict := Some ?d\<rparr>) ?d (pe_fd pe) (st_size st)
       else release_send E path a (no_vars\<lparr>rv_dict := Some ?d\<rparr>) ?d (pe_fd pe) (st_size st)) s2 = Inr (0, s')"
    using up f(1) pes assms(6)
    by (cases "c_cache_dir (gconf s)")
       (auto simp: release_upload_def seqM_apply get_pe_def Let_def sptr_show_def cong: if_cong)
  show ?thesis
  proof (rule that [OF local _ _ run])
    show "dicts s2 ?d = Some (md_of_stat st)" using f(2) by simp
    show "look (world s2) = look (world s)" if u: "unmoved E (pe_fd pe) look" for look :: "'w \<Rightarrow> string"
    proof -
      have "look (world s2) = look w1"
        using keepsD [OF fill_metadata_unmoved [OF u] _ f(1), of "look w1"] by simp
      also have "\<dots> = look (world s)"
        using u [unfolded unmoved_def] al assms(7) by (metis snd_conv)
      finally show ?thesis .
    qed
  qed
qed

lemma release_delivers:
  fixes s :: "'w gstate"
  assumes u: "uploads E (pe_fd pe) left sent attrs" and "dict_updates E"
    and "pes s a = Some pe" and "0 \<le> pe_fd pe" and "\<not> pe_exclude pe"
    and "flags AND O_ACCMODE \<noteq> O_RDONLY" and "c_compression_method (gconf s) = Live m" and "\<not> strncasecmp_eq m ''zlib'' 4"
    and "os_fstat E (pe_fd pe) (world s) = (Inr st, w)"
    and "dfs_release E path (Some a) flags s = Inr (0, s')"
  shows "sent (world s') = left (world s) \<and> attrs (world s') = md_of_stat st"
proof (rule release_reaches [OF assms(2-7,9,10)])
  fix s2 d local
  assume d: "dicts s2 d = Some (md_of_stat st)"
    and l: "\<And>look :: 'w \<Rightarrow> string. unmoved E (pe_fd pe) look \<Longrightarrow> look (world s2) = look (world s)"
    and run: "(if strncasecmp_eq m ''zlib'' 4
       then release_compress E path a local (no_vars\<lparr>rv_dict := Some d\<rparr>) d (pe_fd pe) (st_size st)
       else release_send E path a (no_vars\<lparr>rv_dict := Some d\<rparr>) d (pe_fd pe) (st_size st)) s2 = Inr (0, s')"
  have "cleans_up E ((no_vars\<lparr>rv_dict := Some d\<rparr>)\<lparr>rv_vfile := f\<rparr>) sent attrs" for f
    by (simp add: cleans_up_def no_vars_def)
  from release_send_delivers [OF u this d] run assms(8) l [OF uploads_unmoved [OF u]]
  show ?thesis by simp
qed

text \<open>
  C2. A release that succeeds has sent the file: when \<open>dfs_release\<close> of a file open for writing
  returns 0 without compression, and the file is not excluded, the object in the cloud holds
  exactly what was left of the file from the position of its descriptor, and its metadata are
  the attributes of the file.
\<close>

theorem release_sends_file:
  fixes s :: "'w gstate"
  assumes "uploads E (pe_fd pe) left sent attrs" and "dict_updates E"
    and "pes s a = Some pe" and "0 \<le> pe_fd pe" and "\<not> pe_exclude pe"
    and "flags AND O_ACCMODE \<noteq> O_RDONLY" and "c_compression_method (gconf s) = Live m" and "\<not> strncasecmp_eq m ''zlib'' 4"
    and "os_fstat E (pe_fd pe) (world s) = (Inr st, w)"
    and "dfs_release E path (Some a) flags s = Inr (0, s')"
  shows "sent (world s') = left (world s) \<and> attrs (world s') = md_of_stat st"
  using assms by (rule release_delivers)

definition sim_attrs :: "sim \<Rightarrow> dict" where
  "sim_attrs w = (case sim_cloud w ''new'' of None \<Rightarrow> Map.empty | Some d \<Rightarrow> d)"

text \<open>
  An example in which the metadata of a new object are kept under one name, and what is left to
  read of descriptor 3 is the whole file.
\<close>

definition sim_send :: "sim env" where
  "sim_send = sim_env\<lparr>d_openwrite := \<lambda>p flags d n w. ((DPL_SUCCESS, Some 1),
     w\<lparr>sim_out := [], sim_cloud := (sim_cloud w)(''new'' \<mapsto> d)\<rparr>),
     os_pwrite := \<lambda>fd buf off w. case sim_pwrite fd buf off w of
       (r, w) \<Rightarrow> (r, w\<lparr>sim_unread := sim_files w 3\<rparr>)\<rparr>"

lemma sim_uploads: "uploads sim_send 3 sim_unread sim_out sim_attrs"
  by (simp add: uploads_def reads_def sends_def sim_send_def sim_defs sim_attrs_def)

definition sim_written :: "sim gstate" where
  "sim_written = sim_state\<lparr>pes := [0 \<mapsto> sim_pe\<lparr>pe_refcount := 1\<rparr>]\<rparr>"

lemma sim_read_write:
  assumes "sim_unread (world s) = ''abcdef''"
  shows "read_write_all_vfile sim_send 3 1 s = Inr (0, s\<lparr>world := (world s)\<lparr>sim_unread := [],
     sim_out := sim_out (world s) @ ''abcdef''\<rparr>\<rparr>)"
proof -
  have "length ''abcdef'' \<le> WRITE_BLOCK_SIZE" by (simp add: WRITE_BLOCK_SIZE_def)
  then have blk: "take WRITE_BLOCK_SIZE ''abcdef'' = ''abcdef''" "drop WRITE_BLOCK_SIZE ''abcdef'' = []"
    using take_all drop_all by blast+
  let ?w = "(world s)\<lparr>sim_unread := [], sim_out := sim_out (world s) @ ''abcdef''\<rparr>"
  have "read_write_body sim_send 3 1 () s = Inr (Inl (), s\<lparr>world := ?w\<rparr>)"
    by (simp add: read_write_body_def seqM_apply ext_def sim_send_def sim_defs assms blk)
  moreover have "read_write_body sim_send 3 1 () (s\<lparr>world := ?w\<rparr>) = Inr (Inr 0, s\<lparr>world := ?w\<rparr>)"
    by (simp add: read_write_body_def seqM_apply ext_def sim_send_def sim_defs)
  ultimately show ?thesis
    unfolding read_write_all_vfile_def by (subst loopM_unfold, simp, subst loopM_unfold, simp)
qed

lemma sim_send_calls:
  "os_fstat sim_send fd w = (Inr sim_stat, w)" "os_alloc sim_send w = (True, w)"
  "d_dict_update sim_send d k v w = ((DPL_SUCCESS, d(k \<mapsto> v)), w)"
  "d_openwrite sim_send p flags d n w = ((DPL_SUCCESS, Some 1),
     w\<lparr>sim_out := [], sim_cloud := (sim_cloud w)(''new'' \<mapsto> d)\<rparr>)"
  "d_close sim_send f w = (DPL_SUCCESS, w)" "os_rewind sim_send fd w = (None, w)"
  by (simp_all add: sim_send_def sim_defs)

lemma sim_release: "\<exists>s'. dfs_release sim_send ''/a'' (Some 0) 1 sim_written = Inr (0, s')"
proof -
  have plain_methods: "\<not> strncasecmp_eq ''NONE'' ''zlib'' 4" "\<not> strncasecmp_eq ''NONE'' ''aes'' 3"
    by (simp_all add: strncasecmp_eq_def tolower_def)
  show ?thesis
    by (simp add: dfs_release_def release_upload_def release_send_def release_err_def release_exc_def no_vars_def
        close_streams_def fill_metadata_from_stat_def assign_meta_to_dict_def dict_call_def dict_new_def
        dict_free_opt_def pentry_dec_refcount_def lock_runs state_ops seqM_apply plain_methods
        sim_written_def sim_state_def sim_pe_def sim_conf_def sim_world_def Let_def
        sim_read_write [unfolded One_nat_def] sim_send_calls)
qed

lemma release_sends_file_witness:
  "\<exists>s'. dfs_release sim_send ''/a'' (Some 0) 1 sim_written = Inr (0, s') \<and>
     sim_out (world s') = ''abcdef'' \<and> sim_attrs (world s') = md_of_stat sim_stat"
proof -
  obtain s' where r: "dfs_release sim_send ''/a'' (Some 0) 1 sim_written = Inr (0, s')"
    using sim_release by blast
  moreover have "dict_updates sim_send" by (simp add: dict_updates_def sim_send_def sim_defs)
  moreover have "\<not> strncasecmp_eq ''NONE'' ''zlib'' 4"
    by (simp add: strncasecmp_eq_def tolower_def)
  moreover have "os_fstat sim_send 3 (world sim_written) = (Inr sim_stat, world sim_written)"
    by (simp add: sim_send_def sim_defs)
  ultimately show ?thesis
    using release_sends_file [of sim_send "sim_pe\<lparr>pe_refcount := 1\<rparr>" sim_unread sim_out sim_attrs
        sim_written 0 1 "''NONE''" sim_stat "world sim_written" "''/a''" s'] sim_uploads
    by (simp add: sim_written_def sim_state_def sim_pe_def sim_conf_def sim_world_def)
qed

end
