(* ===== verification/Dirs.thy ===== *)
theory Dirs
  imports Release
begin

text \<open>
  Names and directories: \<open>src/mkdir.c\<close>, \<open>src/rmdir.c\<close>, \<open>src/unlink.c\<close>, \<open>src/rename.c\<close>,
  \<open>src/readdir.c\<close>, \<open>src/opendir.c\<close> and \<open>src/mknod.c\<close>.  The lemmas show what each operation
  does to the table and what it returns when the cloud refuses.
\<close>

section \<open>mkdir, mknod, opendir, readdir\<close>

definition dfs_mkdir :: "('w, 'm) env_scheme \<Rightarrow> string \<Rightarrow> ('w, int) dprog" where
  "dfs_mkdir E path =
     seqM (dfs_mkdir_timeout E path) (\<lambda>rc.
     if rc \<noteq> DPL_SUCCESS then ret (- 1)
     else
       let finish = (\<lambda>a. seqM (upd_pe a (\<lambda>pe. pe\<lparr>pe_filetype := Some FILE_DIR\<rparr>)) (\<lambda>_. ret 0)) in
       seqM (hash_lookup (Some path)) (\<lambda>found.
       case found of
         Some a \<Rightarrow> finish a
       | None \<Rightarrow>
           seqM (populate_hash E path FILE_DIR) (\<lambda>(r, pep).
           if r = - 1 then ret (- 1) else seqM (derefM NullDeref pep) finish)))"

definition dfs_mknod :: "('w, 'm) env_scheme \<Rightarrow> string \<Rightarrow> ('w, int) dprog" where
  "dfs_mknod E path =
     seqM (dfs_mknod_timeout E path) (\<lambda>rc. ret (if rc \<noteq> DPL_SUCCESS then - 1 else 0))"

text \<open>The handle goes to a temporary of the call and is not closed.\<close>

definition dfs_opendir :: "('w, 'm) env_scheme \<Rightarrow> string \<Rightarrow> ('w, int) dprog" where
  "dfs_opendir E path =
     seqM (dfs_opendir_timeout E path) (\<lambda>(rc, _).
     ret (if rc \<noteq> DPL_SUCCESS then d_status_code E rc else 0))"

text \<open>\<open>fill\<close> is the callback of FUSE; a result other than 0 ends the listing.\<close>

definition readdir_body ::
  "('w, 'm) env_scheme \<Rightarrow> (string \<Rightarrow> 'w \<Rightarrow> int \<times> 'w) \<Rightarrow> nat \<Rightarrow> unit \<Rightarrow> ('w, unit + unit) dprog" where
  "readdir_body E fill hdl _ =
     seqM (ext (d_readdir E hdl)) (\<lambda>r.
     case r of None \<Rightarrow> ret (Inr ())
     | Some name \<Rightarrow> seqM (ext (fill name)) (\<lambda>full. if full \<noteq> 0 then ret (Inr ()) else ret (Inl ())))"

definition dfs_readdir ::
  "('w, 'm) env_scheme \<Rightarrow> string \<Rightarrow> (string \<Rightarrow> 'w \<Rightarrow> int \<times> 'w) \<Rightarrow> ('w, int) dprog" where
  "dfs_readdir E path fill =
     seqM (dfs_chdir_timeout E path) (\<lambda>rc.
     if rc \<noteq> DPL_SUCCESS then ret (d_status_code E rc)
     else
       seqM (dfs_opendir_timeout E ''.'') (\<lambda>(rc, hdl).
       if rc \<noteq> DPL_SUCCESS then ret (d_status_code E rc)
       else
         seqM (loopM (readdir_body E fill hdl) ()) (\<lambda>_.
         seqM (ext (\<lambda>w. ((), d_closedir E hdl w))) (\<lambda>_. ret 0))))"

section \<open>rmdir and unlink\<close>

definition dfs_rmdir :: "('w, 'm) env_scheme \<Rightarrow> string \<Rightarrow> ('w, int) dprog" where
  "dfs_rmdir E path =
     seqM (dfs_rmdir_timeout E path) (\<lambda>rc.
     if rc \<noteq> DPL_SUCCESS then ret (- 1)
     else
       seqM (getS gconf) (\<lambda>conf.
       seqM (sptr_show (c_cache_dir conf)) (\<lambda>cache.
       seqM (ext (os_rmdir E (fmt (cache @ ''/'' @ path)))) (\<lambda>_.
       seqM (hash_lookup (Some path)) (\<lambda>found.
       case found of None \<Rightarrow> ret 0
       | Some a \<Rightarrow> seqM (pentry_remove_dirent a (Some path)) (\<lambda>_. ret 0))))))"

text \<open>The entry is released by the table before its parent is asked for.\<close>

definition dfs_unlink :: "('w, 'm) env_scheme \<Rightarrow> string \<Rightarrow> ('w, int) dprog" where
  "dfs_unlink E path =
     seqM (dfs_unlink_timeout E path) (\<lambda>rc.
     if rc \<noteq> DPL_SUCCESS then ret 1
     else
       seqM (getS gconf) (\<lambda>conf.
       seqM (sptr_show (c_cache_dir conf)) (\<lambda>cache.
       seqM (ext (os_unlink E (fmt (cache @ ''/'' @ path)))) (\<lambda>_.
       seqM (hash_lookup (Some path)) (\<lambda>found.
       case found of None \<Rightarrow> ret 0
       | Some a \<Rightarrow>
           seqM (hash_remove E path) (\<lambda>_.
           seqM (pentry_get_parent (Some a)) (\<lambda>dir.
           seqM (case dir of None \<Rightarrow> ret 0 | Some d \<Rightarrow> pentry_remove_dirent d (Some path)) (\<lambda>_.
           ret 0))))))))"

section \<open>rename\<close>

text \<open>The directory of the new name loses the old name.\<close>

definition rename_file :: "('w, 'm) env_scheme \<Rightarrow> string \<Rightarrow> string \<Rightarrow> ('w, int) dprog" where
  "rename_file E oldpath newpath =
     seqM (dfs_fcopy_timeout E oldpath newpath) (\<lambda>rc.
     if rc \<noteq> DPL_SUCCESS then ret (- 1)
     else
       seqM (case strrchr newpath CHR ''/'' of None \<Rightarrow> ret 0
             | Some i \<Rightarrow>
                 if i = 0 then ret 0
                 else
                   seqM (hash_lookup (Some (take i newpath))) (\<lambda>dir.
                   case dir of None \<Rightarrow> ret 0 | Some d \<Rightarrow> pentry_remove_dirent d (Some oldpath))) (\<lambda>_.
       dfs_unlink E oldpath))"

text \<open>
  \<open>rename_directory\<close> calls itself on the subdirectories with two temporary strings, which
  live until the 32nd string made after them.  \<open>age\<close> is \<open>None\<close> for the caller's own names
  and else how many strings were made since (the new name is one younger than the old);
  \<open>made\<close> counts those made since the call.  Using a name whose buffer has been used again,
  or is being used by the call that reads it, is the fault \<open>StaleString\<close>.  An operation
  that returns 0 has made one string (the cache path in \<open>dfs_unlink\<close> and \<open>dfs_rmdir\<close>).
\<close>

definition live_string :: "nat option \<Rightarrow> nat \<Rightarrow> ('w, unit) dprog" where
  "live_string age made =
     (case age of None \<Rightarrow> ret () | Some n \<Rightarrow> if n + made < 31 then ret () else crash StaleString)"

definition chop_slash :: "string \<Rightarrow> string" where
  "chop_slash p = (if p \<noteq> [] \<and> last p = CHR ''/'' then butlast p else p)"

definition made_by :: "int \<Rightarrow> nat" where
  "made_by r = (if r = 0 then 1 else 0)"

text \<open>
  The recursion is bounded by \<open>fuel\<close>, the depth of the tree that is renamed.  The loop
  carries the variables \<open>ret\<close> and \<open>type\<close> and the count; leaving it with \<open>Inl\<close> is the jump to
  \<open>err\<close>.
\<close>

definition set_type :: "dpl_ftype option \<Rightarrow> dpl_ftype option \<Rightarrow> dpl_ftype option" where
  "set_type type got = (case got of None \<Rightarrow> type | Some t \<Rightarrow> Some t)"

fun rename_directory ::
  "('w, 'm) env_scheme \<Rightarrow> nat \<Rightarrow> nat option \<Rightarrow> string \<Rightarrow> string \<Rightarrow> ('w, int \<times> nat) dprog" where
  "rename_directory E 0 age oldpath newpath = crash Diverges"
| "rename_directory E (Suc fuel) age oldpath newpath =
     seqM (dfs_namei_timeout E newpath None) (\<lambda>(rc, got, _).
     if rc \<noteq> DPL_SUCCESS \<and> rc \<noteq> DPL_ENOENT then ret (- 1, 0)
     else
       seqM (if rc = DPL_ENOENT then dfs_mkdir E newpath else ret 0) (\<lambda>r.
       if r \<noteq> 0 then ret (- 1, 0)
       else
         seqM (dfs_chdir_timeout E oldpath) (\<lambda>rc.
         if rc \<noteq> DPL_SUCCESS then ret (d_status_code E rc, 0)
         else
           seqM (dfs_opendir_timeout E ''.'') (\<lambda>(rc, hdl).
           if rc \<noteq> DPL_SUCCESS then ret (d_status_code E rc, 0)
           else
             seqM (loopM (\<lambda>(r, type, made).
               seqM (ext (d_readdir E hdl)) (\<lambda>next.
               case next of None \<Rightarrow> ret (Inr (Inr (r, made)))
               | Some name \<Rightarrow>
                   if name = ''.'' \<or> name = ''..'' then ret (Inl (r, type, made))
                   else
                     seqM (live_string age made) (\<lambda>_.
                     let src = chop_slash (fmt (oldpath @ ''/'' @ name));
                         dst = chop_slash (fmt (newpath @ ''/'' @ name)) in
                     seqM (dfs_namei_timeout E src None) (\<lambda>(rc, got, _).
                     let type = set_type type got in
                     if rc \<noteq> DPL_SUCCESS \<and> rc \<noteq> DPL_ENOENT then ret (Inr (Inl (made + 2)))
                     else
                       seqM (derefM UninitRead type) (\<lambda>t.
                       if t = DPL_FTYPE_DIR then
                         seqM (rename_directory E fuel (Some 1) src dst) (\<lambda>(r, m).
                         ret (Inl (r, type, made + 2 + m)))
                       else
                         seqM (rename_file E src dst) (\<lambda>r.
                         ret (Inl (r, type, made + 2 + made_by r)))))))) (0, set_type None got, 0)) (\<lambda>res.
             seqM (case res of
                 Inl m \<Rightarrow> ret (- 1, m)
               | Inr (r, m) \<Rightarrow>
                   if r = - 1 then ret (- 1, m)
                   else
                     seqM (live_string age m) (\<lambda>_.
                     seqM (dfs_rmdir E oldpath) (\<lambda>r. ret (0, m + made_by r)))) (\<lambda>out.
             seqM (ext (\<lambda>w. ((), d_closedir E hdl w))) (\<lambda>_. ret out)))))))"

text \<open>
  The test \<open>! DPL_SUCCESS == rc\<close> compares the negation of a constant with the status.
\<close>

definition dfs_rename ::
  "('w, 'm) env_scheme \<Rightarrow> nat \<Rightarrow> string \<Rightarrow> string \<Rightarrow> ('w, int) dprog" where
  "dfs_rename E fuel oldpath newpath =
     (let newpath = (if newpath = ''.'' then
             (case strrchr oldpath CHR ''/'' of None \<Rightarrow> oldpath | Some i \<Rightarrow> drop (Suc i) oldpath)
           else newpath) in
      seqM (dfs_namei_timeout E oldpath None) (\<lambda>(rc, type, _).
      if (if d_status_code E DPL_SUCCESS = 0 then 1 else 0) = d_status_code E rc \<and> rc \<noteq> DPL_ENOENT
      then ret (- 1)
      else
        seqM (derefM UninitRead type) (\<lambda>type.
        if type \<noteq> DPL_FTYPE_DIR \<and> type \<noteq> DPL_FTYPE_REG then ret (- 1)
        else
          seqM (if type = DPL_FTYPE_REG then rename_file E oldpath newpath
                else seqM (rename_directory E fuel None oldpath newpath) (\<lambda>(r, _). ret r)) (\<lambda>r.
          ret (if r = - 1 then - 1 else 0)))))"

section \<open>The invariant\<close>

lemma worldly_readdir [worldly_intro]: "worldly (dfs_readdir E path fill)"
  unfolding dfs_readdir_def readdir_body_def by (intro worldly_intro)

lemmas keeps_wf_readdir [wf_intro] = worldly_readdir [THEN keeps_wf_worldly]

lemma keeps_wf_names [wf_intro]:
  "keeps (spare D) (dfs_mkdir E path)" "keeps (spare D) (dfs_mknod E path)"
  "keeps (spare D) (dfs_opendir E path)" "keeps (spare D) (dfs_rmdir E path)"
  "keeps (spare D) (dfs_unlink E path)"
  unfolding dfs_mkdir_def dfs_mknod_def dfs_opendir_def dfs_rmdir_def dfs_unlink_def Let_def
  by (intro keeps_intro wf_intro keeps_wf_upd_pe; simp)+

lemma keeps_wf_rename_file [wf_intro]: "keeps (spare D) (rename_file E p q)"
  unfolding rename_file_def by (intro keeps_intro wf_intro)

lemma keeps_wf_live_string [wf_intro]: "keeps (spare D) (live_string age made)"
  unfolding live_string_def by (intro keeps_intro)

lemma keeps_wf_rename_directory [wf_intro]: "keeps (spare D) (rename_directory E fuel age p q)"
proof (induction fuel arbitrary: age p q)
  case (Suc fuel)
  show ?case
    unfolding rename_directory.simps Let_def by (intro keeps_intro wf_intro Suc)
qed (simp add: keeps_def)

lemma keeps_wf_rename [wf_intro]: "keeps (spare D) (dfs_rename E fuel p q)"
  unfolding dfs_rename_def Let_def by (intro keeps_intro wf_intro)

section \<open>What happens to the table\<close>

text \<open>A directory that was made has an entry of that type.\<close>

definition is_dir :: "string \<Rightarrow> 'w gstate \<Rightarrow> bool" where
  "is_dir path s \<longleftrightarrow> (\<exists>a pe. ghash s path = Some a \<and> pes s a = Some pe \<and> pe_filetype pe = Some FILE_DIR)"

lemma mkdir_run:
  assumes "state_wf s" "dfs_mkdir E path s = Inr (r, s')"
  shows "r = 0 \<and> is_dir path s' \<or> r = - 1 \<and> ghash s' = ghash s \<and> pes s' = pes s"
proof -
  let ?fin = "\<lambda>a. seqM (upd_pe a (\<lambda>pe. pe\<lparr>pe_filetype := Some FILE_DIR\<rparr>)) (\<lambda>_. ret (0 :: int))"
  obtain rc s1 where t: "dfs_mkdir_timeout E path s = Inr (rc, s1)"
    using assms(2) by (auto simp: dfs_mkdir_def elim: seqM_Inr)
  define w where "w = world s1"
  have s1: "s1 = s\<lparr>world := w\<rparr>" unfolding w_def
    by (rule worldlyD [of "dfs_mkdir_timeout E path", OF _ t])
      (simp add: dfs_mkdir_timeout_def worldly_retry_plain)
  have fin: "r = 0 \<and> is_dir path s'" if "?fin a t = Inr (r, s')" "ghash t path = Some a" for a t
    using that by (auto simp: upd_pe_def seqM_apply is_dir_def split: option.splits)
  show ?thesis
  proof (cases "rc = DPL_SUCCESS")
    case False
    with assms(2) t s1 show ?thesis by (auto simp: dfs_mkdir_def seqM_apply)
  next
    case rc: True
    show ?thesis
    proof (cases "ghash s path")
      case (Some a)
      with assms(2) t s1 rc have "?fin a s1 = Inr (r, s')"
        by (simp add: dfs_mkdir_def seqM_apply hash_lookup_def Let_def)
      with fin Some s1 show ?thesis by simp
    next
      case None
      with assms(2) t s1 rc obtain r1 p s2 where
        p: "populate_hash E path FILE_DIR s1 = Inr ((r1, p), s2)"
        and k: "(if r1 = - 1 then ret (- 1) else seqM (derefM NullDeref p) ?fin) s2 = Inr (r, s')"
        by (auto simp: dfs_mkdir_def hash_lookup_def Let_def seqM_apply split: sum.splits)
      have "state_wf s1" using assms(1) s1 by simp
      from populate_hash_run [OF this p] show ?thesis
      proof (elim disjE conjE)
        assume "r1 = 0" "p = Some (fresh s1)" "ghash s2 = (ghash s1)(path \<mapsto> fresh s1)"
        with k fin [of "fresh s1" s2] show ?thesis by simp
      next
        assume "r1 = - 1" "ghash s2 = ghash s1" "pes s2 = pes s1"
        with k s1 show ?thesis by auto
      qed
    qed
  qed
qed

text \<open>Removing a directory leaves its entry in the table.\<close>

definition same_table :: "'w gstate \<Rightarrow> 'w gstate \<Rightarrow> bool" where
  "same_table s t \<longleftrightarrow> ghash t = ghash s \<and> dom (pes t) = dom (pes s) \<and> dicts t = dicts s"

lemma keeps_table_worldly: "worldly m \<Longrightarrow> keeps (same_table s) m"
  by (rule keeps_worldly) (simp_all add: same_table_def)

lemma keeps_table_remove_dirent: "keeps (same_table s) (pentry_remove_dirent a p)"
  unfolding pentry_remove_dirent_def
  by (rule keepsI) (auto simp: same_table_def get_pe_def upd_pe_def seqM_apply derefM_def
      split: option.splits if_splits)

lemma keeps_table_rmdir: "keeps (same_table s) (dfs_rmdir E path)"
  unfolding dfs_rmdir_def dfs_rmdir_timeout_def
  by (intro keeps_intro keeps_table_remove_dirent
      keeps_table_worldly [OF worldly_retry_plain] keeps_table_worldly [OF worldly_hash(1)]
      keeps_table_worldly [OF worldly_sptr(2)] keeps_table_worldly [OF worldly_basic(5)])

lemma rmdir_keeps_table:
  assumes "dfs_rmdir E path s = Inr (r, s')"
  shows "ghash s' = ghash s" "dom (pes s') = dom (pes s)"
  using keepsD [of "same_table s" "dfs_rmdir E path", OF keeps_table_rmdir _ assms] by (simp_all add: same_table_def)

section \<open>unlink and rename\<close>

text \<open>After the table let go of the entry, its parent is looked for in it.\<close>

lemma unlink_steps:
  assumes "dfs_unlink_timeout E path s = Inr (DPL_SUCCESS, s1)" "c_cache_dir (gconf s) = Live cache"
  obtains w where "dfs_unlink E path s =
     (case ghash s path of None \<Rightarrow> Inr (0, s\<lparr>world := w\<rparr>)
      | Some a \<Rightarrow> seqM (hash_remove E path) (\<lambda>_.
           seqM (pentry_get_parent (Some a)) (\<lambda>dir.
           seqM (case dir of None \<Rightarrow> ret 0 | Some d \<Rightarrow> pentry_remove_dirent d (Some path)) (\<lambda>_.
           ret 0))) (s\<lparr>world := w\<rparr>))"
proof -
  define w where "w = world s1"
  have "s1 = s\<lparr>world := w\<rparr>" unfolding w_def
    by (rule worldlyD [of "dfs_unlink_timeout E path", OF _ assms(1)])
      (simp add: dfs_unlink_timeout_def worldly_retry_plain)
  with assms that [of "snd (os_unlink E (fmt (cache @ ''/'' @ path)) w)"] show ?thesis
    by (simp add: dfs_unlink_def seqM_apply ext_apply hash_lookup_def split_beta split: option.splits)
qed

text \<open>
  C39. Removing a file that has an entry never returns once the cloud has removed it: the table
  releases the entry, and the parent of the entry is then looked for in it.
\<close>

theorem unlink_uses_freed_entry:
  assumes "closes E" "state_wf s" "ghash s path = Some a" "c_cache_dir (gconf s) = Live cache"
    and "dfs_unlink_timeout E path s = Inr (DPL_SUCCESS, s1)"
  shows "dfs_unlink E path s = Inl UseAfterFree"
proof -
  from unlink_steps [OF assms(5,4)] obtain w where u: "dfs_unlink E path s =
     (case ghash s path of None \<Rightarrow> Inr (0, s\<lparr>world := w\<rparr>)
      | Some a \<Rightarrow> seqM (hash_remove E path) (\<lambda>_.
           seqM (pentry_get_parent (Some a)) (\<lambda>dir.
           seqM (case dir of None \<Rightarrow> ret 0 | Some d \<Rightarrow> pentry_remove_dirent d (Some path)) (\<lambda>_.
           ret 0))) (s\<lparr>world := w\<rparr>))" .
  obtain s' where "hash_remove E path (s\<lparr>world := w\<rparr>) = Inr (True, s')" "pes s' = (pes s)(a := None)"
    using hash_remove_returns [OF assms(1), of "s\<lparr>world := w\<rparr>" path a] assms(2,3) by auto
  with u assms(3) show ?thesis by (simp add: seqM_apply pentry_get_parent_def get_pe_def)
qed

lemma unlink_no_entry:
  assumes "ghash s path = None" "c_cache_dir (gconf s) = Live cache"
    and "dfs_unlink_timeout E path s = Inr (DPL_SUCCESS, s1)"
  shows "\<exists>w. dfs_unlink E path s = Inr (0, s\<lparr>world := w\<rparr>)"
  using unlink_steps [OF assms(3,2)] assms(1) by (metis option.simps(4))

lemma unlink_refused:
  "dfs_unlink_timeout E path s = Inr (rc, s1) \<Longrightarrow> rc \<noteq> DPL_SUCCESS \<Longrightarrow>
   dfs_unlink E path s = Inr (1, s1)"
  by (simp add: dfs_unlink_def seqM_apply)

text \<open>A rename whose first lookup fails reads the type it was to set.\<close>

lemma rename_lookup_failed:
  assumes "dfs_namei_timeout E oldpath None s = Inr ((rc, None, ino), s1)"
    and "rc = DPL_ENOENT \<or> d_status_code E rc \<noteq> (if d_status_code E DPL_SUCCESS = 0 then 1 else 0)"
  shows "dfs_rename E fuel oldpath newpath s = Inl UninitRead"
  using assms by (auto simp: dfs_rename_def Let_def seqM_apply)

text \<open>Renaming a file: the object is copied; when it then cannot be removed the caller is
  told that all went well.\<close>

lemma rename_file_kept:
  assumes "dfs_namei_timeout E oldpath None s = Inr ((DPL_SUCCESS, Some DPL_FTYPE_REG, ino), s1)"
    and "rename_file E oldpath newpath s1 = Inr (r, s2)" "newpath \<noteq> ''.''"
  shows "dfs_rename E fuel oldpath newpath s = Inr (if r = - 1 then - 1 else 0, s2)"
  using assms by (simp add: dfs_rename_def seqM_apply)

lemma rename_file_unlink_refused:
  assumes "dfs_fcopy_timeout E oldpath newpath s = Inr (DPL_SUCCESS, s1)"
    and "dfs_unlink_timeout E oldpath s1 = Inr (rc, s2)" "rc \<noteq> DPL_SUCCESS"
    and "strrchr newpath CHR ''/'' \<in> {None, Some 0}"
  shows "rename_file E oldpath newpath s = Inr (1, s2)"
  using assms by (auto simp: rename_file_def seqM_apply unlink_refused)

section \<open>readdir\<close>

text \<open>
  \<open>rest\<close> are the names the listing still has, \<open>got\<close> those the callback took, \<open>room\<close> how many
  more it takes.
\<close>

definition lists ::
  "('w, 'm) env_scheme \<Rightarrow> (string \<Rightarrow> 'w \<Rightarrow> int \<times> 'w) \<Rightarrow> nat \<Rightarrow> ('w \<Rightarrow> string list) \<Rightarrow>
   ('w \<Rightarrow> string list) \<Rightarrow> ('w \<Rightarrow> nat) \<Rightarrow> bool" where
  "lists E fill hdl rest got room \<longleftrightarrow>
     (\<forall>w. case d_readdir E hdl w of
            (None, w') \<Rightarrow> rest w = [] \<and> got w' = got w
          | (Some n, w') \<Rightarrow> rest w = n # rest w' \<and> got w' = got w \<and> room w' = room w) \<and>
     (\<forall>w n. case fill n w of (r, w') \<Rightarrow>
        (if room w = 0 then r \<noteq> 0 \<and> got w' = got w
         else r = 0 \<and> got w' = got w @ [n] \<and> rest w' = rest w \<and> Suc (room w') = room w))"

lemma readdir_loop:
  assumes c: "lists E fill hdl rest got room"
  shows "\<exists>w. loopM (readdir_body E fill hdl) () s = Inr ((), s\<lparr>world := w\<rparr>) \<and>
     got w = got (world s) @ take (room (world s)) (rest (world s))"
proof (induction "rest (world s)" arbitrary: s)
  case Nil
  obtain r w where "d_readdir E hdl (world s) = (r, w)" by fastforce
  with Nil c [unfolded lists_def, THEN conjunct1, THEN spec, of "world s"] show ?case
    by (cases r) (auto simp: loopM_unfold [of _ _ s] readdir_body_def seqM_apply ext_apply)
next
  case (Cons n ns)
  obtain r w where d: "d_readdir E hdl (world s) = (r, w)" by fastforce
  obtain full v where f: "fill n w = (full, v)" by fastforce
  from Cons(2) d c [unfolded lists_def, THEN conjunct1, THEN spec, of "world s"] have
    r: "r = Some n" "rest w = ns" "got w = got (world s)" "room w = room (world s)"
    by (cases r; simp)+
  note v = c [unfolded lists_def, THEN conjunct2, THEN spec, THEN spec, of w n, unfolded f prod.case]
  show ?case
  proof (cases "room w")
    case 0
    with v r d f Cons(2) show ?thesis
      by (auto simp: loopM_unfold [of _ _ s] readdir_body_def seqM_apply ext_apply)
  next
    case (Suc k)
    with v have v': "full = 0" "got v = got w @ [n]" "rest v = rest w" "room v = k" by simp_all
    with r Cons(1) [of "s\<lparr>world := v\<rparr>"] obtain u where
      "loopM (readdir_body E fill hdl) () (s\<lparr>world := v\<rparr>) = Inr ((), s\<lparr>world := u\<rparr>)"
      "got u = got v @ take (room v) (rest v)" by auto
    with Suc v' r d f Cons(2) [symmetric] show ?thesis
      by (auto simp: loopM_unfold [of _ _ s] readdir_body_def seqM_apply ext_apply)
  qed
qed

text \<open>
  C20. \<open>dfs_readdir\<close> lists a directory: given a handle whose names are \<open>rest\<close> and a caller that
  takes as many names as it has room for, it returns 0 and the caller has got the names in
  their order, all of them or as many as fit.
\<close>

theorem readdir_lists:
  assumes "lists E fill hdl rest got room"
    and "dfs_chdir_timeout E path s = Inr (DPL_SUCCESS, s1)"
    and "dfs_opendir_timeout E ''.'' s1 = Inr ((DPL_SUCCESS, hdl), s2)"
    and "\<And>w. got (d_closedir E hdl w) = got w"
  shows "\<exists>s'. dfs_readdir E path fill s = Inr (0, s') \<and>
     got (world s') = got (world s2) @ take (room (world s2)) (rest (world s2))"
proof -
  obtain w where "loopM (readdir_body E fill hdl) () s2 = Inr ((), s2\<lparr>world := w\<rparr>)"
    "got w = got (world s2) @ take (room (world s2)) (rest (world s2))"
    using readdir_loop [OF assms(1), of s2] by blast
  with assms show ?thesis by (simp add: dfs_readdir_def seqM_apply ext_apply)
qed

section \<open>Properties\<close>

text \<open>
  C21. \<open>dfs_mkdir\<close> makes a directory known: if it returns 0 the path has an entry that is marked as
  a directory, and otherwise it returns -1 and the table is as before.
\<close>

theorem mkdir_marks_directory:
  assumes "state_wf s" and "dfs_mkdir E path s = Inr (r, s')"
  shows "r = 0 \<and> map_option pe_filetype (view s' path) = Some (Some FILE_DIR) \<or> r = - 1 \<and> view s' = view s"
proof -
  have "map_option pe_filetype (view t path) = Some (Some FILE_DIR)" if "is_dir path t" for t :: "'a gstate"
    using that by (auto simp: is_dir_def view_def)
  moreover have "view s' = view s" if "ghash s' = ghash s" "pes s' = pes s"
    using that by (simp add: view_def [abs_def] cong: option.case_cong)
  ultimately show ?thesis using mkdir_run [OF assms] by blast
qed

text \<open>
  Renaming a file reports success although the old file is still there: when the copy was
  made and the removal of the old name is refused, \<open>dfs_rename\<close> returns 0 and no entry of the
  table has changed.
\<close>

theorem rename_hides_refusal:
  assumes "dfs_namei_timeout E oldpath None s = Inr ((DPL_SUCCESS, Some DPL_FTYPE_REG, ino), s1)"
    and "dfs_fcopy_timeout E oldpath newpath s1 = Inr (DPL_SUCCESS, s2)"
    and "dfs_unlink_timeout E oldpath s2 = Inr (rc, s3)" and "rc \<noteq> DPL_SUCCESS"
    and "newpath \<noteq> ''.''" and "strrchr newpath CHR ''/'' \<in> {None, Some 0}"
  shows "dfs_rename E depth oldpath newpath s = Inr (0, s3)"
  using rename_file_kept [OF assms(1) rename_file_unlink_refused [OF assms(2,3,4,6)] assms(5)] by simp

lemma sim_up: "sim_fail (world sim_state) = 0"
  by (simp add: sim_state_def sim_world_def)

lemma sim_entry: "ghash sim_state ''/a'' = Some 0" "pes sim_state 0 = Some sim_pe" "gconf sim_state = sim_conf"
  by (simp_all add: sim_state_def)

lemma sim_view: "view sim_state ''/a'' = Some sim_pe"
  by (simp add: view_def sim_entry)

lemma sim_mkdir: "\<exists>s'. dfs_mkdir sim_env ''/a'' sim_state = Inr (0, s')"
  by (simp add: dfs_mkdir_def seqM_apply sim_timeouts(1) [OF sim_up] hash_lookup_def upd_pe_def
      sim_entry Let_def)

lemma mkdir_marks_directory_witness:
  "\<exists>s'. dfs_mkdir sim_env ''/a'' sim_state = Inr (0, s') \<and>
     map_option pe_filetype (view s' ''/a'') = Some (Some FILE_DIR)"
proof -
  obtain s' where r: "dfs_mkdir sim_env ''/a'' sim_state = Inr (0, s')" using sim_mkdir by blast
  with mkdir_marks_directory [OF sim_state_wf r] show ?thesis by simp
qed

lemma unlink_uses_freed_entry_witness: "dfs_unlink sim_env ''/a'' sim_state = Inl UseAfterFree"
  by (rule unlink_uses_freed_entry [OF sim_closes sim_state_wf _ _ sim_timeouts(2) [OF sim_up]])
     (simp_all add: sim_state_def sim_conf_def)

lemma rename_hides_refusal_witness:
  "dfs_rename (sim_env\<lparr>d_unlink := \<lambda>p w. (DPL_ENOENT, w)\<rparr>) 5 ''/a'' ''/b'' sim_state = Inr (0, sim_state)"
proof (rule rename_hides_refusal)
  let ?E = "sim_env\<lparr>d_unlink := \<lambda>p w. (DPL_ENOENT, w)\<rparr>"
  show "dfs_namei_timeout ?E ''/a'' None sim_state = Inr ((DPL_SUCCESS, Some DPL_FTYPE_REG, ''/a''), sim_state)"
    using noent_policy.no_retry_on_success [of "d_namei ?E ''/a'' None" sim_state
        "(Some DPL_FTYPE_REG, ''/a'')" "world sim_state" ?E] sim_up
    by (simp add: timeout_defs sim_defs)
  show "dfs_fcopy_timeout ?E ''/a'' ''/b'' sim_state = Inr (DPL_SUCCESS, sim_state)"
    by (simp add: timeout_defs sim_defs retry_plain_success [where w = "world sim_state"])
  show "dfs_unlink_timeout ?E ''/a'' sim_state = Inr (DPL_ENOENT, sim_state)"
    by (simp add: timeout_defs retry_plain_def retry_attempts seqM_apply plain_def final_noent_def
        sim_state_def sim_conf_def numeral_2_eq_2)
qed (simp_all add: strrchr_def)

lemma sim_lists: "lists sim_env sim_fill 1 sim_names sim_got sim_room"
  by (auto simp: lists_def sim_defs sim_readdir_def sim_fill_def split: list.split)

lemma readdir_lists_witness:
  "\<exists>s'. dfs_readdir sim_env ''/'' sim_fill sim_state = Inr (0, s') \<and> sim_got (world s') = [''x'', ''y'']"
proof -
  have "sim_got (d_closedir sim_env 1 w) = sim_got w" for w by (simp add: sim_defs)
  from readdir_lists [OF sim_lists sim_timeouts(4) [OF sim_up] sim_timeouts(6) [OF sim_up] this, of "''/''"]
  show ?thesis by (simp add: sim_state_def sim_world_def)
qed

end
