(* ===== verification/Attrs.thy ===== *)
theory Attrs
  imports Dirs
begin

text \<open>
  Attributes and links: \<open>src/chmod.c\<close>, \<open>src/chown.c\<close>, \<open>src/symlink.c\<close>, \<open>src/readlink.c\<close>,
  \<open>src/setxattr.c\<close> and \<open>src/statfs.c\<close>.  The lemmas show that a change of mode or owner is
  what the next request for the attributes reports, and what a link is stored and read as.
\<close>

section \<open>chmod and chown\<close>

text \<open>The end of both: the cache file if there is one, then the cloud.\<close>

definition push_attributes ::
  "('w, 'm) env_scheme \<Rightarrow> string \<Rightarrow> tpath_entry \<Rightarrow> addr \<Rightarrow> ('w \<Rightarrow> int option \<times> 'w) \<Rightarrow> ('w, int) dprog" where
  "push_attributes E path pe usermd call =
     seqM (if - 1 \<noteq> pe_fd pe \<and> FILE_LOCAL = pe_ondisk pe then ext call else ret None) (\<lambda>err.
     if err \<noteq> None \<and> err \<noteq> Some EPERM then ret (- 1)
     else
       seqM (get_dict usermd) (\<lambda>md.
       seqM (dfs_setattr_timeout E path md) (\<lambda>rc.
       if DPL_SUCCESS \<noteq> rc \<and> DPL_EISDIR \<noteq> rc then ret (- 1) else ret 0)))"

definition dfs_chmod :: "('w, 'm) env_scheme \<Rightarrow> string \<Rightarrow> mode_t \<Rightarrow> ('w, int) dprog" where
  "dfs_chmod E path mode =
     seqM (hash_lookup (Some path)) (\<lambda>found.
     case found of None \<Rightarrow> ret (- 1)
     | Some a \<Rightarrow>
         seqM (get_pe a) (\<lambda>pe.
         seqM (derefM AssertFail (pe_usermd pe)) (\<lambda>usermd.
         seqM (ext (os_time E)) (\<lambda>now.
         seqM (pentry_md_lock a) (\<lambda>_.
         seqM (assign_meta_to_dict E usermd ''mode'' (ucast mode)) (\<lambda>_.
         seqM (assign_meta_to_dict E usermd ''mtime'' now) (\<lambda>_.
         seqM (assign_meta_to_dict E usermd ''ctime'' now) (\<lambda>_.
         seqM (pentry_md_unlock a) (\<lambda>_.
         push_attributes E path pe usermd (os_fchmod E (pe_fd pe) mode))))))))))"

definition dfs_chown ::
  "('w, 'm) env_scheme \<Rightarrow> string \<Rightarrow> 32 word \<Rightarrow> 32 word \<Rightarrow> ('w, int) dprog" where
  "dfs_chown E path uid gid =
     seqM (hash_lookup (Some path)) (\<lambda>found.
     case found of None \<Rightarrow> ret (- 1)
     | Some a \<Rightarrow>
         seqM (get_pe a) (\<lambda>pe.
         seqM (derefM AssertFail (pe_usermd pe)) (\<lambda>usermd.
         seqM (ext (os_time E)) (\<lambda>now.
         seqM (pentry_md_lock a) (\<lambda>_.
         seqM (assign_meta_to_dict E usermd ''mtime'' now) (\<lambda>_.
         seqM (assign_meta_to_dict E usermd ''ctime'' now) (\<lambda>_.
         seqM (assign_meta_to_dict E usermd ''uid'' (ucast uid)) (\<lambda>_.
         seqM (assign_meta_to_dict E usermd ''gid'' (ucast gid)) (\<lambda>_.
         seqM (pentry_md_unlock a) (\<lambda>_.
         push_attributes E path pe usermd (os_fchown E (pe_fd pe) uid gid)))))))))))"

section \<open>symlink and readlink\<close>

text \<open>
  Where the target starts: past the mount point and one more character.  \<open>None\<close> is the
  address behind the end of the string, for a target that ends with the mount point.
\<close>

definition link_target :: "string \<Rightarrow> string \<Rightarrow> string option" where
  "link_target oldpath root =
     (case strstr oldpath root of None \<Rightarrow> Some oldpath
      | Some t \<Rightarrow> if length t < length root + 1 then None else Some (drop (length root + 1) t))"

definition symlink_end :: "addr option \<Rightarrow> 'a \<Rightarrow> ('w, 'a) dprog" where
  "symlink_end dict r = seqM (dict_free_opt dict) (\<lambda>_. ret r)"

definition dfs_symlink :: "('w, 'm) env_scheme \<Rightarrow> string \<Rightarrow> string \<Rightarrow> ('w, int) dprog" where
  "dfs_symlink E oldpath newpath =
     seqM (dfs_mknod_timeout E newpath) (\<lambda>rc.
     if DPL_SUCCESS \<noteq> rc then symlink_end None (d_status_code E rc)
     else
       seqM (getS gconf) (\<lambda>conf.
       seqM (sptr_get (c_root_dir conf)) (\<lambda>root.
       let opath = link_target oldpath root in
       seqM (dict_new E) (\<lambda>new.
       case new of None \<Rightarrow> symlink_end None (- 1)
       | Some dict \<Rightarrow>
           seqM (derefM OutOfBounds opath) (\<lambda>opath.
           seqM (dict_call (\<lambda>d. d_dict_add E d ''symlink'' opath) dict) (\<lambda>rc.
           if DPL_SUCCESS \<noteq> rc then symlink_end (Some dict) (- 1)
           else
             let size_str = fmt (show_nat (length opath)) in
             seqM (dict_call (\<lambda>d. d_dict_add E d ''size'' size_str) dict) (\<lambda>rc.
             if DPL_SUCCESS \<noteq> rc then symlink_end (Some dict) (- 1)
             else
               seqM (get_dict dict) (\<lambda>md.
               seqM (dfs_setattr_timeout E newpath md) (\<lambda>rc.
               if DPL_SUCCESS \<noteq> rc then symlink_end (Some dict) (- 1)
               else symlink_end (Some dict) 0)))))))))"

text \<open>
  \<open>buf\<close> is the caller's buffer of \<open>bufsiz\<close> characters; \<open>strncpy\<close> with the length of the
  target writes no end of string.  The result is 0 on every path.
\<close>

definition copy_link :: "string \<Rightarrow> string \<Rightarrow> nat \<Rightarrow> string" where
  "copy_link buf dest bufsiz =
     (let dest_size = (if length dest > bufsiz then bufsiz else length dest)
      in take dest_size dest @ drop dest_size buf)"

definition dfs_readlink ::
  "('w, 'm) env_scheme \<Rightarrow> string \<Rightarrow> string \<Rightarrow> nat \<Rightarrow> ('w, int \<times> string) dprog" where
  "dfs_readlink E path buf bufsiz =
     seqM (dfs_getattr_timeout E path) (\<lambda>(rc, got).
     seqM (case got of None \<Rightarrow> ret None | Some d \<Rightarrow> seqM (own_dict d) (\<lambda>a. ret (Some a))) (\<lambda>dict.
     seqM (if DPL_SUCCESS \<noteq> rc then ret buf
           else
             case dict of None \<Rightarrow> ret buf
             | Some a \<Rightarrow>
                 seqM (get_dict a) (\<lambda>d.
                 case d ''symlink'' of None \<Rightarrow> ret buf
                 | Some dest \<Rightarrow> ret (copy_link buf dest bufsiz))) (\<lambda>buf.
     seqM (dict_free_opt dict) (\<lambda>_. ret (0, buf)))))"

section \<open>setxattr and statfs\<close>

definition dfs_setxattr :: "string \<Rightarrow> string \<Rightarrow> string \<Rightarrow> nat \<Rightarrow> int \<Rightarrow> ('w, int) dprog" where
  "dfs_setxattr path name val n flag = ret 0"

record statvfs =
  f_flag :: "64 word"
  f_namemax :: "64 word"
  f_bsize :: "64 word"
  f_frsize :: "64 word"
  f_blocks :: "64 word"
  f_bfree :: "64 word"
  f_bavail :: "64 word"
  f_files :: "64 word"
  f_ffree :: "64 word"

abbreviation (input) ST_RDONLY :: "64 word" where "ST_RDONLY \<equiv> 1"

definition dfs_statfs :: "string \<Rightarrow> statvfs \<Rightarrow> ('w, int \<times> statvfs) dprog" where
  "dfs_statfs path buf =
     (let buf = buf\<lparr>f_flag := ST_RDONLY\<rparr>;
          buf = buf\<lparr>f_namemax := 255\<rparr>;
          buf = buf\<lparr>f_bsize := 4096\<rparr>;
          buf = buf\<lparr>f_frsize := f_bsize buf\<rparr>;
          n = (1000 * 1024) div f_frsize buf;
          buf = buf\<lparr>f_blocks := n, f_bfree := n, f_bavail := n\<rparr>;
          buf = buf\<lparr>f_files := 1000000000, f_ffree := 1000000000\<rparr>
      in ret (0, buf))"

section \<open>The invariant\<close>

lemma keeps_wf_timeouts [wf_intro]:
  "keeps (spare D) (dfs_setattr_timeout E path md)" "keeps (spare D) (dfs_mknod_timeout E path)"
  "keeps (spare D) (dfs_getattr_timeout E path)"
  by (simp_all add: timeout_defs keeps_wf_calls)

lemma keeps_wf_symlink_end: "set_option p \<subseteq> D \<Longrightarrow> keeps (spare D) (symlink_end p r)"
  unfolding symlink_end_def by (intro keeps_intro keeps_wf_dict_free_opt)

lemma keeps_wf_attrs [wf_intro]:
  "keeps (spare D) (dfs_chmod E path mode)" "keeps (spare D) (dfs_chown E path uid gid)"
  "keeps (spare D) (dfs_setxattr path name val n flag)" "keeps (spare D) (dfs_statfs path st)"
  unfolding dfs_chmod_def dfs_chown_def push_attributes_def dfs_setxattr_def dfs_statfs_def Let_def
  by (intro keeps_intro wf_intro)+

lemma keeps_wf_symlink [wf_intro]: "keeps (spare D) (dfs_symlink E p q)"
  unfolding dfs_symlink_def Let_def
  by (intro keeps_wf_dict_new keeps_intro wf_intro keeps_wf_symlink_end; simp)

lemma keeps_wf_readlink [wf_intro]: "keeps (spare D) (dfs_readlink E path buf n)"
proof -
  have own: "gives D (case got of None \<Rightarrow> ret None | Some d \<Rightarrow> seqM (own_dict d) (\<lambda>a. ret (Some a))) set_option"
    for got :: "dict option" and D :: "addr set"
    by (intro gives_branch gives_ret gives_own) simp_all
  have free: "keeps (spare (set_option p \<union> D)) (dict_free_opt p)" for p and D :: "addr set"
    by (rule keeps_wf_dict_free_opt) simp
  show ?thesis
    unfolding dfs_readlink_def by (intro keeps_gives [OF own] free keeps_intro wf_intro)
qed

section \<open>What a change of mode or owner does\<close>

lemma retry_plain_total: "\<exists>rc w. retry_plain E final call s = Inr (rc, s\<lparr>world := w\<rparr>)"
  by (auto simp: retry_plain_def seqM_apply retry_attempts split: prod.splits)

text \<open>The entry of the path, with metadata and no lock on it.\<close>

definition unlocked_md :: "'w gstate \<Rightarrow> string \<Rightarrow> addr \<Rightarrow> addr \<Rightarrow> dict \<Rightarrow> bool" where
  "unlocked_md s path a d md \<longleftrightarrow> ghash s path = Some a \<and> dicts s d = Some md \<and>
     (\<exists>pe. pes s a = Some pe \<and> \<not> pe_md_mutex pe \<and> pe_usermd pe = Some d)"

lemma seq_steps:
  "ghash s p = x \<Longrightarrow> seqM (hash_lookup (Some p)) f s = f x s"
  "pes s a = Some pe \<Longrightarrow> seqM (get_pe a) g s = g pe s"
  "call (world s) = (r, w) \<Longrightarrow> seqM (ext call) h s = h r (s\<lparr>world := w\<rparr>)"
  by (simp_all add: seqM_apply hash_lookup_def get_pe_def ext_apply)

lemma locked_assign:
  assumes "dict_updates E" "pes s a = Some pe" "\<not> pe_md_mutex pe" "dicts s d = Some md"
  obtains w where "seqM (pentry_md_lock a) (\<lambda>_. seqM (assign_all E d kvs) (\<lambda>_.
       seqM (pentry_md_unlock a) k)) s =
     k () (s\<lparr>dicts := (dicts s)(d \<mapsto> md ++ map_of (rev (map (\<lambda>(k, v). (k, show_ulong v)) kvs))),
       world := w\<rparr>)"
proof -
  define s1 where "s1 = s\<lparr>pes := (pes s)(a \<mapsto> pe\<lparr>pe_md_mutex := True\<rparr>)\<rparr>"
  have "dicts s1 d = Some md" using assms(4) by (simp add: s1_def)
  from assign_all_run [OF assms(1) this, of kvs] obtain s2 where
    r: "assign_all E d kvs s1 = Inr ((), s2)" and
    d: "dicts s2 = (dicts s1)(d \<mapsto> md ++ map_of (rev (map (\<lambda>(k, v). (k, show_ulong v)) kvs)))" and
    w: "s2 = s1\<lparr>world := world s2, dicts := dicts s2\<rparr>" by blast
  have pe: "pes s2 a = Some (pe\<lparr>pe_md_mutex := True\<rparr>)" by (subst w) (simp add: s1_def)
  have "pe\<lparr>pe_md_mutex := False\<rparr> = pe" using assms(3) by (cases pe) simp
  then have "s2\<lparr>pes := (pes s2)(a \<mapsto> pe\<lparr>pe_md_mutex := False\<rparr>)\<rparr> =
     s\<lparr>dicts := dicts s2, world := world s2\<rparr>"
    using assms(2) by (subst (1 2) w) (simp add: s1_def fun_upd_idem)
  with that [of "world s2"] r d pe assms(2,3) show thesis
    by (simp add: seqM_apply lock_runs s1_def)
qed

text \<open>The end of both: the cache file, then the cloud.\<close>

lemma push_attributes_run:
  assumes "dicts s d = Some md"
  obtains w r t where "push_attributes E path pe d call s = Inr (r, t)" "t = s\<lparr>world := w\<rparr>" "r = 0 \<or> r = - 1"
proof -
  obtain err v where e: "(if - 1 \<noteq> pe_fd pe \<and> FILE_LOCAL = pe_ondisk pe then ext call else ret None) s = Inr (err, s\<lparr>world := v\<rparr>)"
  proof (cases "- 1 \<noteq> pe_fd pe \<and> FILE_LOCAL = pe_ondisk pe")
    case True
    with that [of "fst (call (world s))" "snd (call (world s))"] show thesis
      by (simp add: ext_apply split_beta)
  next
    case False
    with that [of None "world s"] show thesis by auto
  qed
  obtain rc w where t: "dfs_setattr_timeout E path md (s\<lparr>world := v\<rparr>) = Inr (rc, s\<lparr>world := w\<rparr>)"
    using retry_plain_total [of E final_setattr "d_setattr E path md" "s\<lparr>world := v\<rparr>"]
    by (auto simp: dfs_setattr_timeout_def)
  show thesis
  proof (cases "err \<noteq> None \<and> err \<noteq> Some EPERM")
    case True
    with e that [of "- 1" _ v] show thesis by (simp add: push_attributes_def seqM_apply)
  next
    case False
    with e t assms that [of "if DPL_SUCCESS \<noteq> rc \<and> DPL_EISDIR \<noteq> rc then - 1 else 0" _ w] show thesis
      by (simp add: push_attributes_def seqM_apply get_dict_def del: not_None_eq)
  qed
qed

definition chmod_md :: "mode_t \<Rightarrow> 64 word \<Rightarrow> dict \<Rightarrow> dict" where
  "chmod_md mode now md =
     md(''mode'' \<mapsto> show_ulong (ucast mode), ''mtime'' \<mapsto> show_ulong now, ''ctime'' \<mapsto> show_ulong now)"

definition chown_md :: "32 word \<Rightarrow> 32 word \<Rightarrow> 64 word \<Rightarrow> dict \<Rightarrow> dict" where
  "chown_md uid gid now md =
     md(''mtime'' \<mapsto> show_ulong now, ''ctime'' \<mapsto> show_ulong now,
        ''uid'' \<mapsto> show_ulong (ucast uid), ''gid'' \<mapsto> show_ulong (ucast gid))"

lemma chmod_run:
  assumes "dict_updates E" "unlocked_md s path a d md"
  shows "\<exists>r w. dfs_chmod E path mode s = Inr (r, s\<lparr>
       dicts := (dicts s)(d \<mapsto> chmod_md mode (fst (os_time E (world s))) md), world := w\<rparr>) \<and> (r = 0 \<or> r = - 1)"
proof -
  obtain pe where pe: "ghash s path = Some a" "pes s a = Some pe" "\<not> pe_md_mutex pe"
    "pe_usermd pe = Some d" "dicts s d = Some md" using assms(2) by (auto simp: unlocked_md_def)
  obtain now w0 where now: "os_time E (world s) = (now, w0)" by fastforce
  let ?kvs = "[(''mode'', ucast mode), (''mtime'', now), (''ctime'', now)]"
  have md: "md ++ map_of (rev (map (\<lambda>(k, v). (k, show_ulong v)) ?kvs)) = chmod_md mode now md"
    by (simp add: chmod_md_def fun_upd_twist)
  define k where "k = (\<lambda>_ :: unit. push_attributes E path pe d (os_fchmod E (pe_fd pe) mode))"
  have "dfs_chmod E path mode s = seqM (pentry_md_lock a) (\<lambda>_. seqM (assign_all E d ?kvs) (\<lambda>_.
       seqM (pentry_md_unlock a) k)) (s\<lparr>world := w0\<rparr>)"
    using pe now by (simp add: dfs_chmod_def k_def seq_steps seqM_assoc split del: if_split)
  moreover obtain w where "seqM (pentry_md_lock a) (\<lambda>_. seqM (assign_all E d ?kvs) (\<lambda>_.
       seqM (pentry_md_unlock a) k)) (s\<lparr>world := w0\<rparr>) =
     k () (s\<lparr>dicts := (dicts s)(d \<mapsto> chmod_md mode now md), world := w\<rparr>)"
    using locked_assign [OF assms(1), of "s\<lparr>world := w0\<rparr>" a pe d md ?kvs k] pe
    unfolding md by auto
  moreover obtain v r where "k () (s\<lparr>dicts := (dicts s)(d \<mapsto> chmod_md mode now md), world := w\<rparr>) =
     Inr (r, s\<lparr>dicts := (dicts s)(d \<mapsto> chmod_md mode now md), world := v\<rparr>)" "r = 0 \<or> r = - 1"
    by (rule push_attributes_run [where s = "s\<lparr>dicts := (dicts s)(d \<mapsto> chmod_md mode now md), world := w\<rparr>"
          and E = E and d = d and path = path and pe = pe and call = "os_fchmod E (pe_fd pe) mode"])
      (simp_all add: k_def del: disj_commute)
  ultimately show ?thesis using now by auto
qed

lemma chown_run:
  assumes "dict_updates E" "unlocked_md s path a d md"
  shows "\<exists>r w. dfs_chown E path uid gid s = Inr (r, s\<lparr>
       dicts := (dicts s)(d \<mapsto> chown_md uid gid (fst (os_time E (world s))) md), world := w\<rparr>) \<and> (r = 0 \<or> r = - 1)"
proof -
  obtain pe where pe: "ghash s path = Some a" "pes s a = Some pe" "\<not> pe_md_mutex pe"
    "pe_usermd pe = Some d" "dicts s d = Some md" using assms(2) by (auto simp: unlocked_md_def)
  obtain now w0 where now: "os_time E (world s) = (now, w0)" by fastforce
  let ?kvs = "[(''mtime'', now), (''ctime'', now), (''uid'', ucast uid), (''gid'', ucast gid)]"
  have md: "md ++ map_of (rev (map (\<lambda>(k, v). (k, show_ulong v)) ?kvs)) = chown_md uid gid now md"
    by (simp add: chown_md_def fun_upd_twist)
  define k where "k = (\<lambda>_ :: unit. push_attributes E path pe d (os_fchown E (pe_fd pe) uid gid))"
  have "dfs_chown E path uid gid s = seqM (pentry_md_lock a) (\<lambda>_. seqM (assign_all E d ?kvs) (\<lambda>_.
       seqM (pentry_md_unlock a) k)) (s\<lparr>world := w0\<rparr>)"
    using pe now by (simp add: dfs_chown_def k_def seq_steps seqM_assoc split del: if_split)
  moreover obtain w where "seqM (pentry_md_lock a) (\<lambda>_. seqM (assign_all E d ?kvs) (\<lambda>_.
       seqM (pentry_md_unlock a) k)) (s\<lparr>world := w0\<rparr>) =
     k () (s\<lparr>dicts := (dicts s)(d \<mapsto> chown_md uid gid now md), world := w\<rparr>)"
    using locked_assign [OF assms(1), of "s\<lparr>world := w0\<rparr>" a pe d md ?kvs k] pe
    unfolding md by auto
  moreover obtain v r where "k () (s\<lparr>dicts := (dicts s)(d \<mapsto> chown_md uid gid now md), world := w\<rparr>) =
     Inr (r, s\<lparr>dicts := (dicts s)(d \<mapsto> chown_md uid gid now md), world := v\<rparr>)" "r = 0 \<or> r = - 1"
    by (rule push_attributes_run [where s = "s\<lparr>dicts := (dicts s)(d \<mapsto> chown_md uid gid now md), world := w\<rparr>"
          and E = E and d = d and path = path and pe = pe and call = "os_fchown E (pe_fd pe) uid gid"])
      (simp_all add: k_def del: disj_commute)
  ultimately show ?thesis using now by auto
qed

text \<open>Without an entry, or with one that has no metadata.\<close>

lemma chmod_no_entry: "ghash s path = None \<Longrightarrow> dfs_chmod E path mode s = Inr (- 1, s)"
  by (simp add: dfs_chmod_def seq_steps)

lemma chmod_no_metadata:
  "ghash s path = Some a \<Longrightarrow> pes s a = Some pe \<Longrightarrow> pe_usermd pe = None \<Longrightarrow>
   dfs_chmod E path mode s = Inl AssertFail"
  by (simp add: dfs_chmod_def seq_steps)

text \<open>The next request for the attributes of a file whose metadata are in its entry.\<close>

lemma stat_of_chmod_md:
  assumes "md ''symlink'' = None" "now \<noteq> - 1"
  shows "st_mode (fill_stat_from_metadata st (chmod_md mode now md)) = mode"
    "st_mtime (fill_stat_from_metadata st (chmod_md mode now md)) = now"
    "st_ctime (fill_stat_from_metadata st (chmod_md mode now md)) = now"
  using assms by (simp_all add: fill_stat_from_metadata_def store_meta_def chmod_md_def Let_def)

lemma stat_of_chown_md:
  assumes "now \<noteq> - 1"
  shows "st_uid (fill_stat_from_metadata st (chown_md uid gid now md)) = uid"
    "st_gid (fill_stat_from_metadata st (chown_md uid gid now md)) = gid"
    "st_ctime (fill_stat_from_metadata st (chown_md uid gid now md)) = now"
  using assms by (simp_all add: fill_stat_from_metadata_def store_meta_def chown_md_def Let_def)

section \<open>Links\<close>

lemma strstr_prefix: "strstr (pat @ rest) pat = Some (pat @ rest)"
  by (cases pat) (cases rest; simp)+

lemma link_target_below: "link_target (root @ c # name) root = Some name"
  by (simp add: link_target_def strstr_prefix)

lemma link_target_root: "link_target root root = None"
  using strstr_prefix [of root "[]"] by (simp add: link_target_def)

lemma symlink_to_root:
  assumes "dfs_mknod_timeout E newpath s = Inr (DPL_SUCCESS, s1)" "c_root_dir (gconf s1) = Live root"
    and "os_alloc E (world s1) = (True, w)"
  shows "dfs_symlink E root newpath s = Inl OutOfBounds"
  using assms
  by (simp add: dfs_symlink_def seqM_apply link_target_root dict_new_def ext_apply own_dict_def Let_def)

text \<open>
  A store that keeps metadata: what \<open>setattr\<close> stores for a name, \<open>getattr\<close> returns.
\<close>

definition keeps_metadata :: "('w, 'm) env_scheme \<Rightarrow> ('w \<Rightarrow> string \<rightharpoonup> dict) \<Rightarrow> bool" where
  "keeps_metadata E cloud \<longleftrightarrow>
     (\<forall>p md w. \<exists>w'. d_setattr E p md w = (DPL_SUCCESS, w') \<and> cloud w' = (cloud w)(p \<mapsto> md)) \<and>
     (\<forall>p w. \<exists>w'. d_getattr E p w = ((DPL_SUCCESS, cloud w p), w') \<and> cloud w' = cloud w) \<and>
     (\<forall>p w. \<exists>w'. d_mknod E p w = (DPL_SUCCESS, w'))"

definition dict_adds :: "('w, 'm) env_scheme \<Rightarrow> bool" where
  "dict_adds E \<longleftrightarrow> (\<forall>d k v w. \<exists>w'. d_dict_add E d k v w = ((DPL_SUCCESS, d(k \<mapsto> v)), w'))"

definition allocates :: "('w, 'm) env_scheme \<Rightarrow> bool" where
  "allocates E \<longleftrightarrow> (\<forall>w. \<exists>w'. os_alloc E w = (True, w'))"

definition link_md :: "string \<Rightarrow> dict" where
  "link_md t = [''symlink'' \<mapsto> t, ''size'' \<mapsto> show_nat (length t)]"

lemma symlink_run:
  assumes "keeps_metadata E cloud" "dict_adds E" "allocates E"
    and "c_root_dir (gconf s) = Live root" "link_target oldpath root = Some t" "length t < 10 ^ 20"
  shows "\<exists>s'. dfs_symlink E oldpath newpath s = Inr (0, s') \<and> cloud (world s') newpath = Some (link_md t)"
proof -
  from assms(1) obtain w0 where 0: "d_mknod E newpath (world s) = (DPL_SUCCESS, w0)"
    unfolding keeps_metadata_def by blast
  from assms(3) obtain w1 where 1: "os_alloc E w0 = (True, w1)" unfolding allocates_def by blast
  from assms(2) obtain w2 where
    2: "d_dict_add E Map.empty ''symlink'' t w1 = ((DPL_SUCCESS, [''symlink'' \<mapsto> t]), w2)"
    unfolding dict_adds_def by blast
  from assms(2) obtain w3 where
    3: "d_dict_add E [''symlink'' \<mapsto> t] ''size'' (show_nat (length t)) w2 = ((DPL_SUCCESS, link_md t), w3)"
    unfolding dict_adds_def link_md_def by blast
  from assms(1) obtain w4 where 4: "d_setattr E newpath (link_md t) w3 = (DPL_SUCCESS, w4)"
    "cloud w4 = (cloud w3)(newpath \<mapsto> link_md t)" unfolding keeps_metadata_def by blast
  have fmt: "fmt (show_nat (length t)) = show_nat (length t)"
    using length_show_nat [OF assms(6)] by (simp add: tmpstr_max_def)
  from 4(2) show ?thesis
    by (simp add: dfs_symlink_def Let_def symlink_end_def seqM_apply ext_apply dict_new_def own_dict_def
        dict_call_def get_dict_def set_dict_def dict_free_opt_def dict_free_def retry_plain_success
        dfs_mknod_timeout_def dfs_setattr_timeout_def assms(4,5) fmt 0 1 2 3 4(1))
qed

lemma readlink_run:
  assumes "keeps_metadata E cloud" "cloud (world s) path = Some md" "md ''symlink'' = Some t"
  shows "\<exists>s'. dfs_readlink E path buf n s = Inr ((0, copy_link buf t n), s')"
proof -
  from assms(1) obtain w where "d_getattr E path (world s) = ((DPL_SUCCESS, cloud (world s) path), w)"
    unfolding keeps_metadata_def by blast
  with assms(2,3) getattr_policy.no_retry_on_success [of "d_getattr E path" s "Some md" w E]
  show ?thesis
    by (simp add: dfs_readlink_def dfs_getattr_timeout_def dfs_getattr_gen_timeout_def seqM_apply
        own_dict_def get_dict_def dict_free_opt_def dict_free_def)
qed

lemma readlink_failed:
  assumes "dfs_getattr_timeout E path s = Inr ((rc, None), s1)"
  shows "dfs_readlink E path buf n s = Inr ((0, buf), s1)"
  using assms by (simp add: dfs_readlink_def seqM_apply dict_free_opt_def)

lemma copy_link_fits: "length t \<le> n \<Longrightarrow> copy_link buf t n = t @ drop (length t) buf"
  by (simp add: copy_link_def)

end
