(* ===== verification/Io.thy ===== *)
theory Io
  imports Dirs
begin

text \<open>
  Reading and writing an open file: \<open>src/read.c\<close>, \<open>src/write.c\<close> and \<open>src/fsync.c\<close>.  The
  handle of FUSE is the address of the entry.  The lemmas show what is returned on each path.
\<close>

section \<open>The operations\<close>

text \<open>The number of bytes is a \<open>ssize_t\<close> that is stored in an \<open>int\<close>.\<close>

definition to_int :: "nat \<Rightarrow> int" where
  "to_int n = to_int32 (word_of_nat n)"

definition dfs_read ::
  "('w, 'm) env_scheme \<Rightarrow> string \<Rightarrow> nat \<Rightarrow> int \<Rightarrow> addr option \<Rightarrow> ('w, int \<times> string) dprog" where
  "dfs_read E path size' off fh =
     seqM (derefM NullDeref fh) (\<lambda>a.
     seqM (get_pe a) (\<lambda>pe.
     if pe_fd pe < 0 then ret (- EBADFD, [])
     else
       seqM (ext (os_pread E (pe_fd pe) size' off)) (\<lambda>r.
       case r of Inl errno \<Rightarrow> ret (- errno, []) | Inr data \<Rightarrow> ret (to_int (length data), data))))"

definition dfs_write ::
  "('w, 'm) env_scheme \<Rightarrow> string \<Rightarrow> string \<Rightarrow> int \<Rightarrow> addr option \<Rightarrow> ('w, int) dprog" where
  "dfs_write E path buf off fh =
     seqM (derefM NullDeref fh) (\<lambda>a.
     seqM (get_pe a) (\<lambda>pe.
     if pe_fd pe < 0 then ret EBADF
     else
       seqM (ext (os_pwrite E (pe_fd pe) buf off)) (\<lambda>r.
       case r of Inl errno \<Rightarrow> ret (- errno) | Inr n \<Rightarrow> ret (to_int n))))"

text \<open>The result is not set on the path taken for \<open>issync\<close>.\<close>

definition dfs_fsync :: "('w, 'm) env_scheme \<Rightarrow> string \<Rightarrow> int \<Rightarrow> ('w, int) dprog" where
  "dfs_fsync E path issync =
     seqM (hash_lookup (Some path)) (\<lambda>found.
     case found of None \<Rightarrow> ret (- 1)
     | Some a \<Rightarrow>
         seqM (get_pe a) (\<lambda>pe.
         if - 1 = pe_fd pe then ret (- 1)
         else if issync \<noteq> 0 then crash UninitRead
         else
           seqM (ext (os_fsync E (pe_fd pe))) (\<lambda>err.
           case err of Some errno \<Rightarrow> ret (- errno) | None \<Rightarrow> ret 0)))"

section \<open>The lemmas\<close>

lemma worldly_io [worldly_intro]:
  "worldly (dfs_read E path n off fh)" "worldly (dfs_write E path buf off fh)"
  "worldly (dfs_fsync E path issync)"
  unfolding dfs_read_def dfs_write_def dfs_fsync_def by (intro worldly_intro)+

lemmas keeps_wf_io [wf_intro] = worldly_io [THEN keeps_wf_worldly]

lemma to_int_small: "n < 2 ^ 31 \<Longrightarrow> to_int n = int n"
proof -
  assume n: "n < 2 ^ 31"
  then have "n < 2 ^ 64" by (rule less_trans) simp
  then have "unat (word_of_nat n :: 64 word) = n" by (simp add: unat_of_nat take_bit_nat_eq_self)
  with to_int32_small [of "word_of_nat n"] n show ?thesis by (simp add: to_int_def)
qed

text \<open>A write and the read of the same range, on a file that behaves like one.\<close>

definition file_like :: "('w, 'm) env_scheme \<Rightarrow> (int \<Rightarrow> 'w \<Rightarrow> string) \<Rightarrow> bool" where
  "file_like E content \<longleftrightarrow>
     (\<forall>fd buf off w. 0 \<le> off \<longrightarrow> nat off \<le> length (content fd w) \<longrightarrow>
        (\<exists>w'. os_pwrite E fd buf off w = (Inr (length buf), w') \<and>
          content fd w' = take (nat off) (content fd w) @ buf @ drop (nat off + length buf) (content fd w))) \<and>
     (\<forall>fd n off w. 0 \<le> off \<longrightarrow>
        (\<exists>w'. os_pread E fd n off w = (Inr (take n (drop (nat off) (content fd w))), w') \<and>
          content fd w' = content fd w))"

text \<open>
  C19. What was written is read back: on an open file that behaves as files do, a write inside
  the file or at its end returns its length, and a read of that many bytes from there
  returns them.
\<close>

theorem read_after_write:
  assumes "file_like E content" "pes s a = Some pe" "0 \<le> pe_fd pe"
    and "0 \<le> off" "nat off \<le> length (content (pe_fd pe) (world s))" "length buf < 2 ^ 31"
  shows "\<exists>s' s''. dfs_write E path buf off (Some a) s = Inr (int (length buf), s') \<and>
     dfs_read E path (length buf) off (Some a) s' = Inr ((int (length buf), buf), s'')"
proof -
  let ?fd = "pe_fd pe"
  from assms(1,4,5) obtain w where
    1: "os_pwrite E ?fd buf off (world s) = (Inr (length buf), w)"
      "content ?fd w = take (nat off) (content ?fd (world s)) @ buf @
         drop (nat off + length buf) (content ?fd (world s))"
    unfolding file_like_def by blast
  from assms(1,4) obtain v where
    "os_pread E ?fd (length buf) off w = (Inr (take (length buf) (drop (nat off) (content ?fd w))), v)"
    unfolding file_like_def by blast
  with 1 assms(5) have 2: "os_pread E ?fd (length buf) off w = (Inr buf, v)" by simp
  from assms(2,3,6) 1 2 show ?thesis
    by (simp add: dfs_write_def dfs_read_def seqM_apply get_pe_def ext_apply to_int_small)
qed

lemma io_bad_fd:
  assumes "pes s a = Some pe" "pe_fd pe < 0"
  shows "dfs_read E path n off (Some a) s = Inr ((- EBADFD, []), s)"
    and "dfs_write E path buf off (Some a) s = Inr (EBADF, s)"
  using assms by (simp_all add: dfs_write_def dfs_read_def seqM_apply get_pe_def)

lemma io_no_entry:
  "dfs_read E path n off None s = Inl NullDeref" "dfs_write E path buf off None s = Inl NullDeref"
  by (simp_all add: dfs_write_def dfs_read_def)

lemma fsync_run:
  assumes "ghash s path = Some a" "pes s a = Some pe" "pe_fd pe \<noteq> - 1"
  shows "dfs_fsync E path issync s =
     (if issync \<noteq> 0 then Inl UninitRead
      else case os_fsync E (pe_fd pe) (world s) of (err, w) \<Rightarrow>
        Inr (case err of None \<Rightarrow> 0 | Some errno \<Rightarrow> - errno, s\<lparr>world := w\<rparr>))"
  using assms
  by (auto simp: dfs_fsync_def seqM_apply hash_lookup_def get_pe_def ext_apply split: option.splits prod.splits)

section \<open>Properties\<close>

lemma sim_file_like: "file_like sim_env (\<lambda>fd w. sim_files w fd)"
  by (simp add: file_like_def sim_defs sim_pwrite_def Let_def)

lemma read_after_write_witness:
  "\<exists>s' s''. dfs_write sim_env ''/a'' ''abc'' 3 (Some 0) sim_state = Inr (3, s') \<and>
     dfs_read sim_env ''/a'' 3 3 (Some 0) s' = Inr ((3, ''abc''), s'')"
  using read_after_write [OF sim_file_like, of sim_state 0 sim_pe 3 "''abc''" "''/a''"]
  by (simp add: sim_state_def sim_pe_def sim_world_def numeral_3_eq_3)

section \<open>Writing and sending\<close>

text \<open>A sequence of writes to one open file, and what they make of its content.\<close>

fun write_list :: "('w, 'm) env_scheme \<Rightarrow> string \<Rightarrow> addr \<Rightarrow> (int \<times> string) list \<Rightarrow> ('w, unit) dprog" where
  "write_list E path a [] = ret ()"
| "write_list E path a ((off, buf) # ws) =
     seqM (dfs_write E path buf off (Some a)) (\<lambda>_. write_list E path a ws)"

definition patch :: "string \<Rightarrow> int \<times> string \<Rightarrow> string" where
  "patch c = (\<lambda>(off, buf). take (nat off) c @ buf @ drop (nat off + length buf) c)"

text \<open>Each write starts inside the file, or at its end.\<close>

fun fits :: "string \<Rightarrow> (int \<times> string) list \<Rightarrow> bool" where
  "fits c [] \<longleftrightarrow> True"
| "fits c ((off, buf) # ws) \<longleftrightarrow> 0 \<le> off \<and> nat off \<le> length c \<and> fits (patch c (off, buf)) ws"

text \<open>A descriptor that is read from its start, and a \<open>pwrite\<close> that does not move it.\<close>

definition at_start :: "('w, 'm) env_scheme \<Rightarrow> (int \<Rightarrow> 'w \<Rightarrow> string) \<Rightarrow> int \<Rightarrow> ('w \<Rightarrow> string) \<Rightarrow> bool" where
  "at_start E content fd left \<longleftrightarrow> (\<forall>buf off w. left w = content fd w \<longrightarrow>
     left (snd (os_pwrite E fd buf off w)) = content fd (snd (os_pwrite E fd buf off w)))"

lemma write_list_run:
  assumes "file_like E content" "at_start E content (pe_fd pe) left" "pes s a = Some pe" "0 \<le> pe_fd pe"
    and "fits (content (pe_fd pe) (world s)) ws" "left (world s) = content (pe_fd pe) (world s)"
  shows "\<exists>w. write_list E path a ws s = Inr ((), s\<lparr>world := w\<rparr>) \<and>
     content (pe_fd pe) w = foldl patch (content (pe_fd pe) (world s)) ws \<and> left w = content (pe_fd pe) w"
  using assms(3,5,6)
proof (induction ws arbitrary: s)
  case Nil
  then show ?case by (intro exI [of _ "world s"]) simp
next
  case (Cons wr ws)
  obtain off buf where wr: "wr = (off, buf)" by fastforce
  let ?c = "content (pe_fd pe) (world s)"
  from Cons.prems(2) assms(1) [unfolded file_like_def, THEN conjunct1, rule_format,
      where fd = "pe_fd pe" and buf = buf and off = off and w = "world s"] obtain w where
    1: "os_pwrite E (pe_fd pe) buf off (world s) = (Inr (length buf), w)"
      "content (pe_fd pe) w = patch ?c wr"
    by (auto simp: wr patch_def)
  have 2: "left w = content (pe_fd pe) w"
    using assms(2) Cons.prems(3) 1(1) unfolding at_start_def by (metis snd_conv)
  have "\<exists>v. write_list E path a ws (s\<lparr>world := w\<rparr>) = Inr ((), s\<lparr>world := w\<rparr>\<lparr>world := v\<rparr>) \<and>
     content (pe_fd pe) v = foldl patch (content (pe_fd pe) w) ws \<and> left v = content (pe_fd pe) v"
    using Cons.IH [of "s\<lparr>world := w\<rparr>"] Cons.prems 1 2 wr by simp
  then show ?case
    using Cons.prems(1) assms(4) 1 wr
    by (simp add: dfs_write_def seqM_apply get_pe_def ext_apply)
qed

text \<open>
  C6. A file that is written and released is sent as it was written: after any sequence of
  writes into an open file, each starting inside the file or at its end, a release without
  compression that returns 0 has sent the content of the file with all the writes applied, in
  their order, and the attributes the file has then.
\<close>

theorem writes_then_release:
  fixes s :: "'w gstate"
  assumes "file_like E content" and "at_start E content (pe_fd pe) left"
    and "uploads E (pe_fd pe) left sent attrs" and "dict_updates E"
    and "pes s a = Some pe" and "0 \<le> pe_fd pe" and "\<not> pe_exclude pe"
    and "fits (content (pe_fd pe) (world s)) ws" and "left (world s) = content (pe_fd pe) (world s)"
    and "write_list E path a ws s = Inr ((), s1)"
    and "flags AND O_ACCMODE \<noteq> O_RDONLY" and "c_compression_method (gconf s) = Live m"
    and "\<not> strncasecmp_eq m ''zlib'' 4"
    and "os_fstat E (pe_fd pe) (world s1) = (Inr st, w)"
    and "dfs_release E path (Some a) flags s1 = Inr (0, s2)"
  shows "sent (world s2) = foldl patch (content (pe_fd pe) (world s)) ws \<and> attrs (world s2) = md_of_stat st"
proof -
  obtain v where v: "s1 = s\<lparr>world := v\<rparr>"
    "content (pe_fd pe) v = foldl patch (content (pe_fd pe) (world s)) ws" "left v = content (pe_fd pe) v"
    using write_list_run [OF assms(1,2,5,6,8,9), of path] assms(10) by auto
  have "sent (world s2) = left (world s1) \<and> attrs (world s2) = md_of_stat st"
    by (rule release_delivers [OF assms(3,4) _ assms(6,7,11) _ assms(13-15)])
       (use assms(5,12) v(1) in simp_all)
  with v show ?thesis by simp
qed

text \<open>The last three bytes of a file are written.\<close>

definition sim_writing :: "sim gstate" where
  "sim_writing = sim_written\<lparr>world := sim_world\<lparr>sim_files := (\<lambda>_. ''abcxxx''), sim_unread := ''abcxxx''\<rparr>\<rparr>"

lemma writes_then_release_witness:
  "\<exists>s1 s2. write_list sim_send ''/a'' 0 [(3, ''def'')] sim_writing = Inr ((), s1) \<and>
     dfs_release sim_send ''/a'' (Some 0) 1 s1 = Inr (0, s2) \<and>
     sim_out (world s2) = ''abcdef'' \<and> sim_attrs (world s2) = md_of_stat sim_stat"
proof -
  let ?w = "sim_world\<lparr>sim_files := (\<lambda>_. ''abcxxx'')(3 := ''abcdef''), sim_unread := ''abcdef''\<rparr>"
  let ?s = "sim_writing\<lparr>world := ?w\<rparr>"
  have wr: "write_list sim_send ''/a'' 0 [(3, ''def'')] sim_writing = Inr ((), ?s)"
    by (simp add: dfs_write_def seqM_apply get_pe_def ext_apply sim_writing_def sim_written_def sim_state_def
        sim_pe_def sim_send_def sim_defs sim_pwrite_def numeral_eq_Suc Let_def)
  have plain_methods: "\<not> strncasecmp_eq ''NONE'' ''zlib'' 4" "\<not> strncasecmp_eq ''NONE'' ''aes'' 3"
    by (simp_all add: strncasecmp_eq_def tolower_def)
  have "\<exists>s2. dfs_release sim_send ''/a'' (Some 0) 1 ?s = Inr (0, s2)"
    by (simp add: dfs_release_def release_upload_def release_send_def release_err_def release_exc_def no_vars_def
        close_streams_def fill_metadata_from_stat_def assign_meta_to_dict_def dict_call_def dict_new_def
        dict_free_opt_def pentry_dec_refcount_def lock_runs state_ops seqM_apply plain_methods
        sim_writing_def sim_written_def sim_state_def sim_pe_def sim_conf_def sim_world_def Let_def
        sim_read_write [unfolded One_nat_def] sim_send_calls)
  then obtain s2 where r: "dfs_release sim_send ''/a'' (Some 0) 1 ?s = Inr (0, s2)" by blast
  have "file_like sim_send (\<lambda>fd w. sim_files w fd)" "at_start sim_send (\<lambda>fd w. sim_files w fd) 3 sim_unread"
    "dict_updates sim_send" "os_fstat sim_send 3 (world ?s) = (Inr sim_stat, world ?s)"
    by (simp_all add: file_like_def at_start_def dict_updates_def sim_send_def sim_defs sim_pwrite_def Let_def)
  with writes_then_release [where E = sim_send and content = "\<lambda>fd w. sim_files w fd" and left = sim_unread
      and pe = "sim_pe\<lparr>pe_refcount := 1\<rparr>" and sent = sim_out and attrs = sim_attrs and s = sim_writing
      and a = 0 and ws = "[(3, ''def'')]" and path = "''/a''" and ?s1.0 = ?s and flags = 1 and m = "''NONE''"
      and st = sim_stat and w = "world ?s" and ?s2.0 = s2] wr r sim_uploads plain_methods
  have "sim_out (world s2) = foldl patch ''abcxxx'' [(3, ''def'')] \<and> sim_attrs (world s2) = md_of_stat sim_stat"
    by (simp add: sim_writing_def sim_written_def sim_state_def sim_pe_def sim_conf_def)
  with wr r show ?thesis by (auto simp: patch_def numeral_eq_Suc)
qed

end
