(* ===== verification/Gc.thy ===== *)
theory Gc
  imports Dirs
begin

text \<open>
  The garbage collector of \<open>src/gc.c\<close>: a thread that now and then goes over the table and
  removes the cache files that were not used for a while.  The lemmas show that no open file
  is ever touched, which entries one pass removes, and what is left after any number of rounds
  of the thread.
\<close>

section \<open>The operations\<close>

definition gc_remove :: "('w, 'm) env_scheme \<Rightarrow> string \<Rightarrow> ('w, unit) dprog" where
  "gc_remove E path =
     seqM (getS gconf) (\<lambda>conf.
     seqM (sptr_show (c_cache_dir conf)) (\<lambda>cache.
     seqM (ext (os_unlink E (fmt (cache @ ''/'' @ path)))) (\<lambda>_.
     seqM (hash_remove E path) (\<lambda>_. ret ()))))"

text \<open>
  The age in seconds that is still young: an \<open>int\<close>, ten times as much for a file that is not
  uploaded (a product that does not fit an \<open>int\<close> is undefined in C and wraps here).  The sums are
  in \<open>time_t\<close>.
\<close>

definition gc_threshold :: "conf \<Rightarrow> tpath_entry \<Rightarrow> int" where
  "gc_threshold conf pe =
     (if pe_exclude pe then to_int32 (word_of_int (c_gc_age_threshold conf * 10))
      else c_gc_age_threshold conf)"

definition gc_young :: "int \<Rightarrow> 64 word \<Rightarrow> stat \<Rightarrow> bool" where
  "gc_young threshold t st \<longleftrightarrow>
     t <s st_atime st + word_of_int threshold \<and>
     t <s st_mtime st + word_of_int threshold \<and>
     t <s st_ctime st + word_of_int threshold"

definition gc_callback :: "('w, 'm) env_scheme \<Rightarrow> string \<Rightarrow> addr \<Rightarrow> ('w, unit) dprog" where
  "gc_callback E path a =
     seqM (getS gconf) (\<lambda>conf.
     seqM (pentry_get_refcount a) (\<lambda>refcount.
     if refcount \<noteq> 0 then ret ()
     else
       seqM (pentry_trylock a) (\<lambda>busy.
       if busy \<noteq> 0 then ret ()
       else
         seqM (get_pe a) (\<lambda>pe.
         if - 1 = pe_fd pe then pentry_unlock a
         else
           seqM (ext (os_fstat E (pe_fd pe))) (\<lambda>r.
           case r of Inl _ \<Rightarrow> gc_remove E path
           | Inr st \<Rightarrow>
               seqM (ext (os_time E)) (\<lambda>t.
               if gc_young (gc_threshold conf pe) t st then pentry_unlock a
               else gc_remove E path))))))"

text \<open>
  \<open>g_hash_table_foreach\<close>: the entries that were there at the start and still are.  (The
  callback removes entries from the table it is called on, which the library forbids.)
\<close>

fun gc_foreach :: "('w, 'm) env_scheme \<Rightarrow> string list \<Rightarrow> ('w, unit) dprog" where
  "gc_foreach E [] = ret ()"
| "gc_foreach E (path # paths) =
     seqM (hash_lookup (Some path)) (\<lambda>found.
     seqM (case found of None \<Rightarrow> ret () | Some a \<Rightarrow> gc_callback E path a) (\<lambda>_.
     gc_foreach E paths))"

definition gc_pass :: "('w, 'm) env_scheme \<Rightarrow> ('w, unit) dprog" where
  "gc_pass E = seqM (getS (\<lambda>s. g_keys E (ghash s))) (gc_foreach E)"

definition gc_round :: "('w, 'm) env_scheme \<Rightarrow> ('w, unit) dprog" where
  "gc_round E =
     seqM (getS gconf) (\<lambda>conf.
     seqM (ext (\<lambda>w. ((), os_sleep E (word_of_int (c_gc_loop_delay conf)) w))) (\<lambda>_.
     gc_pass E))"



section \<open>The invariant\<close>

lemma keeps_wf_gc_callback [wf_intro]: "keeps (spare D) (gc_callback E path a)"
  unfolding gc_callback_def gc_remove_def by (intro keeps_intro wf_intro)

lemma keeps_wf_gc_foreach [wf_intro]: "keeps (spare D) (gc_foreach E paths)"
proof (induction paths)
  case Nil
  show ?case unfolding gc_foreach.simps by (rule keeps_ret)
next
  case (Cons path paths)
  show ?case unfolding gc_foreach.simps by (intro keeps_intro wf_intro Cons)
qed

lemma keeps_wf_gc [wf_intro]: "keeps (spare D) (gc_pass E)" "keeps (spare D) (gc_round E)"
  unfolding gc_round_def gc_pass_def by (intro keeps_intro wf_intro)+

section \<open>One entry\<close>

text \<open>Whether the entry stays, and the requests made to find out.\<close>

definition gc_verdict ::
  "('w, 'm) env_scheme \<Rightarrow> conf \<Rightarrow> tpath_entry \<Rightarrow> 'w \<Rightarrow> bool \<times> 'w" where
  "gc_verdict E conf pe w =
     (if pe_refcount pe \<noteq> 0 \<or> pe_mutex pe \<or> pe_fd pe = - 1 then (True, w)
      else case os_fstat E (pe_fd pe) w of
             (Inl _, w) \<Rightarrow> (False, w)
           | (Inr st, w) \<Rightarrow>
               (case os_time E w of (t, w) \<Rightarrow> (gc_young (gc_threshold conf pe) t st, w)))"

lemma gc_threshold_lock [simp]: "gc_threshold conf (pe\<lparr>pe_mutex := b\<rparr>) = gc_threshold conf pe"
  by (simp add: gc_threshold_def)

lemma gc_callback_run:
  assumes "pes s a = Some pe"
  shows "gc_callback E path a s =
     (case gc_verdict E (gconf s) pe (world s) of
        (True, w) \<Rightarrow> Inr ((), s\<lparr>world := w\<rparr>)
      | (False, w) \<Rightarrow>
          gc_remove E path (s\<lparr>pes := (pes s)(a \<mapsto> pe\<lparr>pe_mutex := True\<rparr>), world := w\<rparr>))"
proof -
  have same: "(pes s)(a \<mapsto> pe\<lparr>pe_mutex := False\<rparr>) = pes s" if "\<not> pe_mutex pe"
    using assms that by (simp add: fun_upd_idem)
  obtain r w where f: "os_fstat E (pe_fd pe) (world s) = (r, w)" by fastforce
  obtain t v where t: "os_time E w = (t, v)" by fastforce
  note run = gc_callback_def gc_verdict_def pentry_get_refcount_def seqM_apply get_pe_def lock_runs
    ext_apply EBUSY_def
  consider "pe_refcount pe \<noteq> 0" | "pe_refcount pe = 0" "pe_mutex pe"
    | "pe_refcount pe = 0" "\<not> pe_mutex pe" "pe_fd pe = - 1"
    | "pe_refcount pe = 0" "\<not> pe_mutex pe" "pe_fd pe \<noteq> - 1" by blast
  then show ?thesis
  proof cases
    case 4
    show ?thesis
    proof (cases r)
      case (Inl e)
      with 4 assms f show ?thesis by (simp add: run)
    next
      case (Inr st)
      show ?thesis
      proof (cases "gc_young (gc_threshold (gconf s) pe) t st")
        case True
        with Inr 4 assms f t same show ?thesis by (simp add: run)
      next
        case False
        with Inr 4 assms f t show ?thesis by (simp add: run)
      qed
    qed
  qed (use assms same in \<open>simp_all add: run\<close>)
qed

lemma wf_lock:
  assumes "state_wf s" "pes s a = Some pe"
  shows "state_wf (s\<lparr>pes := (pes s)(a \<mapsto> pe\<lparr>pe_mutex := True\<rparr>), world := w\<rparr>)"
  using keepsD [of state_wf "upd_pe a (\<lambda>pe. pe\<lparr>pe_mutex := True\<rparr>)", of s "()",
      OF keeps_wf_upd_pe [where D = "{}", unfolded spare_none]] assms
  by (simp add: upd_pe_def) 

section \<open>Open files are left alone\<close>

text \<open>The entry of an open file stays where and as it is.\<close>

definition held_open :: "string \<Rightarrow> addr \<Rightarrow> tpath_entry \<Rightarrow> 'w gstate \<Rightarrow> bool" where
  "held_open path a pe s \<longleftrightarrow> state_wf s \<and> ghash s path = Some a \<and> pes s a = Some pe \<and> 0 < pe_refcount pe"

lemma held_open_world [simp]: "held_open path a pe (s\<lparr>world := w\<rparr>) = held_open path a pe s"
  by (simp add: held_open_def)

lemma held_open_distinct:
  "held_open path a pe s \<Longrightarrow> ghash s p = Some b \<Longrightarrow> p \<noteq> path \<Longrightarrow> a \<noteq> b"
  by (auto simp: held_open_def state_wf_def hash_wf_def inj_on_def dom_def)

lemma keeps_open_hash_remove:
  assumes "p \<noteq> path"
  shows "keeps (held_open path a pe) (hash_remove E p)"
proof (rule keepsI)
  fix s r s'
  assume h: "held_open path a pe s" and run: "hash_remove E p s = Inr (r, s')"
  have wf: "state_wf s'"
    using keepsD [of state_wf "hash_remove E p" s r s'] keeps_state_hash_remove [of E p] h run
    by (simp add: held_open_def)
  show "held_open path a pe s'"
  proof (cases "ghash s p")
    case None
    with h run show ?thesis by (simp add: hash_remove_def seqM_apply)
  next
    case (Some b)
    let ?t = "s\<lparr>ghash := (ghash s)(p := None)\<rparr>"
    from run Some have "pentry_free E b ?t = Inr ((), s')"
      by (auto simp: hash_remove_def seqM_apply split: sum.splits)
    then obtain pb :: tpath_entry and w where s': "s' = ?t\<lparr>world := w,
      dicts := (case pe_usermd pb of None \<Rightarrow> dicts ?t | Some d \<Rightarrow> (dicts ?t)(d := None)),
      pes := (pes ?t)(b := None)\<rparr>" by (rule pentry_free_run) (rule that)
    with held_open_distinct [OF h Some assms] h wf assms show ?thesis by (simp add: held_open_def)
  qed
qed

lemma keeps_open_gc_remove:
  assumes "p \<noteq> path"
  shows "keeps (held_open path a pe) (gc_remove E p)"
proof -
  have g: "keeps (held_open path a pe) (getS f)" "keeps (held_open path a pe) (sptr_show x)"
    "keeps (held_open path a pe) (ext h)" for f :: "'a gstate \<Rightarrow> 'c" and x and h :: "'a \<Rightarrow> 'd \<times> 'a"
    by (rule keeps_worldly; (intro worldly_intro)?; simp)+
  show ?thesis
    unfolding gc_remove_def by (intro keeps_intro g keeps_open_hash_remove assms)
qed

lemma wf_world_lock:
  "held_open path a pe s \<Longrightarrow> pes s b = Some pb \<Longrightarrow> a \<noteq> b \<Longrightarrow>
   held_open path a pe (s\<lparr>pes := (pes s)(b \<mapsto> pb\<lparr>pe_mutex := True\<rparr>), world := w\<rparr>)"
  using wf_lock [of s b pb w] by (simp add: held_open_def)

lemma gc_callback_open:
  assumes h: "held_open path a pe s" and b: "ghash s p = Some b"
    and run: "gc_callback E p b s = Inr (r, s')"
  shows "held_open path a pe s'"
proof -
  from h b obtain pb where pb: "pes s b = Some pb"
    unfolding held_open_def state_wf_def hash_wf_def by (metis domD ranI)
  obtain keep w where v: "gc_verdict E (gconf s) pb (world s) = (keep, w)" by fastforce
  show ?thesis
  proof (cases keep)
    case True
    with run h show ?thesis by (auto simp: gc_callback_run [OF pb] v)
  next
    case False
    have "p \<noteq> path"
    proof
      assume "p = path"
      with h b pb have "pb = pe" "0 < pe_refcount pe" by (auto simp: held_open_def)
      with v False show False by (simp add: gc_verdict_def)
    qed
    with held_open_distinct [OF h b] wf_world_lock [OF h pb]
    have "held_open path a pe (s\<lparr>pes := (pes s)(b \<mapsto> pb\<lparr>pe_mutex := True\<rparr>), world := w\<rparr>)" by blast
    moreover have "gc_remove E p (s\<lparr>pes := (pes s)(b \<mapsto> pb\<lparr>pe_mutex := True\<rparr>), world := w\<rparr>) = Inr (r, s')"
      using run False by (simp add: gc_callback_run [OF pb] v)
    ultimately show ?thesis
      using keepsD [of "held_open path a pe" "gc_remove E p", OF keeps_open_gc_remove] \<open>p \<noteq> path\<close> by blast
  qed
qed

lemma gc_foreach_open:
  "held_open path a pe s \<Longrightarrow> gc_foreach E ps s = Inr (r, s') \<Longrightarrow> held_open path a pe s'"
proof (induction ps arbitrary: s)
  case (Cons p ps)
  show ?case
  proof (cases "ghash s p")
    case None
    with Cons show ?thesis by (simp add: seqM_apply hash_lookup_def)
  next
    case (Some b)
    with Cons.prems(2) obtain s1 where 1: "gc_callback E p b s = Inr ((), s1)"
      "gc_foreach E ps s1 = Inr (r, s')"
      by (auto simp: seqM_apply hash_lookup_def split: sum.splits)
    from Cons.IH [OF gc_callback_open [OF Cons.prems(1) Some 1(1)] 1(2)] show ?thesis .
  qed
qed simp

lemma gc_pass_open:
  assumes "held_open path a pe s" "gc_pass E s = Inr (r, s')"
  shows "held_open path a pe s'"
  using assms gc_foreach_open [of path a pe s E "g_keys E (ghash s)" r s']
  by (simp add: gc_pass_def seqM_apply)

section \<open>What one pass removes\<close>

text \<open>The clock stands still and the files do not change while the pass runs.\<close>

definition frozen :: "('w, 'm) env_scheme \<Rightarrow> 64 word \<Rightarrow> (int \<Rightarrow> int + stat) \<Rightarrow> bool" where
  "frozen E now stats \<longleftrightarrow>
     (\<forall>w. fst (os_time E w) = now) \<and> (\<forall>fd w. fst (os_fstat E fd w) = stats fd)"

definition gc_stays :: "conf \<Rightarrow> 64 word \<Rightarrow> (int \<Rightarrow> int + stat) \<Rightarrow> tpath_entry \<Rightarrow> bool" where
  "gc_stays conf now stats pe \<longleftrightarrow>
     pe_refcount pe \<noteq> 0 \<or> pe_mutex pe \<or> pe_fd pe = - 1 \<or>
     (case stats (pe_fd pe) of Inl _ \<Rightarrow> False
      | Inr st \<Rightarrow> \<forall>x \<in> {st_atime st, st_mtime st, st_ctime st}.
          now <s x + word_of_int (gc_threshold conf pe))"

text \<open>The worlds in \<open>W\<close> agree on the clock and the files, and what a pass calls does not leave them.\<close>

definition settled ::
  "('w, 'm) env_scheme \<Rightarrow> ('w \<Rightarrow> bool) \<Rightarrow> 64 word \<Rightarrow> (int \<Rightarrow> int + stat) \<Rightarrow> bool" where
  "settled E W now stats \<longleftrightarrow> (\<forall>w. W w \<longrightarrow>
     fst (os_time E w) = now \<and> W (snd (os_time E w)) \<and>
     (\<forall>fd. fst (os_fstat E fd w) = stats fd \<and> W (snd (os_fstat E fd w)) \<and> W (snd (os_close E fd w))) \<and>
     (\<forall>p. W (snd (os_unlink E p w))))"

lemma frozen_settled: "frozen E now stats \<Longrightarrow> settled E (\<lambda>_. True) now stats"
  by (simp add: frozen_def settled_def)

lemma gc_verdict_settled:
  assumes "settled E W now stats" "W w"
  shows "fst (gc_verdict E conf pe w) = gc_stays conf now stats pe" "W (snd (gc_verdict E conf pe w))"
proof -
  obtain r v where f: "os_fstat E (pe_fd pe) w = (r, v)" by fastforce
  obtain t u where t: "os_time E v = (t, u)" by fastforce
  have "r = stats (pe_fd pe)" "W v" using assms f unfolding settled_def by (metis fst_conv snd_conv)+
  moreover from this have "t = now" "W u" using assms(1) t unfolding settled_def by (metis fst_conv snd_conv)+
  ultimately show "fst (gc_verdict E conf pe w) = gc_stays conf now stats pe"
    "W (snd (gc_verdict E conf pe w))"
    using assms(2) f t by (auto simp: gc_verdict_def gc_stays_def gc_young_def split: sum.splits)
qed

lemma gc_remove_returns:
  assumes "closes E" "settled E W now stats" "W (world s)" "state_wf s" "ghash s path = Some a"
    "c_cache_dir (gconf s) = Live cache"
  shows "\<exists>s'. gc_remove E path s = Inr ((), s') \<and> pes s' = (pes s)(a := None)
     \<and> ghash s' = (ghash s)(path := None) \<and> gconf s' = gconf s \<and> state_wf s' \<and> W (world s')"
proof -
  obtain e w where u: "os_unlink E (fmt (cache @ ''/'' @ path)) (world s) = (e, w)" by fastforce
  have w: "W w" using assms(2,3) u unfolding settled_def by (metis snd_conv)
  from assms(4,5) obtain pe where pe: "pes s a = Some pe"
    unfolding state_wf_def hash_wf_def by (metis domD ranI)
  have c: "W (closed_fd E pe w)" using assms(2) w unfolding settled_def closed_fd_def by simp
  have r: "hash_remove E path (s\<lparr>world := w\<rparr>) = Inr (True, s\<lparr>world := w, ghash := (ghash s)(path := None),
      pes := (pes s)(a := None), dicts := disowned pe (dicts s), world := closed_fd E pe w\<rparr>)"
    using hash_remove_exact [OF assms(1), of "s\<lparr>world := w\<rparr>" path a pe] assms(4,5) pe by simp
  from keepsD [OF keeps_state_hash_remove _ r] assms(4)
  have "state_wf (s\<lparr>world := w, ghash := (ghash s)(path := None), pes := (pes s)(a := None),
      dicts := disowned pe (dicts s), world := closed_fd E pe w\<rparr>)" by simp
  with r u c assms(6) show ?thesis by (simp add: gc_remove_def seqM_apply ext_apply)
qed

definition gc_gone :: "(tpath_entry \<Rightarrow> bool) \<Rightarrow> 'w gstate \<Rightarrow> string \<Rightarrow> bool" where
  "gc_gone stays s p \<longleftrightarrow>
     (case ghash s p of None \<Rightarrow> False
      | Some a \<Rightarrow> (case pes s a of None \<Rightarrow> False | Some pe \<Rightarrow> \<not> stays pe))"

text \<open>One entry: it stays as it is, or is gone.\<close>

lemma gc_step:
  assumes "closes E" "settled E W now stats" "state_wf s" "c_cache_dir (gconf s) = Live cache" "W (world s)"
    and a: "ghash s p = Some a"
  defines "stays \<equiv> gc_stays (gconf s) now stats"
  shows "\<exists>s'. gc_callback E p a s = Inr ((), s') \<and> state_wf s' \<and> gconf s' = gconf s \<and> W (world s') \<and>
     ghash s' = (if gc_gone stays s p then (ghash s)(p := None) else ghash s) \<and>
     (\<forall>q b. ghash s' q = Some b \<longrightarrow> pes s' b = pes s b)"
proof -
  from assms(3) a obtain pe where pe: "pes s a = Some pe"
    unfolding state_wf_def hash_wf_def by (metis domD ranI)
  obtain keep w where v: "gc_verdict E (gconf s) pe (world s) = (keep, w)" by fastforce
  with gc_verdict_settled [OF assms(2,5), of "gconf s" pe] a pe
  have gone: "gc_gone stays s p \<longleftrightarrow> \<not> keep" and w: "W w" by (simp_all add: gc_gone_def stays_def)
  show ?thesis
  proof (cases keep)
    case True
    with v w gone assms(3) show ?thesis by (simp add: gc_callback_run [OF pe])
  next
    case False
    let ?t = "s\<lparr>pes := (pes s)(a \<mapsto> pe\<lparr>pe_mutex := True\<rparr>), world := w\<rparr>"
    obtain s' where s': "gc_remove E p ?t = Inr ((), s')" "pes s' = (pes s)(a := None)"
      "ghash s' = (ghash s)(p := None)" "gconf s' = gconf s" "state_wf s'" "W (world s')"
      using gc_remove_returns [OF assms(1,2) _ wf_lock [OF assms(3) pe, of w], of p a cache] assms(4) a w
      by auto
    have "b \<noteq> a" if "ghash s' q = Some b" for q b
      using that s'(3) assms(3) a
      by (auto simp: state_wf_def hash_wf_def inj_on_def dom_def split: if_splits)
    with s' v gone False show ?thesis by (simp add: gc_callback_run [OF pe])
  qed
qed

lemma gc_foreach_result:
  assumes "closes E" "settled E W now stats" "state_wf s" "c_cache_dir (gconf s) = Live cache" "W (world s)"
  defines "stays \<equiv> gc_stays (gconf s) now stats"
  shows "\<exists>s'. gc_foreach E ps s = Inr ((), s') \<and> state_wf s' \<and> gconf s' = gconf s \<and> W (world s') \<and>
     ghash s' = (\<lambda>p. if p \<in> set ps \<and> gc_gone stays s p then None else ghash s p) \<and>
     (\<forall>q b. ghash s' q = Some b \<longrightarrow> pes s' b = pes s b)"
  using assms(3-5) unfolding stays_def
proof (induction ps arbitrary: s)
  case (Cons p ps)
  let ?gone = "gc_gone (gc_stays (gconf s) now stats)"
  show ?case
  proof (cases "ghash s p")
    case None
    with Cons.IH [OF Cons.prems] show ?thesis
      by (auto simp: seqM_apply hash_lookup_def gc_gone_def fun_eq_iff)
  next
    case (Some a)
    from gc_step [OF assms(1,2) Cons.prems Some] obtain s1 where
      1: "gc_callback E p a s = Inr ((), s1)" "state_wf s1" "gconf s1 = gconf s" "W (world s1)"
        "ghash s1 = (if ?gone s p then (ghash s)(p := None) else ghash s)"
        "\<forall>q b. ghash s1 q = Some b \<longrightarrow> pes s1 b = pes s b" by blast
    from Cons.IH [OF 1(2) _ 1(4)] 1(3) Cons.prems(2) obtain s' where
      2: "gc_foreach E ps s1 = Inr ((), s')" "state_wf s'" "gconf s' = gconf s" "W (world s')"
        "ghash s' = (\<lambda>q. if q \<in> set ps \<and> ?gone s1 q then None else ghash s1 q)"
        "\<forall>q b. ghash s' q = Some b \<longrightarrow> pes s' b = pes s1 b" by auto
    have g: "?gone s1 q \<longleftrightarrow> ghash s1 q \<noteq> None \<and> ?gone s q" for q
      using 1(5,6) by (auto simp: gc_gone_def split: option.splits if_splits)
    have "ghash s' = (\<lambda>q. if q \<in> set (p # ps) \<and> ?gone s q then None else ghash s q)"
      unfolding 2(5) g 1(5) by (auto simp: fun_eq_iff)
    moreover have "\<forall>q b. ghash s' q = Some b \<longrightarrow> pes s' b = pes s b"
      using 1(6) 2(5,6) by (auto split: if_splits)
    ultimately show ?thesis
      using 1(1) 2(1-4) Some by (simp add: seqM_apply hash_lookup_def)
  qed
qed simp

text \<open>A pass, as what it does to the map of entries.\<close>

definition gc_kept :: "(tpath_entry \<Rightarrow> bool) \<Rightarrow> (string \<rightharpoonup> tpath_entry) \<Rightarrow> (string \<rightharpoonup> tpath_entry)" where
  "gc_kept stays m = (\<lambda>p. case m p of None \<Rightarrow> None | Some pe \<Rightarrow> if stays pe then Some pe else None)"


lemma gc_pass_result:
  assumes "closes E" "settled E W now stats" "state_wf s" "c_cache_dir (gconf s) = Live cache" "W (world s)"
    and "set (g_keys E (ghash s)) = dom (ghash s)"
  shows "\<exists>s'. gc_pass E s = Inr ((), s') \<and> state_wf s' \<and> gconf s' = gconf s \<and> W (world s') \<and>
     dom (ghash s') \<subseteq> dom (ghash s) \<and> view s' = gc_kept (gc_stays (gconf s) now stats) (view s)"
proof -
  let ?stays = "gc_stays (gconf s) now stats"
  from gc_foreach_result [OF assms(1-5), of "g_keys E (ghash s)"] obtain s' where
    1: "gc_foreach E (g_keys E (ghash s)) s = Inr ((), s')" "state_wf s'" "gconf s' = gconf s" "W (world s')"
      "ghash s' = (\<lambda>p. if p \<in> dom (ghash s) \<and> gc_gone ?stays s p then None else ghash s p)"
      "\<forall>q b. ghash s' q = Some b \<longrightarrow> pes s' b = pes s b"
    unfolding assms(6) by blast
  have h: "ghash s' p = (if gc_gone ?stays s p then None else ghash s p)" for p
    unfolding 1(5) by (auto simp: gc_gone_def split: option.splits)
  have "view s' p = gc_kept ?stays (view s) p" for p
  proof (cases "ghash s p")
    case None
    with h show ?thesis by (simp add: view_def gc_gone_def gc_kept_def)
  next
    case (Some a)
    then have "pes s a \<noteq> None" using view_defined [OF assms(3), of p] by (simp add: view_def)
    then obtain pe where pe: "pes s a = Some pe" by blast
    with Some have gone: "gc_gone ?stays s p \<longleftrightarrow> \<not> ?stays pe" by (simp add: gc_gone_def)
    show ?thesis
    proof (cases "?stays pe")
      case True
      with gone Some h have "ghash s' p = Some a" by simp
      with 1(6) pe Some True show ?thesis by (simp add: view_def gc_kept_def)
    qed (use gone Some pe h in \<open>simp add: view_def gc_kept_def\<close>)
  qed
  then have "view s' = gc_kept ?stays (view s)" by (rule ext)
  moreover have "dom (ghash s') \<subseteq> dom (ghash s)" by (auto simp: h split: if_splits)
  ultimately show ?thesis using 1(1-4) by (simp add: gc_pass_def seqM_apply)
qed

section \<open>The thread\<close>










section \<open>Properties\<close>

text \<open>
  C8. The garbage collector never touches a file that is open: an entry with a reference is,
  after a pass over the whole table, still in the table under its path and unchanged, and its
  handle is still valid, whatever the system calls answer and in whatever order the table is
  walked.
\<close>

theorem gc_spares_open_files:
  assumes "state_wf s" and "ghash s path = Some a" and "pes s a = Some pe" and "0 < pe_refcount pe"
    and "gc_pass E s = Inr (u, s')"
  shows "state_wf s' \<and> ghash s' path = Some a \<and> pes s' a = Some pe"
  using gc_pass_open [OF _ assms(5), of path a pe] assms(1-4) by (simp add: held_open_def)


lemma sim_frozen: "frozen sim_env sim_now (\<lambda>_. Inr sim_stat)"
  by (simp add: frozen_def sim_defs)

lemma sim_keys_dom: "set (g_keys sim_env (ghash sim_state)) = dom (ghash sim_state)"
  by (auto simp: sim_defs sim_keys_def sim_state_def)

lemma sim_cache: "c_cache_dir (gconf sim_state) = Live ''/tmp/b''"
  by (simp add: sim_state_def sim_conf_def)


definition sim_open :: "sim gstate" where
  "sim_open = sim_state\<lparr>pes := [0 \<mapsto> sim_pe\<lparr>pe_refcount := 1\<rparr>]\<rparr>"

lemma gc_spares_open_files_witness:
  "\<exists>s'. gc_pass sim_env sim_open = Inr ((), s') \<and> ghash s' ''/a'' = Some 0"
proof -
  have wf: "state_wf sim_open"
    by (auto simp: sim_open_def sim_state_def sim_pe_def state_wf_def hash_wf_def path_wf_def dict_wf_def
        fresh_wf_def owns_def inj_on_def split: if_splits)
  have "set (g_keys sim_env (ghash sim_open)) = dom (ghash sim_open)"
    using sim_keys_dom by (simp add: sim_open_def)
  then obtain s' where r: "gc_pass sim_env sim_open = Inr ((), s')"
    using gc_pass_result [OF sim_closes frozen_settled [OF sim_frozen] wf, of "''/tmp/b''"] sim_cache
    by (auto simp: sim_open_def)
  with gc_spares_open_files [OF wf _ _ _ r, of "''/a''" 0 "sim_pe\<lparr>pe_refcount := 1\<rparr>"] show ?thesis
    by (simp add: sim_open_def sim_state_def)
qed





end
