(* ===== verification/Tmpstr.thy ===== *)
theory Tmpstr
  imports Cstring
begin

text \<open>
  The temporary strings of \<open>src/tmpstr.c\<close>: 32 static buffers of 2048 bytes, handed out in
  turn.  The components treat what \<open>tmpstr_printf\<close> returns as a value; this theory shows
  for how long that is right: a string lives until the 32nd following call.
\<close>

definition tmpstr_nb :: nat where
  "tmpstr_nb = 32"

record tmpstrs =
  strings :: "string list"
  current :: nat

definition tmpstr_init :: tmpstrs where
  "tmpstr_init = \<lparr>strings = replicate tmpstr_nb [], current = 0\<rparr>"

text \<open>The result is the index of the buffer.\<close>

definition tmpstr_new :: "(tmpstrs, nat) prog" where
  "tmpstr_new s =
     (let c = (if current s + 1 \<ge> tmpstr_nb then 0 else current s + 1)
      in if c < length (strings s) then Inr (c, s\<lparr>current := c\<rparr>) else Inl OutOfBounds)"

definition tmpstr_printf :: "string \<Rightarrow> (tmpstrs, nat) prog" where
  "tmpstr_printf text =
     seqM tmpstr_new (\<lambda>i.
     seqM (modS (\<lambda>s. s\<lparr>strings := (strings s)[i := fmt text]\<rparr>)) (\<lambda>_. ret i))"

fun tmpstr_printfs :: "string list \<Rightarrow> (tmpstrs, nat list) prog" where
  "tmpstr_printfs [] = ret []"
| "tmpstr_printfs (t # ts) =
     seqM (tmpstr_printf t) (\<lambda>i. seqM (tmpstr_printfs ts) (\<lambda>is. ret (i # is)))"

definition tmpstrs_wf :: "tmpstrs \<Rightarrow> bool" where
  "tmpstrs_wf s \<longleftrightarrow> length (strings s) = tmpstr_nb \<and> current s < tmpstr_nb \<and>
     (\<forall>t \<in> set (strings s). length t < tmpstr_max)"

lemma tmpstr_init_wf: "tmpstrs_wf tmpstr_init"
  by (simp add: tmpstrs_wf_def tmpstr_init_def tmpstr_nb_def tmpstr_max_def)

lemma tmpstr_new_run:
  "tmpstrs_wf s \<Longrightarrow> tmpstr_new s =
     Inr ((current s + 1) mod tmpstr_nb, s\<lparr>current := (current s + 1) mod tmpstr_nb\<rparr>)"
  by (auto simp: tmpstr_new_def tmpstrs_wf_def tmpstr_nb_def Let_def le_Suc_eq mod_Suc)

lemma tmpstr_printf_run:
  assumes "tmpstrs_wf s"
  defines "c \<equiv> (current s + 1) mod tmpstr_nb"
  shows "tmpstr_printf t s = Inr (c, s\<lparr>strings := (strings s)[c := fmt t], current := c\<rparr>)"
  using assms by (simp add: tmpstr_printf_def seqM_apply tmpstr_new_run)

lemma tmpstr_printf_wf:
  assumes "tmpstrs_wf s" "tmpstr_printf t s = Inr (i, s')"
  shows "tmpstrs_wf s'"
  using assms tmpstr_printf_run [OF assms(1), of t] length_fmt [of t]
  by (auto simp: tmpstrs_wf_def tmpstr_nb_def dest!: set_update_subset_insert [THEN subsetD])

lemma tmpstr_printfs_run:
  assumes "tmpstrs_wf s"
  shows "\<exists>s'. tmpstr_printfs ts s =
       Inr (map (\<lambda>k. (current s + 1 + k) mod tmpstr_nb) [0..<length ts], s') \<and> tmpstrs_wf s' \<and>
     current s' = (current s + length ts) mod tmpstr_nb \<and>
     (\<forall>i < tmpstr_nb. (\<forall>k < length ts. i \<noteq> (current s + 1 + k) mod tmpstr_nb) \<longrightarrow>
        strings s' ! i = strings s ! i)"
  using assms
proof (induction ts arbitrary: s)
  case Nil
  then show ?case by (simp add: tmpstrs_wf_def)
next
  case (Cons t ts)
  let ?c = "(current s + 1) mod tmpstr_nb"
  let ?s = "s\<lparr>strings := (strings s)[?c := fmt t], current := ?c\<rparr>"
  have run: "tmpstr_printf t s = Inr (?c, ?s)" by (rule tmpstr_printf_run [OF Cons.prems])
  have wf: "tmpstrs_wf ?s" by (rule tmpstr_printf_wf [OF Cons.prems run])
  from Cons.IH [OF wf] obtain s' where s':
    "tmpstr_printfs ts ?s = Inr (map (\<lambda>k. (?c + 1 + k) mod tmpstr_nb) [0..<length ts], s')"
    "tmpstrs_wf s'" "current s' = (?c + length ts) mod tmpstr_nb"
    "\<forall>i < tmpstr_nb. (\<forall>k < length ts. i \<noteq> (?c + 1 + k) mod tmpstr_nb) \<longrightarrow>
        strings s' ! i = strings ?s ! i" by auto
  have shift: "(?c + 1 + k) mod tmpstr_nb = (current s + 1 + Suc k) mod tmpstr_nb" for k
    by (metis add.assoc mod_add_left_eq plus_1_eq_Suc)
  have "map (\<lambda>k. (current s + 1 + k) mod tmpstr_nb) [0..<length (t # ts)] =
      ?c # map (\<lambda>k. (?c + 1 + k) mod tmpstr_nb) [0..<length ts]"
    unfolding shift by (simp only: length_Cons upt_conv_Cons [of 0 "Suc _"] zero_less_Suc
      list.map add_0_right map_Suc_upt [symmetric] map_map o_def)
  moreover have "current s' = (current s + length (t # ts)) mod tmpstr_nb"
    using s'(3) by (simp add: mod_simps)
  moreover have "strings s' ! i = strings s ! i"
    if "i < tmpstr_nb" "\<forall>k < length (t # ts). i \<noteq> (current s + 1 + k) mod tmpstr_nb" for i
  proof -
    have "i \<noteq> ?c" using that(2) [rule_format, of 0] by simp
    moreover have "\<forall>k < length ts. i \<noteq> (?c + 1 + k) mod tmpstr_nb"
      unfolding shift using that(2) by (metis Suc_less_eq length_Cons)
    ultimately show ?thesis using s'(4) that(1) by simp
  qed
  ultimately show ?case
    using s' by (simp add: seqM_apply run)
qed

lemma ring_distinct:
  fixes c k :: nat assumes "0 < k" "k < n" shows "(c + k) mod n \<noteq> c mod n"
proof
  assume "(c + k) mod n = c mod n"
  then have "n dvd k" by (metis add_diff_cancel_left' le_add1 mod_eq_dvd_iff_nat)
  with assms show False by (simp add: nat_dvd_not_less)
qed

text \<open>
  A temporary string lives through the next 31 calls of \<open>tmpstr_printf\<close>: they get other buffers
  and leave its text alone.
\<close>

theorem tmpstr_lifetime:
  assumes "tmpstrs_wf s" and "tmpstr_printf t s = Inr (i, s1)" and "length ts < tmpstr_nb"
  shows "\<exists>is s2. tmpstr_printfs ts s1 = Inr (is, s2) \<and> i \<notin> set is \<and> strings s2 ! i = fmt t"
proof -
  let ?c = "(current s + 1) mod tmpstr_nb"
  from assms(2) tmpstr_printf_run [OF assms(1), of t]
  have i: "i = ?c" and s1: "current s1 = ?c" "strings s1 = (strings s)[?c := fmt t]" by auto
  have wf: "tmpstrs_wf s1" by (rule tmpstr_printf_wf [OF assms(1,2)])
  have "?c < length (strings s)" using assms(1) by (simp add: tmpstrs_wf_def tmpstr_nb_def)
  then have str: "strings s1 ! i = fmt t" by (simp add: s1 i)
  have "i < tmpstr_nb" by (simp add: i tmpstr_nb_def)
  moreover have fresh: "(current s1 + 1 + k) mod tmpstr_nb \<noteq> i" if "k < length ts" for k
    using ring_distinct [of "Suc k" tmpstr_nb "?c"] that assms(3) by (simp add: s1 i)
  moreover obtain s2 where r: "tmpstr_printfs ts s1 =
       Inr (map (\<lambda>k. (current s1 + 1 + k) mod tmpstr_nb) [0..<length ts], s2)"
    and keep: "\<And>i. i < tmpstr_nb \<Longrightarrow> \<forall>k < length ts. i \<noteq> (current s1 + 1 + k) mod tmpstr_nb \<Longrightarrow>
       strings s2 ! i = strings s1 ! i"
    using tmpstr_printfs_run [OF wf, of ts] by blast
  ultimately have "strings s2 ! i = fmt t" using str by metis
  moreover have "i \<notin> set (map (\<lambda>k. (current s1 + 1 + k) mod tmpstr_nb) [0..<length ts])"
    using fresh by (auto simp: image_iff) metis
  ultimately show ?thesis using r by blast
qed

text \<open>
  The bound is sharp: the 32nd call after it gets the same buffer and overwrites the text.
\<close>

theorem tmpstr_reuse:
  assumes "tmpstrs_wf s" and "tmpstr_printf t s = Inr (i, s1)" and "length ts + 1 = tmpstr_nb"
  shows "\<exists>is s2 s3. tmpstr_printfs ts s1 = Inr (is, s2) \<and> tmpstr_printf u s2 = Inr (i, s3) \<and>
     strings s3 ! i = fmt u"
proof -
  let ?c = "(current s + 1) mod tmpstr_nb"
  from assms(2) tmpstr_printf_run [OF assms(1), of t]
  have i: "i = ?c" and s1: "current s1 = ?c" by auto
  have wf: "tmpstrs_wf s1" by (rule tmpstr_printf_wf [OF assms(1,2)])
  from tmpstr_printfs_run [OF wf, of ts] obtain "is" s2 where r: "tmpstr_printfs ts s1 = Inr (is, s2)"
    and s2: "tmpstrs_wf s2" "current s2 = (current s1 + length ts) mod tmpstr_nb" by auto
  have "(current s2 + 1) mod tmpstr_nb = (?c + (length ts + 1)) mod tmpstr_nb"
    unfolding s2 s1 by (metis add.assoc mod_add_left_eq)
  also have "\<dots> = ?c" by (simp only: assms(3)) simp
  finally have "(current s2 + 1) mod tmpstr_nb = i" by (simp add: i)
  moreover have "i < length (strings s2)" using s2(1) by (simp add: i tmpstrs_wf_def tmpstr_nb_def)
  ultimately show ?thesis
    using r tmpstr_printf_run [OF s2(1), of u] by auto
qed

lemma tmpstr_lifetime_witness:
  "\<exists>s1 is s2. tmpstr_printf ''/a'' tmpstr_init = Inr (1, s1) \<and>
     tmpstr_printfs (replicate 31 ''/b'') s1 = Inr (is, s2) \<and> strings s2 ! 1 = ''/a''"
proof -
  obtain s1 where "tmpstr_printf ''/a'' tmpstr_init = Inr (1, s1)"
    using tmpstr_printf_run [OF tmpstr_init_wf, of "''/a''"]
    by (simp add: tmpstr_init_def tmpstr_nb_def)
  with tmpstr_lifetime [OF tmpstr_init_wf this, of "replicate 31 ''/b''"] show ?thesis
    by (auto simp: tmpstr_nb_def tmpstr_max_def)
qed

lemma tmpstr_reuse_witness:
  "\<exists>s1 is s2 s3. tmpstr_printf ''/a'' tmpstr_init = Inr (1, s1) \<and>
     tmpstr_printfs (replicate 31 ''/b'') s1 = Inr (is, s2) \<and>
     tmpstr_printf ''/c'' s2 = Inr (1, s3) \<and> strings s3 ! 1 = ''/c''"
proof -
  obtain s1 where "tmpstr_printf ''/a'' tmpstr_init = Inr (1, s1)"
    using tmpstr_printf_run [OF tmpstr_init_wf, of "''/a''"]
    by (simp add: tmpstr_init_def tmpstr_nb_def)
  with tmpstr_reuse [OF tmpstr_init_wf this, of "replicate 31 ''/b''" "''/c''"] show ?thesis
    by (auto simp: tmpstr_nb_def tmpstr_max_def)
qed

section \<open>A run of calls\<close>

text \<open>
  After \<open>n\<close> calls in a row the buffer that the call \<open>k\<close> returned holds the text of the last call
  that came round to it.
\<close>

lemma tmpstr_printfs_content:
  assumes "tmpstrs_wf s" and "tmpstr_printfs ts s = Inr (is, s')" and "k < length ts"
  shows "strings s' ! (is ! k) = fmt (ts ! (k + tmpstr_nb * ((length ts - 1 - k) div tmpstr_nb)))"
  using assms
proof (induction ts arbitrary: s "is" k)
  case (Cons t ts)
  let ?c = "(current s + 1) mod tmpstr_nb"
  let ?s = "s\<lparr>strings := (strings s)[?c := fmt t], current := ?c\<rparr>"
  have run: "tmpstr_printf t s = Inr (?c, ?s)" by (rule tmpstr_printf_run [OF Cons.prems(1)])
  have wf: "tmpstrs_wf ?s" by (rule tmpstr_printf_wf [OF Cons.prems(1) run])
  from Cons.prems(2) obtain js where js: "tmpstr_printfs ts ?s = Inr (js, s')" "is = ?c # js"
    by (auto simp: seqM_apply run split: sum.splits)
  from tmpstr_printfs_run [OF wf, of ts] js(1)
  have j: "js = map (\<lambda>k. (?c + 1 + k) mod tmpstr_nb) [0..<length ts]"
    and frame: "\<And>i. i < tmpstr_nb \<Longrightarrow> \<forall>k < length ts. i \<noteq> (?c + 1 + k) mod tmpstr_nb \<Longrightarrow>
        strings s' ! i = strings ?s ! i" by auto
  note IH = Cons.IH [OF wf js(1)]
  show ?case
  proof (cases k)
    case (Suc m)
    with IH [of m] Cons.prems(3) show ?thesis by (simp add: js(2))
  next
    case 0
    show ?thesis
    proof (cases "length ts < tmpstr_nb")
      case True
      have "?c \<noteq> (?c + 1 + m) mod tmpstr_nb" if "m < length ts" for m
        using ring_distinct [of "Suc m" tmpstr_nb ?c] that True by simp
      moreover have "?c < length (strings s)"
        using Cons.prems(1) by (simp add: tmpstrs_wf_def tmpstr_nb_def)
      ultimately have "strings s' ! ?c = fmt t" using frame [of ?c] by (simp add: tmpstr_nb_def)
      then show ?thesis using 0 True by (simp add: js(2))
    next
      case False
      define r where "r = length ts - tmpstr_nb"
      have len: "length ts = 32 + r" using False by (simp add: r_def tmpstr_nb_def)
      have "js ! 31 = ?c" by (simp add: j len tmpstr_nb_def)
      moreover have "strings s' ! (js ! 31) = fmt (ts ! (31 + 32 * (r div 32)))"
        using IH [of 31] by (simp add: len tmpstr_nb_def)
      moreover have "(32 + r) div 32 = Suc (r div 32)" by simp
      ultimately show ?thesis using 0 by (simp add: js(2) len tmpstr_nb_def)
    qed
  qed
qed simp

end
