(* ===== verification/Cachedir.thy ===== *)
theory Cachedir
  imports Getattr Tmpstr
begin

text \<open>
  The thread of \<open>src/cachedir.c\<close> that keeps the metadata of the table up to date.  At its
  start it pushes the names of the root directory to a pool of threads, which ask for their
  attributes; then it goes over the table and pushes the entries that were not refreshed for
  a while.  A job of the pool is an address: of a temporary string for the names, of an entry
  of the table for the others.  The lemmas show what the jobs find there when they run.
\<close>

section \<open>Refreshing one entry\<close>

record 'w penv = "'w env" +
  \<comment> \<open>\<open>g_thread_pool_new\<close>: is there a pool, and the error it stored if it stored one\<close>
  g_pool_new :: "'w \<Rightarrow> (bool \<times> bool option) \<times> 'w"
  g_pool_threads :: "'w \<Rightarrow> nat \<times> 'w"
  g_pool_free :: "'w \<Rightarrow> 'w"
  os_usleep :: "32 word \<Rightarrow> 'w \<Rightarrow> 'w"
  sizeof_pentry :: "64 word"
  \<comment> \<open>the bytes of a path entry in memory\<close>
  m_bytes :: "addr \<Rightarrow> tpath_entry \<Rightarrow> 'w \<Rightarrow> string"

definition own_opt :: "dict option \<Rightarrow> ('w, addr option) dprog" where
  "own_opt got = (case got of None \<Rightarrow> ret None | Some d \<Rightarrow> seqM (own_dict d) (\<lambda>a. ret (Some a)))"

text \<open>The end of both: the entry takes a copy if nobody holds its metadata.\<close>

definition refresh_md :: "('w, 'm) env_scheme \<Rightarrow> addr \<Rightarrow> addr option \<Rightarrow> ('w, unit) dprog" where
  "refresh_md E a usermd =
     seqM (pentry_md_trylock a) (\<lambda>busy.
     if busy \<noteq> 0 then ret ()
     else
       seqM (case usermd of None \<Rightarrow> ret 0 | Some d \<Rightarrow> pentry_set_usermd E a (Some d)) (\<lambda>_.
       seqM (ext (os_time E)) (\<lambda>now.
       seqM (upd_pe a (\<lambda>pe. pe\<lparr>pe_atime := Some now\<rparr>)) (\<lambda>_.
       pentry_md_unlock a))))"

definition cb_map_dirents :: "('w, 'm) env_scheme \<Rightarrow> string \<Rightarrow> ('w, unit) dprog" where
  "cb_map_dirents E path =
     seqM (hash_lookup (Some path)) (\<lambda>found.
     case found of None \<Rightarrow> ret ()
     | Some a \<Rightarrow>
         seqM (dfs_namei_timeout E path None) (\<lambda>(rc, _).
         if DPL_SUCCESS \<noteq> rc then ret ()
         else
           seqM (dfs_getattr_timeout E path) (\<lambda>(rc, got).
           seqM (own_opt got) (\<lambda>usermd.
           seqM (if DPL_SUCCESS \<noteq> rc \<and> DPL_EISDIR \<noteq> rc then ret () else refresh_md E a usermd) (\<lambda>_.
           dict_free_opt usermd)))))"

text \<open>\<open>list_map\<close> over the names of a directory.\<close>

fun map_dirents :: "('w, 'm) env_scheme \<Rightarrow> string list \<Rightarrow> ('w, unit) dprog" where
  "map_dirents E [] = ret ()"
| "map_dirents E (name # names) = seqM (cb_map_dirents E name) (\<lambda>_. map_dirents E names)"

definition update_md :: "('w, 'm) env_scheme \<Rightarrow> addr \<Rightarrow> ('w, unit) dprog" where
  "update_md E a =
     seqM (get_pe a) (\<lambda>pe.
     seqM (derefM NullDeref (pe_path pe)) (\<lambda>path.
     seqM (ask (d_cwd E)) (\<lambda>ino.
     seqM (dfs_namei_timeout E path (Some ino)) (\<lambda>(rc, type, _).
     if DPL_SUCCESS \<noteq> rc then ret ()
     else
       seqM (dfs_getattr_timeout E path) (\<lambda>(rc, got).
       seqM (own_opt got) (\<lambda>usermd.
       seqM (if DPL_SUCCESS \<noteq> rc \<and> DPL_EISDIR \<noteq> rc then ret ()
             else
               seqM (derefM UninitRead type) (\<lambda>type.
               seqM (if DPL_FTYPE_DIR = type then
                       seqM (get_pe a) (\<lambda>pe. map_dirents E (pe_dirent pe))
                     else ret ()) (\<lambda>_.
               refresh_md E a usermd))) (\<lambda>_.
       dict_free_opt usermd)))))))"

section \<open>The pool\<close>

datatype job = Name nat | Cell addr

text \<open>The characters before the first NUL of some bytes of memory; \<open>None\<close> if there is none.\<close>

definition c_string :: "string \<Rightarrow> string option" where
  "c_string bytes = (if CHR 0x00 \<in> set bytes then Some (takeWhile (\<lambda>c. c \<noteq> CHR 0x00) bytes) else None)"

text \<open>
  What a thread of the pool does with a job: it takes the address as a path.  A name is read
  when the job runs, from the ring \<open>ring\<close> of temporary strings; of an entry its bytes are read.
\<close>

definition cb_get_md :: "('w, 'm) penv_scheme \<Rightarrow> tmpstrs \<Rightarrow> job \<Rightarrow> ('w, unit) dprog" where
  "cb_get_md E ring j =
     (case j of
        Name i \<Rightarrow> seqM (dfs_getattr E (strings ring ! i)) (\<lambda>_. ret ())
      | Cell a \<Rightarrow>
          seqM (get_pe a) (\<lambda>pe.
          seqM (ask (m_bytes E a pe)) (\<lambda>bytes.
          seqM (derefM OutOfBounds (c_string bytes)) (\<lambda>path.
          seqM (dfs_getattr E path) (\<lambda>_. ret ())))))"

text \<open>
  The age is a \<open>time_t\<close>, the size a product of unsigned numbers that is stored in an \<open>int\<close>.
\<close>

definition table_size :: "('w, 'm) penv_scheme \<Rightarrow> (string \<rightharpoonup> addr) \<Rightarrow> int" where
  "table_size E hash = to_int32 (word_of_nat (length (g_keys E hash)) * (sizeof_pentry E + 64))"

definition cachedir_callback :: "('w, 'm) penv_scheme \<Rightarrow> addr \<Rightarrow> ('w, job list) dprog" where
  "cachedir_callback E a =
     seqM (ext (os_time E)) (\<lambda>now.
     seqM (get_pe a) (\<lambda>pe.
     seqM (derefM UninitRead (pe_atime pe)) (\<lambda>atime.
     let age = now - atime in
     seqM (getS ghash) (\<lambda>hash.
     seqM (getS gconf) (\<lambda>conf.
     if table_size E hash > c_cache_max_size conf then ret []
     else if age <s word_of_int (c_sc_age_threshold conf) then ret []
     else ret [Cell a])))))"

fun cachedir_foreach :: "('w, 'm) penv_scheme \<Rightarrow> string list \<Rightarrow> ('w, job list) dprog" where
  "cachedir_foreach E [] = ret []"
| "cachedir_foreach E (path # paths) =
     seqM (hash_lookup (Some path)) (\<lambda>found.
     seqM (case found of None \<Rightarrow> ret [] | Some a \<Rightarrow> cachedir_callback E a) (\<lambda>jobs.
     seqM (cachedir_foreach E paths) (\<lambda>more. ret (jobs @ more))))"

definition cachedir_pass :: "('w, 'm) penv_scheme \<Rightarrow> ('w, job list) dprog" where
  "cachedir_pass E = seqM (getS (\<lambda>s. g_keys E (ghash s))) (cachedir_foreach E)"

text \<open>One name of the root directory: its string and its job.\<close>

definition preload_name :: "string \<Rightarrow> (tmpstrs, job) prog" where
  "preload_name name = seqM (tmpstr_printf (''/'' @ name)) (\<lambda>i. ret (Name i))"

definition preload_body ::
  "('w, 'm) env_scheme \<Rightarrow> nat \<Rightarrow> tmpstrs \<times> job list \<Rightarrow> ('w, (tmpstrs \<times> job list) + (tmpstrs \<times> job list)) dprog" where
  "preload_body E hdl = (\<lambda>(ring, jobs).
     seqM (ext (d_readdir E hdl)) (\<lambda>next.
     case next of None \<Rightarrow> ret (Inr (ring, jobs))
     | Some name \<Rightarrow>
         (case preload_name name ring of
            Inl f \<Rightarrow> crash f
          | Inr (j, ring) \<Rightarrow> ret (Inl (ring, jobs @ [j])))))"

text \<open>
  The entry of the root directory; \<open>None\<close> if it could not be made.  A new one is filled
  and inserted as in \<open>dfs_getattr\<close>.
\<close>

definition preload_entry :: "('w, 'm) env_scheme \<Rightarrow> ('w, addr option) dprog" where
  "preload_entry E =
     seqM (hash_lookup (Some ''/'')) (\<lambda>found.
     case found of Some a \<Rightarrow> ret (Some a)
     | None \<Rightarrow>
         seqM (pentry_new E) (\<lambda>new.
         case new of None \<Rightarrow> ret None
         | Some a \<Rightarrow>
             seqM (getattr_enter E ''/'' a) (\<lambda>ok. if \<not> ok then ret None else ret (Some a))))"

text \<open>The ring and the jobs pushed, in their order.\<close>

definition root_dir_preload ::
  "('w, 'm) env_scheme \<Rightarrow> tmpstrs \<Rightarrow> ('w, tmpstrs \<times> job list) dprog" where
  "root_dir_preload E ring =
     seqM (preload_entry E) (\<lambda>pe.
     case pe of None \<Rightarrow> ret (ring, [])
     | Some a \<Rightarrow>
         seqM (dfs_chdir_timeout E ''/'') (\<lambda>rc.
         if DPL_SUCCESS \<noteq> rc then ret (ring, [])
         else
           seqM (dfs_opendir_timeout E ''.'') (\<lambda>(rc, hdl).
           if DPL_SUCCESS \<noteq> rc then ret (ring, [])
           else
             seqM (loopM (preload_body E hdl) (ring, [])) (\<lambda>out.
             seqM (ext (os_time E)) (\<lambda>now.
             seqM (upd_pe a (\<lambda>pe. pe\<lparr>pe_atime := Some now\<rparr>)) (\<lambda>_.
             seqM (ext (\<lambda>w. ((), d_closedir E hdl w))) (\<lambda>_. ret out)))))))"

text \<open>
  The thread up to its endless loop: \<open>None\<close> if it ends before.  The error variable is not
  set by the caller, and by the library only when there is an error.
\<close>

definition thread_cachedir_start ::
  "('w, 'm) penv_scheme \<Rightarrow> tmpstrs \<Rightarrow> ('w, (tmpstrs \<times> job list) option) dprog" where
  "thread_cachedir_start E ring =
     seqM (getS gconf) (\<lambda>conf.
     if c_sc_loop_delay conf = 0 \<or> c_sc_age_threshold conf = 0 then ret None
     else
       seqM (ext (g_pool_new E)) (\<lambda>(pool, err).
       seqM (derefM UninitRead err) (\<lambda>err.
       if err then
         seqM (if pool then ext (\<lambda>w. ((), g_pool_free E w)) else ret ()) (\<lambda>_. ret None)
       else
         seqM (root_dir_preload E ring) (\<lambda>(ring, jobs).
         seqM (loopM (\<lambda>_. if \<not> pool then ret (Inr ())
             else seqM (ext (g_pool_threads E)) (\<lambda>n.
               if n \<noteq> 0 then ret (Inr ())
               else seqM (ext (\<lambda>w. ((), os_usleep E 5000 w))) (\<lambda>_. ret (Inl ())))) ()) (\<lambda>_.
         ret (Some (ring, jobs)))))))"

definition cachedir_round :: "('w, 'm) penv_scheme \<Rightarrow> ('w, job list) dprog" where
  "cachedir_round E =
     seqM (getS gconf) (\<lambda>conf.
     seqM (ext (\<lambda>w. ((), os_sleep E (word_of_int (c_sc_loop_delay conf)) w))) (\<lambda>_.
     cachedir_pass E))"

section \<open>The invariant\<close>

lemma own_opt_gives: "gives D (own_opt got) set_option"
  unfolding own_opt_def by (intro gives_branch gives_ret gives_own) simp_all

lemma keeps_wf_free_own: "keeps (spare (set_option p \<union> D)) (dict_free_opt p)"
  by (rule keeps_wf_dict_free_opt) simp

lemma keeps_wf_refresh_md [wf_intro]: "keeps (spare D) (refresh_md E a usermd)"
  unfolding refresh_md_def by (intro keeps_intro wf_intro keeps_wf_upd_pe; simp)

lemma keeps_wf_cloud [wf_intro]:
  "keeps (spare D) (dfs_namei_timeout E path ino)" "keeps (spare D) (dfs_getattr_timeout E path)"
  "keeps (spare D) (dfs_chdir_timeout E path)" "keeps (spare D) (dfs_opendir_timeout E path)"
  by (simp_all add: timeout_defs keeps_wf_calls)

lemma keeps_wf_cb_map_dirents [wf_intro]: "keeps (spare D) (cb_map_dirents E path)"
  unfolding cb_map_dirents_def
  by (intro keeps_gives [OF own_opt_gives] keeps_wf_free_own keeps_intro wf_intro)

lemma keeps_wf_map_dirents [wf_intro]: "keeps (spare D) (map_dirents E names)"
proof (induction names)
  case (Cons name names)
  show ?case unfolding map_dirents.simps by (intro keeps_intro wf_intro Cons)
qed (unfold map_dirents.simps, rule keeps_ret)

lemma keeps_wf_update_md [wf_intro]: "keeps (spare D) (update_md E a)"
  unfolding update_md_def
  by (intro keeps_gives [OF own_opt_gives] keeps_wf_free_own keeps_intro wf_intro)

lemma keeps_wf_cb_get_md [wf_intro]: "keeps (spare D) (cb_get_md E ring j)"
  unfolding cb_get_md_def by (cases j; simp only: job.case; intro keeps_intro wf_intro)

lemma worldly_cachedir [worldly_intro]:
  "worldly (cachedir_callback E a)" "worldly (preload_body E' hdl x)"
  unfolding cachedir_callback_def preload_body_def Let_def by (intro worldly_intro)+

lemma worldly_cachedir_foreach [worldly_intro]: "worldly (cachedir_foreach E paths)"
proof (induction paths)
  case (Cons path paths)
  show ?case unfolding cachedir_foreach.simps by (intro worldly_intro Cons)
qed (unfold cachedir_foreach.simps, intro worldly_intro)

lemma worldly_cachedir_round [worldly_intro]: "worldly (cachedir_round E)"
  unfolding cachedir_round_def cachedir_pass_def by (intro worldly_intro)

lemma keeps_wf_preload_entry [wf_intro]: "keeps (spare D) (preload_entry E)"
  unfolding preload_entry_def by (intro keeps_intro wf_intro keeps_wf_enter_new)

lemmas keeps_wf_preload_body [wf_intro] = worldly_cachedir(2) [THEN keeps_wf_worldly]

lemma keeps_wf_root_dir_preload [wf_intro]: "keeps (spare D) (root_dir_preload E ring)"
  unfolding root_dir_preload_def by (intro keeps_intro wf_intro keeps_wf_upd_pe; simp)

lemma keeps_wf_thread_cachedir_start [wf_intro]: "keeps (spare D) (thread_cachedir_start E ring)"
  unfolding thread_cachedir_start_def by (intro keeps_intro wf_intro)

section \<open>The names of the root directory\<close>

text \<open>A handle of the library whose names are \<open>rest\<close>.\<close>

definition reads_names :: "('w, 'm) env_scheme \<Rightarrow> nat \<Rightarrow> ('w \<Rightarrow> string list) \<Rightarrow> bool" where
  "reads_names E hdl rest \<longleftrightarrow> (\<forall>w. case d_readdir E hdl w of
     (None, w') \<Rightarrow> rest w = [] | (Some n, w') \<Rightarrow> rest w = n # rest w')"

lemma preload_name_run:
  assumes "tmpstrs_wf ring"
  shows "\<exists>i ring'. preload_name n ring = Inr (Name i, ring') \<and>
     tmpstr_printf (''/'' @ n) ring = Inr (i, ring') \<and> tmpstrs_wf ring'"
proof -
  obtain i ring' where "tmpstr_printf (''/'' @ n) ring = Inr (i, ring')"
    using tmpstr_printf_run [OF assms, of "''/'' @ n"] by blast
  with tmpstr_printf_wf [OF assms this] show ?thesis by (simp add: preload_name_def seqM_apply)
qed

lemma preload_loop:
  fixes s :: "'w gstate"
  assumes c: "reads_names E hdl rest" and "tmpstrs_wf ring"
  shows "\<exists>w is ring'. loopM (preload_body E hdl) (ring, jobs) s = Inr ((ring', jobs @ map Name is), s\<lparr>world := w\<rparr>) \<and>
     tmpstr_printfs (map (\<lambda>n. ''/'' @ n) (rest (world s))) ring = Inr (is, ring')"
  using assms(2)
proof (induction "rest (world s)" arbitrary: s ring jobs)
  case Nil
  obtain w where "d_readdir E hdl (world s) = (None, w)"
    using c [unfolded reads_names_def, THEN spec, of "world s"] Nil(1)
    by (auto split: prod.splits option.splits)
  then show ?case using Nil
    by (subst loopM_unfold) (auto simp: preload_body_def seqM_apply ext_apply)
next
  case (Cons n ns)
  obtain w where w: "d_readdir E hdl (world s) = (Some n, w)" "rest w = ns"
    using c [unfolded reads_names_def, THEN spec, of "world s"] Cons(2)
    by (auto split: prod.splits option.splits)
  obtain i ring1 where p: "preload_name n ring = Inr (Name i, ring1)"
    "tmpstr_printf (''/'' @ n) ring = Inr (i, ring1)" "tmpstrs_wf ring1"
    using preload_name_run [OF Cons.prems] by blast
  let ?s = "s\<lparr>world := w\<rparr>"
  have "ns = rest (world ?s)" by (simp add: w(2))
  from Cons.hyps(1) [OF this p(3), of "jobs @ [Name i]"] obtain v "is" ring2 where
    r: "loopM (preload_body E hdl) (ring1, jobs @ [Name i]) ?s =
      Inr ((ring2, (jobs @ [Name i]) @ map Name is), ?s\<lparr>world := v\<rparr>)"
    "tmpstr_printfs (map (\<lambda>n. ''/'' @ n) (rest (world ?s))) ring1 = Inr (is, ring2)"
    by blast
  have "preload_body E hdl (ring, jobs) s = Inr (Inl (ring1, jobs @ [Name i]), ?s)"
    using w(1) p(1) by (simp add: preload_body_def seqM_apply ext_apply)
  then have "loopM (preload_body E hdl) (ring, jobs) s = Inr ((ring2, jobs @ map Name (i # is)), s\<lparr>world := v\<rparr>)"
    using r(1) by (subst loopM_unfold) simp
  moreover have "tmpstr_printfs (map (\<lambda>n. ''/'' @ n) (rest (world s))) ring = Inr (i # is, ring2)"
    using Cons(2) w(2) p(2) r(2) by (simp add: seqM_apply flip: Cons(2))
  ultimately show ?case by blast
qed

section \<open>Properties\<close>

text \<open>
  C33. The names of the root directory reach the pool in the ring of 32 temporary strings: once
  \<open>root_dir_preload\<close> has pushed all \<open>n\<close> of them, the job \<open>k\<close> reads its own name only if it is one of
  the last 32, and otherwise the last name that came round to its buffer.
\<close>

theorem preload_strings_recycled:
  assumes "preload_entry E s = Inr (Some a, s0)" and "pes s0 a \<noteq> None"
    and "dfs_chdir_timeout E ''/'' s0 = Inr (DPL_SUCCESS, s1)"
    and "dfs_opendir_timeout E ''.'' s1 = Inr ((DPL_SUCCESS, hdl), s2)"
    and "reads_names E hdl rest" and "tmpstrs_wf ring"
  defines "names \<equiv> rest (world s2)"
  shows "\<exists>is ring' s'. root_dir_preload E ring s = Inr ((ring', map Name is), s') \<and>
     length is = length names \<and>
     (\<forall>k < length names. strings ring' ! (is ! k) =
        fmt (''/'' @ names ! (k + 32 * ((length names - 1 - k) div 32))))"
proof -
  obtain w "is" ring' where r: "loopM (preload_body E hdl) (ring, []) s2 = Inr ((ring', map Name is), s2\<lparr>world := w\<rparr>)"
    and p: "tmpstr_printfs (map (\<lambda>n. ''/'' @ n) names) ring = Inr (is, ring')"
    using preload_loop [OF assms(5,6), of "[]" s2] by (auto simp: names_def)
  have "pes s2 = pes s0"
    using worldly_frame(5) [of "dfs_chdir_timeout E ''/''", OF _ assms(3)]
      worldly_frame(5) [of "dfs_opendir_timeout E ''.''", OF _ assms(4)] by (simp add: worldly_timeouts)
  with assms(2) obtain pe where "pes s2 a = Some pe" by auto
  then have "\<exists>s'. root_dir_preload E ring s = Inr ((ring', map Name is), s')"
    using assms(1,3,4) r
    by (simp add: root_dir_preload_def seqM_apply ext_apply upd_pe_def split: prod.splits)
  moreover have "length is = length names"
    using tmpstr_printfs_run [OF assms(6), of "map (\<lambda>n. ''/'' @ n) names"] p by auto
  moreover have "strings ring' ! (is ! k) = fmt (''/'' @ names ! (k + 32 * ((length names - 1 - k) div 32)))"
    if "k < length names" for k
  proof -
    have "k + 32 * ((length names - 1 - k) div 32) < length names" using that by linarith
    then show ?thesis
      using tmpstr_printfs_content [OF assms(6) p, of k] that by (simp add: tmpstr_nb_def)
  qed
  ultimately show ?thesis by blast
qed

text \<open>
  The descriptor is the first field of an entry, an \<open>int\<close> of four bytes with the lowest first.
\<close>

definition fd_bytes :: "int \<Rightarrow> string" where
  "fd_bytes fd = map (\<lambda>i. char_of (drop_bit (8 * i) fd)) [0, 1, 2, 3]"

definition little_endian :: "('w, 'm) penv_scheme \<Rightarrow> bool" where
  "little_endian E \<longleftrightarrow> (\<forall>a pe w. \<exists>rest. m_bytes E a pe w = fd_bytes (pe_fd pe) @ rest)"

definition fd_name :: "int \<Rightarrow> string" where
  "fd_name fd = takeWhile (\<lambda>c. c \<noteq> CHR 0x00) (fd_bytes fd)"

lemma c_string_fd:
  "c_string (fd_bytes fd @ rest) =
     (if CHR 0x00 \<in> set (fd_bytes fd) then Some (fd_name fd)
      else map_option (\<lambda>tail. fd_bytes fd @ tail) (c_string rest))"
  by (auto simp: c_string_def fd_name_def takeWhile_append)

lemma cachedir_callback_job:
  assumes "cachedir_callback E a s = Inr (jobs, s')"
  shows "set jobs \<subseteq> {Cell a}" "ghash s' = ghash s"
proof -
  show "set jobs \<subseteq> {Cell a}"
    using assms by (auto simp: cachedir_callback_def seqM_apply Let_def derefM_def get_pe_def ext_apply
        split: option.splits prod.splits if_splits)
  show "ghash s' = ghash s" using worldly_frame(4) [OF worldly_cachedir(1) assms] .
qed

lemma cachedir_foreach_jobs:
  "cachedir_foreach E paths s = Inr (jobs, s') \<Longrightarrow> set jobs \<subseteq> Cell ` ran (ghash s)"
proof (induction paths arbitrary: s jobs)
  case (Cons p paths)
  from Cons.prems obtain jobs1 s2 jobs2 where
    1: "(case ghash s p of None \<Rightarrow> ret [] | Some a \<Rightarrow> cachedir_callback E a) s = Inr (jobs1, s2)"
      "cachedir_foreach E paths s2 = Inr (jobs2, s')" "jobs = jobs1 @ jobs2"
    by (auto simp: hash_lookup_def elim!: seqM_Inr)
  show ?case
  proof (cases "ghash s p")
    case None
    with 1 Cons.IH [of s2 jobs2] show ?thesis by simp
  next
    case (Some a)
    with 1 cachedir_callback_job [of E a s jobs1 s2] Cons.IH [of s2 jobs2] show ?thesis
      by (auto dest: ranI)
  qed
qed simp

text \<open>
  Every descriptor that is not very high has a NUL among its bytes, and the name does not start
  with a slash, but for descriptors that end in the byte 47.
\<close>

lemma fd_bytes_small:
  assumes "0 \<le> fd" "fd < 2 ^ 24"
  shows "CHR 0x00 \<in> set (fd_bytes fd)"
proof -
  have "drop_bit 24 fd = 0" using assms by (simp add: drop_bit_eq_div)
  then show ?thesis by (simp add: fd_bytes_def char_of_def)
qed

lemma fd_name_no_path:
  assumes "fd mod 256 \<noteq> 47" "tail = [] \<or> CHR 0x00 \<notin> set (fd_bytes fd)"
  shows "fd_name fd @ tail \<noteq> CHR ''/'' # p"
proof -
  have "(of_char (char_of fd) :: int) = fd mod 256" by simp
  with assms(1) have "(of_char (char_of fd) :: int) \<noteq> of_char (CHR ''/'')" by simp
  then have "char_of fd \<noteq> CHR ''/''" by metis
  with assms(2) show ?thesis by (auto simp: fd_name_def fd_bytes_def split: if_splits)
qed

lemma fd_name_whole: "CHR 0x00 \<notin> set (fd_bytes fd) \<Longrightarrow> fd_name fd = fd_bytes fd"
  by (auto simp: fd_name_def takeWhile_eq_all_conv)

lemma cell_job:
  assumes "little_endian E" "pes t a = Some pe"
  shows "cb_get_md E ring (Cell a) t = Inl OutOfBounds \<and> CHR 0x00 \<notin> set (fd_bytes (pe_fd pe)) \<or>
     (\<exists>name tail. cb_get_md E ring (Cell a) t = seqM (dfs_getattr E name) (\<lambda>_. ret ()) t \<and>
        name = fd_name (pe_fd pe) @ tail \<and>
        (tail = [] \<or> CHR 0x00 \<notin> set (fd_bytes (pe_fd pe))) \<and>
        (pe_fd pe mod 256 = 47 \<or> (\<forall>p. name \<noteq> CHR ''/'' # p)))"
proof -
  from assms obtain rest where m: "m_bytes E a pe (world t) = fd_bytes (pe_fd pe) @ rest"
    unfolding little_endian_def by blast
  have run: "cb_get_md E ring (Cell a) t =
      (case c_string (fd_bytes (pe_fd pe) @ rest) of None \<Rightarrow> Inl OutOfBounds
       | Some name \<Rightarrow> seqM (dfs_getattr E name) (\<lambda>_. ret ()) t)"
    using assms(2) m
    by (simp add: cb_get_md_def seqM_apply [of "get_pe a"] seqM_apply [of "ask f" for f] get_pe_def
        ask_apply split: option.split)
  have slash: "tail = [] \<or> CHR 0x00 \<notin> set (fd_bytes (pe_fd pe)) \<Longrightarrow>
      pe_fd pe mod 256 = 47 \<or> (\<forall>p. fd_name (pe_fd pe) @ tail \<noteq> CHR ''/'' # p)" for tail
    using fd_name_no_path by blast
  show ?thesis
  proof (cases "CHR 0x00 \<in> set (fd_bytes (pe_fd pe))")
    case True
    with run slash [of "[]"] show ?thesis
      by (intro disjI2 exI [of _ "fd_name (pe_fd pe)"] exI [of _ "[]"]) (simp add: c_string_fd)
  next
    case False
    show ?thesis
    proof (cases "c_string rest")
      case (Some tail)
      with run slash [of tail] False show ?thesis
        by (intro disjI2 exI [of _ "fd_name (pe_fd pe) @ tail"] exI [of _ tail])
          (simp add: c_string_fd fd_name_whole)
    qed (use run False in \<open>simp add: c_string_fd\<close>)
  qed
qed

text \<open>
  C34. The jobs that a round of the refreshing thread gives to the pool ask for the wrong files. Each
  is an entry of the table, not a path: when it runs after the entry was removed, it reads
  released memory; otherwise it reads the bytes of the entry as a string and asks for the attributes
  of the file of that name, unless they have no NUL. The name starts with the bytes of the
  descriptor. If they have a NUL, as those of all descriptors from 0 to 16777215, it is just the
  bytes before it, whatever the path of the entry is; and it does not start with a slash, as every
  path does, unless the descriptor ends in the byte 47: then the file asked for is none of the
  table's.
\<close>

theorem refresh_jobs_misnamed:
  assumes "cachedir_round E s = Inr (jobs, s')" and "j \<in> set jobs" and "little_endian E"
  shows "\<exists>a \<in> ran (ghash s). j = Cell a \<and>
     (case pes t a of None \<Rightarrow> cb_get_md E ring j t = Inl UseAfterFree
      | Some pe \<Rightarrow>
          cb_get_md E ring j t = Inl OutOfBounds \<and> CHR 0x00 \<notin> set (fd_bytes (pe_fd pe)) \<or>
          (\<exists>name tail. cb_get_md E ring j t = seqM (dfs_getattr E name) (\<lambda>_. ret ()) t \<and>
             name = fd_name (pe_fd pe) @ tail \<and>
             (tail = [] \<or> CHR 0x00 \<notin> set (fd_bytes (pe_fd pe))) \<and>
             (pe_fd pe mod 256 = 47 \<or> (\<forall>p. name \<noteq> CHR ''/'' # p))))"
proof -
  from assms(1) obtain s1 where "cachedir_foreach E (g_keys E (ghash s1)) s1 = Inr (jobs, s')"
    "ghash s1 = ghash s"
    by (auto simp: cachedir_round_def cachedir_pass_def ext_apply seqM_apply [of "ext f" for f]
        elim!: seqM_Inr)
  with cachedir_foreach_jobs assms(2) obtain a where a: "a \<in> ran (ghash s)" "j = Cell a" by fastforce
  have "cb_get_md E ring (Cell a) t = Inl UseAfterFree" if "pes t a = None"
    using that by (simp add: cb_get_md_def seqM_apply get_pe_def)
  with cell_job [OF assms(3), of t a] show ?thesis
    unfolding a(2) by (intro bexI [OF _ a(1)] conjI refl) (simp split: option.split)
qed

definition sim_penv :: "sim penv" where
  "sim_penv = env.extend sim_env
     \<lparr>g_pool_new = (\<lambda>w. ((True, Some False), w)), g_pool_threads = (\<lambda>w. (1, w)),
      g_pool_free = (\<lambda>w. w), os_usleep = (\<lambda>n w. w), sizeof_pentry = 300,
      m_bytes = (\<lambda>a pe w. fd_bytes (pe_fd pe) @ [CHR 0x00])\<rparr>"

text \<open>A root directory of 33 names: the first name has lost its buffer to the last.\<close>

definition sim_root :: "sim gstate" where
  "sim_root = sim_state\<lparr>ghash := [''/'' \<mapsto> 0],
     world := sim_world\<lparr>sim_names := replicate 32 ''x'' @ [''y'']\<rparr>\<rparr>"

lemma preload_strings_recycled_witness:
  "\<exists>is ring' s'. root_dir_preload sim_env tmpstr_init sim_root = Inr ((ring', map Name is), s') \<and>
     strings ring' ! (is ! 0) = ''/y''"
proof -
  have "preload_entry sim_env sim_root = Inr (Some 0, sim_root)"
    by (simp add: preload_entry_def seqM_apply hash_lookup_def sim_root_def)
  moreover have "pes sim_root 0 \<noteq> None" by (simp add: sim_root_def sim_state_def)
  moreover have up: "sim_fail (world sim_root) = 0" by (simp add: sim_root_def sim_world_def)
  moreover have "reads_names sim_env 1 sim_names"
    by (simp add: reads_names_def sim_defs sim_readdir_def split: list.split)
  ultimately show ?thesis
    using preload_strings_recycled [OF _ _ sim_timeouts(4) [OF up] sim_timeouts(6) [OF up] _ tmpstr_init_wf,
        where a = 0 and rest = sim_names]
    by (fastforce simp: sim_root_def nth_append tmpstr_max_def)
qed

text \<open>The file with the descriptor 3 is asked for as the file whose name is the character 3.\<close>

lemma refresh_jobs_misnamed_witness:
  "\<exists>s'. cachedir_round sim_penv sim_state = Inr ([Cell 0], s') \<and>
     cb_get_md sim_penv tmpstr_init (Cell 0) sim_state =
       seqM (dfs_getattr sim_penv [CHR 0x03]) (\<lambda>_. ret ()) sim_state"
proof -
  have "\<exists>s'. cachedir_round sim_penv sim_state = Inr ([Cell 0], s')"
    by (simp add: cachedir_round_def cachedir_pass_def cachedir_callback_def table_size_def sim_penv_def
        env.defs sim_defs seqM_apply state_ops hash_lookup_def derefM_def sim_state_def sim_keys_def sim_pe_def
        sim_conf_def to_int32_def word_sless_alt)
  then obtain s' where r: "cachedir_round sim_penv sim_state = Inr ([Cell 0], s')" by blast
  have e: "little_endian sim_penv" by (simp add: little_endian_def sim_penv_def env.defs)
  have fd: "fd_bytes 3 = [CHR 0x03, CHR 0x00, CHR 0x00, CHR 0x00]" "pe_fd sim_pe = 3"
    "pes sim_state 0 = Some sim_pe" by (simp_all add: fd_bytes_def char_of_def sim_pe_def sim_state_def)
  from refresh_jobs_misnamed [OF r _ e, of "Cell 0" tmpstr_init sim_state] r fd
  show ?thesis by (auto simp: fd_name_def)
qed

end
