(* ===== verification/Conf.thy ===== *)
theory Conf
  imports Misc
begin

text \<open>
  The configuration: the defaults, the file \<open>.dplfsrc\<close> (\<open>src/conf.c\<close>) and the environment
  variables that override it (\<open>src/env.c\<close>).  The functions take the global \<open>conf\<close> from the
  process state.  A pointer to one of its fields is a pair of a reader and a writer.
\<close>

section \<open>Log levels\<close>

definition DEFAULT_LOG_LEVEL :: int where "DEFAULT_LOG_LEVEL = LOG_ERR"

definition log_level_to_str :: "int \<Rightarrow> ('s, string) prog" where
  "log_level_to_str level =
     (if level = LOG_EMERG then ret ''LOG_EMERG''
      else if level = LOG_ALERT then ret ''LOG_ALERT''
      else if level = LOG_CRIT then ret ''LOG_CRIT''
      else if level = LOG_ERR then ret ''LOG_ERR''
      else if level = LOG_WARNING then ret ''LOG_WARNING''
      else if level = LOG_NOTICE then ret ''LOG_NOTICE''
      else if level = LOG_INFO then ret ''LOG_INFO''
      else if level = LOG_DEBUG then ret ''LOG_DEBUG''
      else crash AssertFail)"

definition str_to_log_level :: "string \<Rightarrow> int" where
  "str_to_log_level str =
     (if str = ''LOG_EMERG'' then LOG_EMERG
      else if str = ''LOG_ALERT'' then LOG_ALERT
      else if str = ''LOG_CRIT'' then LOG_CRIT
      else if str = ''LOG_ERR'' then LOG_ERR
      else if str = ''LOG_WARNING'' then LOG_WARNING
      else if str = ''LOG_NOTICE'' then LOG_NOTICE
      else if str = ''LOG_INFO'' then LOG_INFO
      else if str = ''LOG_DEBUG'' then LOG_DEBUG
      else DEFAULT_LOG_LEVEL)"

section \<open>Construction and release\<close>

definition zero_conf :: conf where
  "zero_conf = \<lparr>c_root_dir = Null, c_cache_dir = Null, c_compression_method = Null,
     c_zlib_level = 0, c_gc_loop_delay = 0, c_gc_age_threshold = 0, c_sc_loop_delay = 0,
     c_sc_age_threshold = 0, c_max_retry = 0, c_log_level = 0, c_cache_max_size = 0,
     c_regex = \<lparr>re_str = Null, re_rx = None, re_set = False\<rparr>,
     c_encryption_method = Null, c_debug = 0\<rparr>"

text \<open>The new structure becomes the global \<open>conf\<close>; the result says whether there is one.\<close>

definition conf_new :: "('w, 'm) env_scheme \<Rightarrow> ('w, bool) dprog" where
  "conf_new E = seqM (ext (os_alloc E)) (\<lambda>ok.
     if ok then seqM (upd_conf (\<lambda>_. zero_conf)) (\<lambda>_. ret True) else ret False)"

definition conf_dtor :: "('w, unit) dprog" where
  "conf_dtor =
     seqM (getS gconf) (\<lambda>conf.
     if re_set (c_regex conf) then
       seqM (re_dtor (c_regex conf)) (\<lambda>re. upd_conf (\<lambda>c. c\<lparr>c_regex := re\<rparr>))
     else ret ())"

definition conf_free :: "('w, unit) dprog" where
  "conf_free =
     seqM conf_dtor (\<lambda>_.
     seqM (getS gconf) (\<lambda>conf.
     seqM (free_str (c_compression_method conf)) (\<lambda>cm.
     seqM (free_str (re_str (c_regex conf))) (\<lambda>rs.
     seqM (free_str (c_encryption_method conf)) (\<lambda>em.
     seqM (free_str (c_cache_dir conf)) (\<lambda>cd.
     seqM (free_str (c_root_dir conf)) (\<lambda>rd.
     upd_conf (\<lambda>c. c\<lparr>c_compression_method := cm, c_regex := (c_regex c)\<lparr>re_str := rs\<rparr>,
       c_encryption_method := em, c_cache_dir := cd, c_root_dir := rd\<rparr>))))))))"

text \<open>
  The loop that replaces trailing slashes by NUL, on the reversed string: it reads before
  the start of a string that has nothing else.
\<close>

fun strip_slashes :: "string \<Rightarrow> ('s, string) prog" where
  "strip_slashes [] = crash OutOfBounds"
| "strip_slashes (c # cs) = (if c = CHR ''/'' then strip_slashes cs else ret (rev (c # cs)))"

definition conf_set_root_dir ::
  "('w, 'm) env_scheme \<Rightarrow> string option \<Rightarrow> ('w, int) dprog" where
  "conf_set_root_dir E root_dir =
     (case root_dir of None \<Rightarrow> ret 0
      | Some dir \<Rightarrow>
          seqM (getS gconf) (\<lambda>conf.
          seqM (free_str (c_root_dir conf)) (\<lambda>old.
          seqM (strip_slashes (rev dir)) (\<lambda>dir.
          seqM (strdup E dir) (\<lambda>p.
          seqM (upd_conf (\<lambda>c. c\<lparr>c_root_dir := p\<rparr>)) (\<lambda>_.
          ret (if p = Null then - 1 else 0)))))))"

definition conf_set_full_cache_dir :: "('w, 'm) env_scheme \<Rightarrow> ('w, int) dprog" where
  "conf_set_full_cache_dir E =
     seqM (getS gconf) (\<lambda>conf.
     if c_cache_dir conf = Null then ret (- 1)
     else
       seqM (sptr_get (c_cache_dir conf)) (\<lambda>dir.
       seqM (getS bucket) (\<lambda>cur_bucket.
       let cache = fmt (dir @ ''/'' @ cur_bucket) in
       seqM (free_str (c_cache_dir conf)) (\<lambda>_.
       seqM (strdup E cache) (\<lambda>p.
       seqM (upd_conf (\<lambda>c. c\<lparr>c_cache_dir := p\<rparr>)) (\<lambda>_.
       if p = Null then ret (- 1)
       else
         seqM (ext (os_mkdir E cache S_IRWXU)) (\<lambda>err.
         if err \<noteq> None \<and> err \<noteq> Some EEXIST then ret (- 1)
         else
           seqM (strip_slashes (rev cache)) (\<lambda>dir.
           seqM (upd_conf (\<lambda>c. c\<lparr>c_cache_dir := Live dir\<rparr>)) (\<lambda>_.
           ret 0)))))))))"

section \<open>Parsing\<close>

text \<open>The text behind the first \<open>=\<close> and the blanks that follow it.\<close>

definition value_of :: "string \<Rightarrow> string option" where
  "value_of line = (case strchr line CHR ''='' of None \<Rightarrow> None
     | Some p \<Rightarrow> Some (dropWhile isspace (tl p)))"

definition parse_int :: "(int \<Rightarrow> conf \<Rightarrow> conf) \<Rightarrow> string \<Rightarrow> ('w, int) dprog" where
  "parse_int put line =
     (case value_of line of None \<Rightarrow> ret (- 1)
      | Some p \<Rightarrow> seqM (upd_conf (put (to_int32 (strtoul p)))) (\<lambda>_. ret 0))"

text \<open>On a string variable of the caller, and on a field of \<open>conf\<close>.\<close>

definition parse_str_var ::
  "('w, 'm) env_scheme \<Rightarrow> sptr \<Rightarrow> string \<Rightarrow> ('w, int \<times> sptr) dprog" where
  "parse_str_var E field line =
     (case value_of line of None \<Rightarrow> ret (- 1, field)
      | Some p \<Rightarrow>
          if p = [] then ret (0, field)
          else
            seqM (free_str field) (\<lambda>_.
            seqM (strdup E p) (\<lambda>field.
            ret (if field = Null then - 1 else 0, field))))"

definition parse_str ::
  "('w, 'm) env_scheme \<Rightarrow> (conf \<Rightarrow> sptr) \<Rightarrow> (sptr \<Rightarrow> conf \<Rightarrow> conf) \<Rightarrow> string \<Rightarrow> ('w, int) dprog" where
  "parse_str E get put line =
     seqM (getS gconf) (\<lambda>conf.
     seqM (parse_str_var E (get conf) line) (\<lambda>(rc, p).
     seqM (upd_conf (put p)) (\<lambda>_. ret rc)))"

text \<open>One \<open>if\<close> of \<open>parse_token\<close>: the key, what it does, and the jump to \<open>err\<close> on -1.\<close>

definition on_key :: "string \<Rightarrow> string \<Rightarrow> ('s, int) prog \<Rightarrow> ('s, int) prog \<Rightarrow> ('s, int) prog" where
  "on_key token key action rest =
     (if strncasecmp_eq token key (length key) then
        seqM action (\<lambda>rc. if rc = - 1 then ret (- 1) else rest)
      else rest)"

definition parse_cache_dir :: "('w, 'm) env_scheme \<Rightarrow> string \<Rightarrow> ('w, int) dprog" where
  "parse_cache_dir E token =
     seqM (parse_str E c_cache_dir (\<lambda>v c. c\<lparr>c_cache_dir := v\<rparr>) token) (\<lambda>rc.
     if rc = - 1 then ret (- 1) else conf_set_full_cache_dir E)"

text \<open>\<open>str_to_log_level\<close> compares the string it is given: a line without a value has none.\<close>

definition parse_log_level :: "('w, 'm) env_scheme \<Rightarrow> string \<Rightarrow> ('w, int) dprog" where
  "parse_log_level E token =
     seqM (parse_str_var E Null token) (\<lambda>(rc, log).
     if rc = - 1 then ret (- 1)
     else
       seqM (sptr_get log) (\<lambda>str.
       seqM (upd_conf (\<lambda>c. c\<lparr>c_log_level := str_to_log_level str\<rparr>)) (\<lambda>_.
       seqM (getS gconf) (\<lambda>conf.
       seqM (if LOG_DEBUG < c_log_level conf \<or> c_log_level conf < LOG_EMERG
             then upd_conf (\<lambda>c. c\<lparr>c_log_level := DEFAULT_LOG_LEVEL\<rparr>) else ret ()) (\<lambda>_.
       ret 0)))))"

definition parse_token :: "('w, 'm) env_scheme \<Rightarrow> string \<Rightarrow> ('w, int) dprog" where
  "parse_token E token =
     on_key token ''compression_method''
       (parse_str E c_compression_method (\<lambda>v c. c\<lparr>c_compression_method := v\<rparr>) token) (
     on_key token ''zlib_level'' (parse_int (\<lambda>v c. c\<lparr>c_zlib_level := v\<rparr>) token) (
     on_key token ''max_retry'' (parse_int (\<lambda>v c. c\<lparr>c_max_retry := v\<rparr>) token) (
     on_key token ''gc_loop_delay'' (parse_int (\<lambda>v c. c\<lparr>c_gc_loop_delay := v\<rparr>) token) (
     on_key token ''gc_age_threshold'' (parse_int (\<lambda>v c. c\<lparr>c_gc_age_threshold := v\<rparr>) token) (
     on_key token ''sc_loop_delay'' (parse_int (\<lambda>v c. c\<lparr>c_sc_loop_delay := v\<rparr>) token) (
     on_key token ''sc_age_threshold'' (parse_int (\<lambda>v c. c\<lparr>c_sc_age_threshold := v\<rparr>) token) (
     on_key token ''cache_dir'' (parse_cache_dir E token) (
     on_key token ''exclusion_pattern''
       (parse_str E (\<lambda>c. re_str (c_regex c)) (\<lambda>v c. c\<lparr>c_regex := (c_regex c)\<lparr>re_str := v\<rparr>\<rparr>) token) (
     on_key token ''encryption_method''
       (parse_str E c_encryption_method (\<lambda>v c. c\<lparr>c_encryption_method := v\<rparr>) token) (
     on_key token ''cache_max_size'' (parse_int (\<lambda>v c. c\<lparr>c_cache_max_size := v\<rparr>) token) (
     on_key token ''log_level'' (parse_log_level E token) (
     ret 0))))))))))))"

definition parse_line :: "('w, 'm) env_scheme \<Rightarrow> string option \<Rightarrow> ('w, int) dprog" where
  "parse_line E line =
     (case line of None \<Rightarrow> ret (- 1)
      | Some l \<Rightarrow>
          if l = [] then ret 0
          else
            let l = dropWhile isspace l in
            if l \<noteq> [] \<and> hd l = CHR ''#'' then ret 0
            else parse_token E l)"

text \<open>\<open>fgets\<close> reads at most 2047 characters; the last one is dropped as the newline.\<close>

definition parse_file_body :: "('w, 'm) env_scheme \<Rightarrow> nat \<Rightarrow> unit \<Rightarrow> ('w, unit + int) dprog" where
  "parse_file_body E fp _ =
     seqM (ext (os_fgets E fp tmpstr_max)) (\<lambda>r.
     case r of None \<Rightarrow> ret (Inr 0)
     | Some buf \<Rightarrow>
         seqM (parse_line E (Some (butlast buf))) (\<lambda>rc.
         if rc = - 1 then ret (Inr (- 1)) else ret (Inl ())))"

definition parse_file :: "('w, 'm) env_scheme \<Rightarrow> string \<Rightarrow> ('w, int) dprog" where
  "parse_file E path =
     seqM (ext (os_fopen E path ''r'')) (\<lambda>r.
     case r of Inl _ \<Rightarrow> ret 0
     | Inr fp \<Rightarrow> loopM (parse_file_body E fp) ())"

section \<open>The environment\<close>

definition env_generic_set_int ::
  "('w, 'm) env_scheme \<Rightarrow> (int \<Rightarrow> conf \<Rightarrow> conf) \<Rightarrow> string \<Rightarrow> ('w, int) dprog" where
  "env_generic_set_int E put name =
     seqM (ask (os_getenv E name)) (\<lambda>tmp.
     case tmp of None \<Rightarrow> ret (- 1)
     | Some t \<Rightarrow>
         if t = [] then ret (- 1)
         else seqM (upd_conf (put (to_int32 (strtoul t)))) (\<lambda>_. ret 0))"

definition env_generic_set_str ::
  "('w, 'm) env_scheme \<Rightarrow> (conf \<Rightarrow> sptr) \<Rightarrow> (sptr \<Rightarrow> conf \<Rightarrow> conf) \<Rightarrow> string \<Rightarrow> ('w, int) dprog" where
  "env_generic_set_str E get put name =
     seqM (ask (os_getenv E name)) (\<lambda>tmp.
     case tmp of None \<Rightarrow> ret (- 1)
     | Some t \<Rightarrow>
         if t = [] then ret (- 1)
         else
           seqM (strdup E t) (\<lambda>aux.
           if aux = Null then ret (- 1)
           else
             seqM (getS gconf) (\<lambda>conf.
             seqM (free_str (get conf)) (\<lambda>_.
             seqM (upd_conf (put aux)) (\<lambda>_. ret 0)))))"

definition env_set_gc_loop_delay :: "('w, 'm) env_scheme \<Rightarrow> ('w, int) dprog" where
  "env_set_gc_loop_delay E =
     env_generic_set_int E (\<lambda>v c. c\<lparr>c_gc_loop_delay := v\<rparr>) ''DROPLETFS_GC_LOOP_DELAY''"

definition env_set_gc_age_threshold :: "('w, 'm) env_scheme \<Rightarrow> ('w, int) dprog" where
  "env_set_gc_age_threshold E =
     env_generic_set_int E (\<lambda>v c. c\<lparr>c_gc_age_threshold := v\<rparr>) ''DROPLETFS_GC_AGE_THRESHOLD''"

definition env_set_sc_loop_delay :: "('w, 'm) env_scheme \<Rightarrow> ('w, int) dprog" where
  "env_set_sc_loop_delay E =
     env_generic_set_int E (\<lambda>v c. c\<lparr>c_sc_loop_delay := v\<rparr>) ''DROPLETFS_SC_LOOP_DELAY''"

definition env_set_sc_age_threshold :: "('w, 'm) env_scheme \<Rightarrow> ('w, int) dprog" where
  "env_set_sc_age_threshold E =
     env_generic_set_int E (\<lambda>v c. c\<lparr>c_sc_age_threshold := v\<rparr>) ''DROPLETFS_SC_AGE_THRESHOLD''"

definition env_set_compression_method :: "('w, 'm) env_scheme \<Rightarrow> ('w, int) dprog" where
  "env_set_compression_method E =
     env_generic_set_str E c_compression_method (\<lambda>v c. c\<lparr>c_compression_method := v\<rparr>)
       ''DROPLETFS_COMPRESSION_METHOD''"

definition env_set_compression_level :: "('w, 'm) env_scheme \<Rightarrow> ('w, int) dprog" where
  "env_set_compression_level E =
     env_generic_set_int E (\<lambda>v c. c\<lparr>c_zlib_level := v\<rparr>) ''DROPLETFS_ZLIB_LEVEL''"

definition env_set_max_retry :: "('w, 'm) env_scheme \<Rightarrow> ('w, int) dprog" where
  "env_set_max_retry E =
     env_generic_set_int E (\<lambda>v c. c\<lparr>c_max_retry := v\<rparr>) ''DROPLETFS_MAX_RETRY''"

definition env_set_cache_max_size :: "('w, 'm) env_scheme \<Rightarrow> ('w, int) dprog" where
  "env_set_cache_max_size E =
     env_generic_set_int E (\<lambda>v c. c\<lparr>c_cache_max_size := v\<rparr>) ''DROPLETFS_CACHE_MAX_SIZE''"

definition env_set_log_level :: "('w, 'm) env_scheme \<Rightarrow> ('w, unit) dprog" where
  "env_set_log_level E =
     seqM (ask (os_getenv E ''DROPLETFS_LOG_LEVEL'')) (\<lambda>tmp.
     case tmp of None \<Rightarrow> ret ()
     | Some t \<Rightarrow> if t = [] then ret () else upd_conf (\<lambda>c. c\<lparr>c_log_level := str_to_log_level t\<rparr>))"

definition REG_EXTENDED :: int where "REG_EXTENDED = 1"

definition env_set_exclusion_pattern :: "('w, 'm) env_scheme \<Rightarrow> ('w, unit) dprog" where
  "env_set_exclusion_pattern E =
     seqM (ask (os_getenv E ''DROPLETFS_EXCLUSION_PATTERN'')) (\<lambda>tmp.
     case tmp of None \<Rightarrow> ret ()
     | Some t \<Rightarrow>
         seqM (getS gconf) (\<lambda>conf.
         seqM (re_dtor (c_regex conf)) (\<lambda>re.
         seqM (re_ctor E (Some t) REG_EXTENDED re) (\<lambda>(_, re).
         upd_conf (\<lambda>c. c\<lparr>c_regex := re\<rparr>)))))"

definition env_set_encryption_method :: "('w, 'm) env_scheme \<Rightarrow> ('w, int) dprog" where
  "env_set_encryption_method E =
     env_generic_set_str E c_encryption_method (\<lambda>v c. c\<lparr>c_encryption_method := v\<rparr>)
       ''DROPLETFS_ENCRYPTION_METHOD''"

definition env_override_conf :: "('w, 'm) env_scheme \<Rightarrow> ('w, unit) dprog" where
  "env_override_conf E =
     seqM (env_set_compression_method E) (\<lambda>_.
     seqM (env_set_compression_level E) (\<lambda>_.
     seqM (env_set_max_retry E) (\<lambda>_.
     seqM (env_set_gc_loop_delay E) (\<lambda>_.
     seqM (env_set_gc_age_threshold E) (\<lambda>_.
     seqM (env_set_sc_loop_delay E) (\<lambda>_.
     seqM (env_set_sc_age_threshold E) (\<lambda>_.
     seqM (env_set_exclusion_pattern E) (\<lambda>_.
     seqM (env_set_cache_max_size E) (\<lambda>_.
     seqM (env_set_log_level E) (\<lambda>_.
     seqM (env_set_encryption_method E) (\<lambda>_. ret ())))))))))))"

section \<open>The constructor\<close>

definition conf_ctor_default :: "('w, 'm) env_scheme \<Rightarrow> string option \<Rightarrow> ('w, int) dprog" where
  "conf_ctor_default E root_dir =
     seqM (conf_set_root_dir E root_dir) (\<lambda>rc.
     if rc = - 1 then ret (- 1)
     else
       seqM (strdup E ''/tmp'') (\<lambda>cd.
       seqM (upd_conf (\<lambda>c. c\<lparr>c_cache_dir := cd\<rparr>)) (\<lambda>_.
       if cd = Null then ret (- 1)
       else
         seqM (strdup E ''NONE'') (\<lambda>cm.
         seqM (upd_conf (\<lambda>c. c\<lparr>c_compression_method := cm\<rparr>)) (\<lambda>_.
         if cm = Null then ret (- 1)
         else
           seqM (strdup E ''NONE'') (\<lambda>em.
           seqM (upd_conf (\<lambda>c. c\<lparr>c_encryption_method := em\<rparr>)) (\<lambda>_.
           if em = Null then ret (- 1)
           else
             seqM (upd_conf (\<lambda>c. c\<lparr>c_zlib_level := 3, c_gc_loop_delay := 60,
               c_gc_age_threshold := 900, c_sc_loop_delay := 0, c_sc_age_threshold := 0,
               c_max_retry := 5, c_log_level := DEFAULT_LOG_LEVEL,
               c_cache_max_size := 10 * 1024 * 1024\<rparr>)) (\<lambda>_.
             seqM (getS gconf) (\<lambda>conf.
             seqM (re_ctor E None REG_EXTENDED (c_regex conf)) (\<lambda>(_, re).
             seqM (upd_conf (\<lambda>c. c\<lparr>c_regex := re\<rparr>)) (\<lambda>_.
             ret 0)))))))))))"

text \<open>Both exits of \<open>conf_ctor\<close> apply the environment and store \<open>debug\<close>.\<close>

definition conf_ctor :: "('w, 'm) env_scheme \<Rightarrow> string option \<Rightarrow> int \<Rightarrow> ('w, int) dprog" where
  "conf_ctor E root_dir debug =
     seqM
       (seqM (conf_ctor_default E root_dir) (\<lambda>rc.
        if rc = - 1 then ret (- 1)
        else
          seqM (ask (os_getenv E ''HOME'')) (\<lambda>tmp.
          case tmp of None \<Rightarrow> ret 0
          | Some home \<Rightarrow>
              let path = fmt (home @ ''/'' @ ''.dplfsrc'') in
              seqM (conf_set_full_cache_dir E) (\<lambda>rc.
              if rc = - 1 then ret 0
              else seqM (parse_file E path) (\<lambda>_. ret 0))))) (\<lambda>ret'.
     seqM (env_override_conf E) (\<lambda>_.
     seqM (upd_conf (\<lambda>c. c\<lparr>c_debug := debug\<rparr>)) (\<lambda>_.
     ret ret')))"

section \<open>Facts about the operations\<close>

lemma str_to_log_level_range: "0 \<le> str_to_log_level t \<and> str_to_log_level t \<le> 7"
  by (simp add: str_to_log_level_def DEFAULT_LOG_LEVEL_def log_levels)

lemma log_level_names:
  assumes "0 \<le> l" "l \<le> 7"
  shows "\<exists>t. log_level_to_str l s = Inr (t, s) \<and> str_to_log_level t = l"
proof -
  from assms have "l \<in> {0, 1, 2, 3, 4, 5, 6, 7}" by auto
  then show ?thesis
    by (auto simp: log_level_to_str_def str_to_log_level_def log_levels)
qed

text \<open>\<open>strip_slashes\<close> runs on the reversed string: the slashes at its end come first.\<close>

lemma strip_slashes_replicate: "strip_slashes (replicate n CHR ''/'' @ r) = strip_slashes r"
  by (induction n) simp_all

lemma strip_slashes_end: "d \<noteq> [] \<Longrightarrow> last d \<noteq> CHR ''/'' \<Longrightarrow> strip_slashes (rev d) = ret d"
  by (cases d rule: rev_cases) simp_all

text \<open>The values a \<open>struct conf\<close> may hold: levels of syslog, and C integers.\<close>

definition conf_wf :: "conf \<Rightarrow> bool" where
  "conf_wf c \<longleftrightarrow> 0 \<le> c_log_level c \<and> c_log_level c \<le> 7 \<and>
     (\<forall>v \<in> {c_zlib_level c, c_gc_loop_delay c, c_gc_age_threshold c, c_sc_loop_delay c,
        c_sc_age_threshold c, c_max_retry c, c_cache_max_size c}. - (2 ^ 31) \<le> v \<and> v < 2 ^ 31)"

lemma re_ctor_None: "re_ctor E None flags re = ret (- 1, re\<lparr>re_set := False\<rparr>)"
  by (simp add: re_ctor_def)

text \<open>
  What a property of the configuration needs in order to survive the parsing of a file
  and of the integer and string variables of the environment.
\<close>

locale conf_invariant =
  fixes P :: "conf \<Rightarrow> bool"
  assumes ints: "P c \<Longrightarrow> - (2 ^ 31) \<le> v \<Longrightarrow> v < 2 ^ 31 \<Longrightarrow>
      P (c\<lparr>c_zlib_level := v\<rparr>) \<and> P (c\<lparr>c_gc_loop_delay := v\<rparr>) \<and> P (c\<lparr>c_gc_age_threshold := v\<rparr>) \<and>
      P (c\<lparr>c_sc_loop_delay := v\<rparr>) \<and> P (c\<lparr>c_sc_age_threshold := v\<rparr>) \<and> P (c\<lparr>c_max_retry := v\<rparr>) \<and>
      P (c\<lparr>c_cache_max_size := v\<rparr>)"
    and level: "P c \<Longrightarrow> 0 \<le> v \<Longrightarrow> v \<le> 7 \<Longrightarrow> P (c\<lparr>c_log_level := v\<rparr>)"
    and strs: "P c \<Longrightarrow>
      P (c\<lparr>c_root_dir := p\<rparr>) \<and> P (c\<lparr>c_cache_dir := p\<rparr>) \<and> P (c\<lparr>c_compression_method := p\<rparr>) \<and>
      P (c\<lparr>c_encryption_method := p\<rparr>) \<and> P (c\<lparr>c_regex := (c_regex c)\<lparr>re_str := p\<rparr>\<rparr>)"
begin

abbreviation holds :: "'w gstate \<Rightarrow> bool" where
  "holds s \<equiv> P (gconf s)"

lemma keeps_upd: "(\<And>c. P c \<Longrightarrow> P (f c)) \<Longrightarrow> keeps holds (upd_conf f)"
  by (simp add: keeps_def)

lemma keeps_ext: "keeps holds (ext f)"
  by (auto simp: keeps_def ext_def split: prod.splits)

lemma keeps_ask: "keeps holds (ask f)"
  by (auto simp: keeps_def ask_def)

lemma keeps_sptr: "keeps holds (sptr_get p)" "keeps holds (free_str p)" "keeps holds (strdup E t)"
  by (auto simp: sptr_get_def free_str_def strdup_def split: sptr.splits
      intro!: keeps_intro keeps_ext)

lemmas conf_keeps = keeps_intro keeps_ext keeps_ask keeps_sptr

lemma keeps_strip: "keeps holds (strip_slashes t)"
proof (induction t)
  case (Cons c t)
  then show ?case by (auto intro: keeps_ret)
qed (simp add: keeps_def)

lemma keeps_set_root_dir: "keeps holds (conf_set_root_dir E d)"
  unfolding conf_set_root_dir_def
  by (intro conf_keeps keeps_strip keeps_upd) (simp add: strs)

lemma keeps_full_cache_dir: "keeps holds (conf_set_full_cache_dir E)"
  unfolding conf_set_full_cache_dir_def
  by (intro conf_keeps keeps_strip keeps_upd) (simp_all add: strs)

lemma keeps_parse_int:
  "(\<And>c v. P c \<Longrightarrow> - (2 ^ 31) \<le> v \<Longrightarrow> v < 2 ^ 31 \<Longrightarrow> P (put v c)) \<Longrightarrow> keeps holds (parse_int put line)"
  unfolding parse_int_def
  using to_int32_range by (intro conf_keeps keeps_upd) auto

lemma keeps_parse_str_var: "keeps holds (parse_str_var E p line)"
  unfolding parse_str_var_def by (intro conf_keeps)

lemma keeps_parse_str: "(\<And>c p. P c \<Longrightarrow> P (put p c)) \<Longrightarrow> keeps holds (parse_str E get put line)"
  unfolding parse_str_def by (intro conf_keeps keeps_parse_str_var keeps_upd)

lemma keeps_on_key: "keeps holds m \<Longrightarrow> keeps holds n \<Longrightarrow> keeps holds (on_key t k m n)"
  unfolding on_key_def by (intro conf_keeps)

lemma keeps_parse_log_level: "keeps holds (parse_log_level E token)"
  unfolding parse_log_level_def
  by (intro conf_keeps keeps_parse_str_var keeps_upd)
     (simp_all add: level str_to_log_level_range DEFAULT_LOG_LEVEL_def LOG_ERR_def)

lemma keeps_parse_cache_dir: "keeps holds (parse_cache_dir E token)"
  unfolding parse_cache_dir_def
  by (intro conf_keeps keeps_parse_str keeps_full_cache_dir) (simp add: strs)

lemma keeps_parse_token: "keeps holds (parse_token E token)"
  unfolding parse_token_def
  by (intro keeps_on_key keeps_parse_int keeps_parse_str keeps_parse_log_level
        keeps_parse_cache_dir keeps_ret) (simp_all add: ints strs)

lemma keeps_parse_line: "keeps holds (parse_line E line)"
  unfolding parse_line_def by (intro conf_keeps keeps_parse_token)

lemma keeps_parse_file: "keeps holds (parse_file E path)"
  unfolding parse_file_def parse_file_body_def by (intro conf_keeps keeps_parse_line)

lemma keeps_env_int:
  "(\<And>c v. P c \<Longrightarrow> - (2 ^ 31) \<le> v \<Longrightarrow> v < 2 ^ 31 \<Longrightarrow> P (put v c)) \<Longrightarrow>
   keeps holds (env_generic_set_int E put name)"
  unfolding env_generic_set_int_def
  using to_int32_range by (intro conf_keeps keeps_upd) auto

lemma keeps_env_str: "(\<And>c p. P c \<Longrightarrow> P (put p c)) \<Longrightarrow> keeps holds (env_generic_set_str E get put name)"
  unfolding env_generic_set_str_def by (intro conf_keeps keeps_upd)

lemma keeps_env_log_level: "keeps holds (env_set_log_level E)"
  unfolding env_set_log_level_def
  by (intro conf_keeps keeps_upd) (simp add: level str_to_log_level_range)

lemma keeps_ctor_default:
  assumes "\<And>c re. P c \<Longrightarrow> \<not> re_set re \<Longrightarrow> P (c\<lparr>c_regex := re\<rparr>)"
  shows "keeps holds (conf_ctor_default E root_dir)"
proof -
  have defaults: "P (c\<lparr>c_zlib_level := 3, c_gc_loop_delay := 60,
     c_gc_age_threshold := 900, c_sc_loop_delay := 0, c_sc_age_threshold := 0,
     c_max_retry := 5, c_log_level := DEFAULT_LOG_LEVEL, c_cache_max_size := 10 * 1024 * 1024\<rparr>)"
    if "P c" for c
  proof -
    have "P (c\<lparr>c_zlib_level := 3\<rparr>)" using ints [OF that, of 3] by simp
    from ints [OF this, of 60] have "P (c\<lparr>c_zlib_level := 3, c_gc_loop_delay := 60\<rparr>)" by simp
    from ints [OF this, of 900] have "P (c\<lparr>c_zlib_level := 3, c_gc_loop_delay := 60,
      c_gc_age_threshold := 900\<rparr>)" by simp
    from ints [OF this, of 0] have "P (c\<lparr>c_zlib_level := 3, c_gc_loop_delay := 60,
      c_gc_age_threshold := 900, c_sc_loop_delay := 0\<rparr>)" by simp
    from ints [OF this, of 0] have "P (c\<lparr>c_zlib_level := 3, c_gc_loop_delay := 60,
      c_gc_age_threshold := 900, c_sc_loop_delay := 0, c_sc_age_threshold := 0\<rparr>)" by simp
    from ints [OF this, of 5] have "P (c\<lparr>c_zlib_level := 3, c_gc_loop_delay := 60,
      c_gc_age_threshold := 900, c_sc_loop_delay := 0, c_sc_age_threshold := 0,
      c_max_retry := 5\<rparr>)" by simp
    from level [OF this, of DEFAULT_LOG_LEVEL] have "P (c\<lparr>c_zlib_level := 3, c_gc_loop_delay := 60,
      c_gc_age_threshold := 900, c_sc_loop_delay := 0, c_sc_age_threshold := 0,
      c_max_retry := 5, c_log_level := DEFAULT_LOG_LEVEL\<rparr>)"
      by (simp add: DEFAULT_LOG_LEVEL_def LOG_ERR_def)
    from ints [OF this, of "10 * 1024 * 1024"] show ?thesis by simp
  qed
  show ?thesis
    unfolding conf_ctor_default_def re_ctor_None seqM_ret prod.case
    by (intro conf_keeps keeps_set_root_dir keeps_upd defaults) (simp_all add: strs assms)
qed

end
interpretation conf_wf: conf_invariant conf_wf
  by unfold_locales (simp_all add: conf_wf_def)

text \<open>No exclusion regex is in force: a file can set its text, but does not compile it.\<close>

definition no_exclusion :: "conf \<Rightarrow> bool" where
  "no_exclusion c \<longleftrightarrow> \<not> re_set (c_regex c)"

interpretation no_exclusion: conf_invariant no_exclusion
  by unfold_locales (simp_all add: no_exclusion_def)

context conf_invariant
begin

lemma keeps_env_override:
  assumes "keeps holds (env_set_exclusion_pattern E)"
  shows "keeps holds (env_override_conf E)"
  unfolding env_override_conf_def env_set_gc_loop_delay_def env_set_gc_age_threshold_def
    env_set_sc_loop_delay_def env_set_sc_age_threshold_def env_set_compression_method_def
    env_set_compression_level_def env_set_max_retry_def env_set_cache_max_size_def
    env_set_encryption_method_def
  by (intro keeps_seqM keeps_ret keeps_env_int keeps_env_str keeps_env_log_level assms)
     (simp_all add: ints strs)

lemma keeps_conf_ctor:
  assumes "\<And>c re. P c \<Longrightarrow> \<not> re_set re \<Longrightarrow> P (c\<lparr>c_regex := re\<rparr>)"
    and "keeps holds (env_set_exclusion_pattern E)"
    and "\<And>c. P c \<Longrightarrow> P (c\<lparr>c_debug := debug\<rparr>)"
  shows "keeps holds (conf_ctor E root_dir debug)"
  unfolding conf_ctor_def
  by (intro conf_keeps keeps_ctor_default keeps_full_cache_dir keeps_parse_file
        keeps_env_override keeps_upd assms)

end

lemma conf_wf_ctor_aux: "keeps (\<lambda>s. conf_wf (gconf s)) (conf_ctor E root_dir debug)"
proof (rule conf_wf.keeps_conf_ctor)
  show "keeps (\<lambda>s. conf_wf (gconf s)) (env_set_exclusion_pattern E)"
    unfolding env_set_exclusion_pattern_def re_dtor_def re_ctor_def
    by (intro conf_wf.conf_keeps conf_wf.keeps_upd keeps_let) (simp add: conf_wf_def)
qed (simp_all add: conf_wf_def)

lemma no_exclusion_ctor_aux:
  assumes "\<And>w. os_getenv E ''DROPLETFS_EXCLUSION_PATTERN'' w = None"
  shows "keeps (\<lambda>s. no_exclusion (gconf s)) (conf_ctor E root_dir debug)"
proof (rule no_exclusion.keeps_conf_ctor)
  show "keeps (\<lambda>s. no_exclusion (gconf s)) (env_set_exclusion_pattern E)"
    unfolding env_set_exclusion_pattern_def
    by (simp add: keeps_def seqM_apply ask_def assms)
qed (simp_all add: no_exclusion_def)

section \<open>Assignments of a file\<close>

fun int_key :: "string \<Rightarrow> (int \<Rightarrow> conf \<Rightarrow> conf) option" where
  "int_key k =
     (if k = ''zlib_level'' then Some (\<lambda>v c. c\<lparr>c_zlib_level := v\<rparr>)
      else if k = ''max_retry'' then Some (\<lambda>v c. c\<lparr>c_max_retry := v\<rparr>)
      else if k = ''gc_loop_delay'' then Some (\<lambda>v c. c\<lparr>c_gc_loop_delay := v\<rparr>)
      else if k = ''gc_age_threshold'' then Some (\<lambda>v c. c\<lparr>c_gc_age_threshold := v\<rparr>)
      else if k = ''sc_loop_delay'' then Some (\<lambda>v c. c\<lparr>c_sc_loop_delay := v\<rparr>)
      else if k = ''sc_age_threshold'' then Some (\<lambda>v c. c\<lparr>c_sc_age_threshold := v\<rparr>)
      else if k = ''cache_max_size'' then Some (\<lambda>v c. c\<lparr>c_cache_max_size := v\<rparr>)
      else None)"

declare int_key.simps [simp del]

lemma show_nat_head: "\<exists>d ds. show_nat n = d # ds \<and> is_digit d"
  using show_nat_digits [of n] show_nat_Nil [of n] by (cases "show_nat n") auto

lemma dropWhile_blanks: "list_all isspace p \<Longrightarrow> dropWhile isspace (p @ t) = dropWhile isspace t"
  by (induction p) auto

lemma dropWhile_show_nat: "dropWhile isspace (show_nat n) = show_nat n"
  using show_nat_head [of n] is_digit_not_space by force

lemma value_of_assignment:
  assumes "CHR ''='' \<notin> set k" "list_all isspace mid"
  shows "value_of (k @ CHR ''='' # mid @ t) = Some (dropWhile isspace t)"
proof -
  have "dropWhile (\<lambda>x. x \<noteq> CHR ''='') (k @ CHR ''='' # mid @ t) = CHR ''='' # mid @ t"
    using assms(1) by (subst dropWhile_append2) auto
  then show ?thesis using assms(2) by (simp add: value_of_def strchr_def dropWhile_blanks)
qed

lemma unat_of_nat_small: "n < 2 ^ 64 \<Longrightarrow> unat (word_of_nat n :: 64 word) = n"
  by (simp add: unsigned_of_nat take_bit_nat_eq_self)

lemma strtoul_show_nat: "n < 2 ^ 64 \<Longrightarrow> strtoul (show_nat n) = word_of_nat n"
  using strtoul_show_ulong [of "word_of_nat n"]
  by (simp add: show_ulong_def unat_of_nat_small del: strtoul_show_ulong)

lemma parse_int_assignment:
  assumes "CHR ''='' \<notin> set k" "list_all isspace mid" "n < 2 ^ 31"
  shows "parse_int put (k @ CHR ''='' # mid @ show_nat n) s =
     Inr (0, s\<lparr>gconf := put (int n) (gconf s)\<rparr>)"
proof -
  have "unat (word_of_nat n :: 64 word) = n" using assms(3) by (simp add: unat_of_nat_small)
  then have "to_int32 (strtoul (show_nat n)) = int n"
    using assms(3) to_int32_small [of "word_of_nat n"] by (simp add: strtoul_show_nat)
  then show ?thesis
    using assms by (simp add: parse_int_def value_of_assignment dropWhile_show_nat seqM_apply)
qed

lemma int_key_cases:
  assumes "int_key k = Some put"
  shows "k \<in> {''zlib_level'', ''max_retry'', ''gc_loop_delay'', ''gc_age_threshold'',
    ''sc_loop_delay'', ''sc_age_threshold'', ''cache_max_size''}"
  using assms by (simp add: int_key.simps split: if_splits)

text \<open>No key of a configuration file is the beginning of another.\<close>

definition conf_keys :: "string list" where
  "conf_keys = [''compression_method'', ''zlib_level'', ''max_retry'', ''gc_loop_delay'',
     ''gc_age_threshold'', ''sc_loop_delay'', ''sc_age_threshold'', ''cache_dir'',
     ''exclusion_pattern'', ''encryption_method'', ''cache_max_size'', ''log_level'']"

lemma conf_key_mem:
  "''compression_method'' \<in> set conf_keys" "''zlib_level'' \<in> set conf_keys"
  "''max_retry'' \<in> set conf_keys" "''gc_loop_delay'' \<in> set conf_keys"
  "''gc_age_threshold'' \<in> set conf_keys" "''sc_loop_delay'' \<in> set conf_keys"
  "''sc_age_threshold'' \<in> set conf_keys" "''cache_dir'' \<in> set conf_keys"
  "''exclusion_pattern'' \<in> set conf_keys" "''encryption_method'' \<in> set conf_keys"
  "''cache_max_size'' \<in> set conf_keys" "''log_level'' \<in> set conf_keys"
  by (simp_all add: conf_keys_def)

lemma conf_keys_prefix:
  "k \<in> set conf_keys \<Longrightarrow> key \<in> set conf_keys \<Longrightarrow>
   length key \<le> length k \<and> strncasecmp_eq k key (length key) \<longleftrightarrow> key = k"
proof -
  have "\<forall>k \<in> set conf_keys. \<forall>key \<in> set conf_keys.
    length key \<le> length k \<and> strncasecmp_eq k key (length key) \<longleftrightarrow> key = k"
    by code_simp
  then show "k \<in> set conf_keys \<Longrightarrow> key \<in> set conf_keys \<Longrightarrow> ?thesis" by blast
qed

lemma conf_keys_chars: "key \<in> set conf_keys \<Longrightarrow> CHR ''='' \<notin> set (map tolower key)"
proof -
  have "\<forall>key \<in> set conf_keys. CHR ''='' \<notin> set (map tolower key)" by code_simp
  then show "key \<in> set conf_keys \<Longrightarrow> ?thesis" by blast
qed

lemma on_key_assignment:
  assumes "k \<in> set conf_keys" "key \<in> set conf_keys"
  shows "on_key (k @ CHR ''='' # t) key m n =
     (if key = k then seqM m (\<lambda>rc. if rc = - 1 then ret (- 1) else n) else n)"
proof -
  have "strncasecmp_eq (k @ CHR ''='' # t) key (length key) \<longleftrightarrow>
      length key \<le> length k \<and> strncasecmp_eq k key (length key)"
  proof (cases "length key \<le> length k")
    case False
    have "map tolower (take (length key) (k @ CHR ''='' # t)) ! length k = CHR ''=''"
      using False by (simp add: nth_append tolower_def)
    moreover have "map tolower key ! length k \<in> set (map tolower key)"
      using False by (metis length_map not_less nth_mem not_le)
    ultimately have "map tolower (take (length key) (k @ CHR ''='' # t)) \<noteq> map tolower key"
      using conf_keys_chars [OF assms(2)] by metis
    then show ?thesis using False by (simp add: strncasecmp_eq_def)
  qed (simp add: strncasecmp_eq_def)
  with conf_keys_prefix [OF assms] show ?thesis by (simp add: on_key_def)
qed

lemma int_key_conf_key: "int_key k = Some put \<Longrightarrow> k \<in> set conf_keys"
  by (drule int_key_cases) (auto simp: conf_keys_def)

lemma parse_token_int:
  assumes "int_key k = Some put" "list_all isspace mid" "n < 2 ^ 31"
  shows "parse_token E (k @ CHR ''='' # mid @ show_nat n) s =
     Inr (0, s\<lparr>gconf := put (int n) (gconf s)\<rparr>)"
proof -
  have eq: "CHR ''='' \<notin> set k" using int_key_cases [OF assms(1)] by auto
  have key: "k \<in> set conf_keys" by (rule int_key_conf_key [OF assms(1)])
  have on: "key \<in> set conf_keys \<Longrightarrow> on_key (k @ CHR ''='' # mid @ show_nat n) key m n' =
     (if key = k then seqM m (\<lambda>rc. if rc = - 1 then ret (- 1) else n') else n')"
    for key and m n' :: "('a, int) dprog" by (rule on_key_assignment [OF key])
  note run = parse_int_assignment [OF eq assms(2,3), of _ s]
  have "parse_token E (k @ CHR ''='' # mid @ show_nat n) s =
     parse_int put (k @ CHR ''='' # mid @ show_nat n) s"
    unfolding parse_token_def on [OF conf_key_mem(1)] on [OF conf_key_mem(2)] on [OF conf_key_mem(3)]
      on [OF conf_key_mem(4)] on [OF conf_key_mem(5)] on [OF conf_key_mem(6)] on [OF conf_key_mem(7)]
      on [OF conf_key_mem(8)] on [OF conf_key_mem(9)] on [OF conf_key_mem(10)] on [OF conf_key_mem(11)]
      on [OF conf_key_mem(12)]
    using int_key_cases [OF assms(1)] assms(1) run
    by (elim insertE emptyE; simp add: int_key.simps seqM_apply)
  with run show ?thesis by simp
qed

text \<open>
  A line \<open>key=number\<close> of the file, with blanks before the key and around the value, sets the
  field of the key to the number and changes nothing else.
\<close>

lemma number_line_run:
  assumes "int_key k = Some put" "list_all isspace pre" "list_all isspace mid" "n < 2 ^ 31"
  shows "parse_line E (Some (pre @ k @ CHR ''='' # mid @ show_nat n)) s =
     Inr (0, s\<lparr>gconf := put (int n) (gconf s)\<rparr>)"
proof -
  have k: "\<exists>c cs. k = c # cs \<and> \<not> isspace c \<and> c \<noteq> CHR ''#''"
    using int_key_cases [OF assms(1)] by (elim insertE emptyE; simp add: isspace_def)
  then have "dropWhile isspace (pre @ k @ CHR ''='' # mid @ show_nat n) = k @ CHR ''='' # mid @ show_nat n"
    using assms(2) by (auto simp: dropWhile_blanks)
  with k show ?thesis
    using parse_token_int [OF assms(1,3,4), of E s] by (auto simp: parse_line_def Let_def)
qed

section \<open>The environment wins\<close>

text \<open>An integer variable of the environment decides the field, whatever the file says.\<close>

lemma env_int_run:
  "os_getenv E name (world s) = Some t \<Longrightarrow> t \<noteq> [] \<Longrightarrow>
   env_generic_set_int E put name s = Inr (0, s\<lparr>gconf := put (to_int32 (strtoul t)) (gconf s)\<rparr>)"
  by (simp add: env_generic_set_int_def seqM_apply ask_def)

definition field_is :: "(conf \<Rightarrow> int) \<Rightarrow> int \<Rightarrow> 'w gstate \<Rightarrow> bool" where
  "field_is get v s \<longleftrightarrow> get (gconf s) = v"

lemma field_keeps:
  "keeps (field_is get v) (ext f)" "keeps (field_is get v) (ask h)"
  "(\<And>c. get (u c) = get c) \<Longrightarrow> keeps (field_is get v) (upd_conf u)"
  by (auto simp: keeps_def ext_def ask_def field_is_def split: prod.splits)

lemma field_sptr: "keeps (field_is get v) (free_str p)" "keeps (field_is get v) (strdup E t)"
  by (auto simp: free_str_def strdup_def split: sptr.splits intro!: keeps_intro field_keeps)

lemmas field_intro = keeps_intro field_keeps field_sptr

lemma field_str:
  "(\<And>c p. get (put p c) = get c) \<Longrightarrow> keeps (field_is get v) (env_generic_set_str E rd put n)"
  unfolding env_generic_set_str_def by (intro field_intro)

lemma field_int:
  "(\<And>c x. get (put x c) = get c) \<Longrightarrow> keeps (field_is get v) (env_generic_set_int E put n)"
  unfolding env_generic_set_int_def by (intro field_intro)

lemma field_level:
  "(\<And>c x. get (c\<lparr>c_log_level := x\<rparr>) = get c) \<Longrightarrow> keeps (field_is get v) (env_set_log_level E)"
  unfolding env_set_log_level_def by (intro field_intro)

lemma field_exclusion:
  "(\<And>c x. get (c\<lparr>c_regex := x\<rparr>) = get c) \<Longrightarrow> keeps (field_is get v) (env_set_exclusion_pattern E)"
  unfolding env_set_exclusion_pattern_def re_dtor_def re_ctor_def by (intro field_intro)

definition env_ints :: "(string \<times> (conf \<Rightarrow> int)) list" where
  "env_ints = [(''DROPLETFS_ZLIB_LEVEL'', c_zlib_level),
     (''DROPLETFS_MAX_RETRY'', c_max_retry),
     (''DROPLETFS_GC_LOOP_DELAY'', c_gc_loop_delay),
     (''DROPLETFS_GC_AGE_THRESHOLD'', c_gc_age_threshold),
     (''DROPLETFS_SC_LOOP_DELAY'', c_sc_loop_delay),
     (''DROPLETFS_SC_AGE_THRESHOLD'', c_sc_age_threshold),
     (''DROPLETFS_CACHE_MAX_SIZE'', c_cache_max_size)]"

lemmas env_int_setters = env_set_compression_level_def env_set_max_retry_def env_set_gc_loop_delay_def env_set_gc_age_threshold_def env_set_sc_loop_delay_def env_set_sc_age_threshold_def env_set_cache_max_size_def

lemma ends_here:
  "ends (\<lambda>_. True) m (\<lambda>_. I) \<Longrightarrow> (\<And>a. keeps I (k a)) \<Longrightarrow> ends (\<lambda>_. True) (seqM m k) (\<lambda>_. I)"
  by (rule ends_seqM) (simp_all add: keeps_iff_ends)

lemma ends_later: "(\<And>a. ends (\<lambda>_. True) (k a) Q) \<Longrightarrow> ends (\<lambda>_. True) (seqM m k) Q"
  by (rule ends_seqM [where R = "\<lambda>_ _. True"]) (simp_all add: ends_def)

lemma env_int_ends:
  assumes "\<And>w. os_getenv E name w = Some t" "t \<noteq> []" "\<And>c v. get (put v c) = v"
  shows "ends (\<lambda>_. True) (env_generic_set_int E put name) (\<lambda>_. field_is get (to_int32 (strtoul t)))"
  using assms by (auto simp: ends_def env_int_run field_is_def)

lemma env_override_int:
  "(name, get) \<in> set env_ints \<Longrightarrow> (\<And>w. os_getenv E name w = Some t) \<Longrightarrow> t \<noteq> [] \<Longrightarrow>
   ends (\<lambda>_. True) (env_override_conf E) (\<lambda>_. field_is get (to_int32 (strtoul t)))"
  unfolding env_ints_def list.set insert_iff empty_iff prod.inject
    env_override_conf_def env_int_setters env_set_compression_method_def env_set_encryption_method_def
  by (elim disjE conjE FalseE; hypsubst;
      ((rule ends_here, rule env_int_ends, assumption, assumption) | rule ends_later)+;
      (intro keeps_seqM keeps_ret field_str field_int field_level field_exclusion)?; simp)

lemma env_ints_debug: "(name, get) \<in> set env_ints \<Longrightarrow> get (c\<lparr>c_debug := v\<rparr>) = get c"
  by (auto simp: env_ints_def)

text \<open>
  C27. The environment is stronger than the file and the defaults: a variable such as
  \<open>DROPLETFS_MAX_RETRY\<close> that is set and not empty gives the field its number.
\<close>

theorem environment_wins:
  assumes "(name, get) \<in> set env_ints" "\<And>w. os_getenv E name w = Some t" "t \<noteq> []"
    and "conf_ctor E root_dir debug s = Inr (rc, s')"
  shows "get (gconf s') = to_int32 (strtoul t)"
proof -
  have "ends (\<lambda>_. True) (conf_ctor E root_dir debug) (\<lambda>_. field_is get (to_int32 (strtoul t)))"
    unfolding conf_ctor_def
    by (rule ends_later, rule ends_here, rule env_override_int [OF assms(1,2,3)], assumption?)
       (intro keeps_seqM keeps_ret field_keeps; simp add: env_ints_debug [OF assms(1)])
  from endsD [OF this _ assms(4)] show ?thesis by (simp add: field_is_def)
qed

section \<open>Release\<close>

text \<open>
  C31. \<open>conf_free\<close> releases a text twice exactly when the configuration has an exclusion pattern
  (\<open>re_dtor\<close> releases the text of the pattern and keeps the pointer, and \<open>conf_free\<close> releases
  that text again); without a pattern it returns.
\<close>

theorem conf_free_twice:
  fixes s :: "'w gstate"
  assumes "re_wf (c_regex (gconf s))"
    and "\<forall>p \<in> {c_root_dir (gconf s), c_cache_dir (gconf s), c_compression_method (gconf s),
      c_encryption_method (gconf s), re_str (c_regex (gconf s))}. p \<noteq> Dangling"
  shows "if re_set (c_regex (gconf s)) then conf_free s = Inl UseAfterFree
    else \<exists>s'. conf_free s = Inr ((), s')"
proof -
  have live: "p \<noteq> Dangling \<Longrightarrow> \<exists>q. free_str p = (ret q :: ('w, sptr) dprog)" for p
    by (cases p) auto
  show ?thesis
  proof (cases "re_set (c_regex (gconf s))")
    case True
    then show ?thesis
      using assms live [of "c_compression_method (gconf s)"]
      by (auto simp: conf_free_def conf_dtor_def re_dtor_def re_wf_def seqM_apply)
  next
    case False
    obtain a b c d e where "free_str (c_compression_method (gconf s)) = (ret a :: ('w, sptr) dprog)"
      "free_str (re_str (c_regex (gconf s))) = (ret b :: ('w, sptr) dprog)"
      "free_str (c_encryption_method (gconf s)) = (ret c :: ('w, sptr) dprog)"
      "free_str (c_cache_dir (gconf s)) = (ret d :: ('w, sptr) dprog)"
      "free_str (c_root_dir (gconf s)) = (ret e :: ('w, sptr) dprog)"
      using live assms(2) by (metis (no_types, lifting) insertCI)
    with False show ?thesis by (simp add: conf_free_def conf_dtor_def seqM_apply)
  qed
qed

text \<open>The defaults of a fresh configuration.\<close>

definition default_conf :: "sptr \<Rightarrow> conf" where
  "default_conf root = zero_conf\<lparr>c_root_dir := root, c_cache_dir := Live ''/tmp'',
     c_compression_method := Live ''NONE'', c_encryption_method := Live ''NONE'',
     c_zlib_level := 3, c_gc_loop_delay := 60, c_gc_age_threshold := 900, c_sc_loop_delay := 0,
     c_sc_age_threshold := 0, c_max_retry := 5, c_log_level := LOG_ERR,
     c_cache_max_size := 10485760\<rparr>"

definition alloc_ok :: "('w, 'm) env_scheme \<Rightarrow> bool" where
  "alloc_ok E \<longleftrightarrow> (\<forall>w. fst (os_alloc E w))"

lemma strdup_ok: "alloc_ok E \<Longrightarrow> strdup E t s = Inr (Live t, s\<lparr>world := snd (os_alloc E (world s))\<rparr>)"
  by (auto simp: strdup_def alloc_ok_def seqM_apply ext_def split: prod.split dest: spec [of _ "world s"])

lemma conf_ctor_default_run:
  assumes "alloc_ok E" "gconf s = zero_conf" "d \<noteq> []" "last d \<noteq> CHR ''/''"
  shows "\<exists>w. conf_ctor_default E (Some (d @ replicate n CHR ''/'')) s =
     Inr (0, s\<lparr>world := w, gconf := default_conf (Live d)\<rparr>)"
  using assms
  by (simp add: conf_ctor_default_def conf_set_root_dir_def seqM_apply strdup_ok re_ctor_None
      strip_slashes_replicate strip_slashes_end zero_conf_def default_conf_def DEFAULT_LOG_LEVEL_def) blast

section \<open>Properties\<close>

text \<open>
  C28. Whatever the file and the environment hold, the construction of the configuration leaves a
  level of the log between 0 and 7 and every number in the range of an \<open>int\<close>.
\<close>

theorem conf_ctor_range:
  assumes "conf_ctor E root_dir debug s = Inr (rc, s')" and "conf_wf (gconf s)"
  shows "conf_wf (gconf s')"
  using keepsD [OF conf_wf_ctor_aux assms(2,1)] .

text \<open>
  C30. A line of the file never gives an exclusion pattern that is used: unless the environment
  has one, the configuration has no compiled expression.
\<close>

theorem file_excludes_nothing:
  assumes "\<And>w. os_getenv E ''DROPLETFS_EXCLUSION_PATTERN'' w = None"
    and "conf_ctor E root_dir debug s = Inr (rc, s')" and "no_exclusion (gconf s)"
  shows "re_matcher E (c_regex (gconf s')) path t = Inr (False, t)"
  using keepsD [OF no_exclusion_ctor_aux [OF assms(1)] assms(3,2)]
  by (simp add: no_exclusion_def re_matcher_def)

lemma conf_free_twice_witness:
  "conf_free (sim_state\<lparr>gconf := sim_conf\<lparr>c_regex := \<lparr>re_str = Live ''x'', re_rx = Some (''x'', 1),
     re_set = True\<rparr>\<rparr>\<rparr>) = Inl UseAfterFree"
  using conf_free_twice [of "sim_state\<lparr>gconf := sim_conf\<lparr>c_regex := \<lparr>re_str = Live ''x'',
     re_rx = Some (''x'', 1), re_set = True\<rparr>\<rparr>\<rparr>"]
  by (simp add: re_wf_def sim_conf_def)

text \<open>A program that starts with \<open>DROPLETFS_MAX_RETRY=9\<close> and no home directory.\<close>

definition sim_env9 :: "sim env" where
  "sim_env9 = sim_env\<lparr>os_getenv := \<lambda>n w. if n = ''DROPLETFS_MAX_RETRY'' then Some ''9'' else None\<rparr>"

definition sim_start :: "sim gstate" where
  "sim_start = sim_state\<lparr>gconf := zero_conf\<rparr>"

lemma env_unset:
  assumes "os_getenv E n (world s) = None"
  shows "env_generic_set_int E put n s = Inr (- 1, s)"
    and "env_generic_set_str E get puts n s = Inr (- 1, s)"
  using assms by (simp_all add: env_generic_set_int_def env_generic_set_str_def seqM_apply ask_def)

lemma nine: "to_int32 (strtoul ''9'') = 9"
  using strtoul_show_nat [of 9] by (simp add: show_nat.simps digit_char_def to_int32_def)

lemma sim_override:
  "env_override_conf sim_env9 s = Inr ((), s\<lparr>gconf := (gconf s)\<lparr>c_max_retry := 9\<rparr>\<rparr>)"
proof -
  have env: "os_getenv sim_env9 n v = (if n = ''DROPLETFS_MAX_RETRY'' then Some ''9'' else None)" for n v
    by (simp add: sim_env9_def)
  show ?thesis
    by (simp only: env_override_conf_def env_int_setters env_set_compression_method_def
        env_set_log_level_def env_set_exclusion_pattern_def env_set_encryption_method_def seqM_apply)
       (simp add: env_unset env env_int_run [where t = "''9''"] nine seqM_apply ask_def)
qed

lemma sim_conf_ctor:
  "\<exists>s'. conf_ctor sim_env9 (Some ''/mnt/'') 0 sim_start = Inr (0, s') \<and>
     gconf s' = (default_conf (Live ''/mnt''))\<lparr>c_max_retry := 9, c_debug := 0\<rparr>"
proof -
  have "alloc_ok sim_env9" by (simp add: alloc_ok_def sim_env9_def sim_defs)
  from conf_ctor_default_run [OF this, of sim_start "''/mnt''" 1]
  obtain w where r: "conf_ctor_default sim_env9 (Some ''/mnt/'') sim_start =
     Inr (0, sim_start\<lparr>world := w, gconf := default_conf (Live ''/mnt'')\<rparr>)"
    by (auto simp: sim_start_def)
  have "os_getenv sim_env9 ''HOME'' v = None" for v by (simp add: sim_env9_def)
  with r show ?thesis by (simp add: conf_ctor_def seqM_apply sim_override ask_def)
qed

lemma sim_start_wf: "conf_wf (gconf sim_start)" "no_exclusion (gconf sim_start)"
  by (simp_all add: conf_wf_def no_exclusion_def sim_start_def zero_conf_def)

lemma conf_ctor_range_witness:
  "\<exists>s'. conf_ctor sim_env9 (Some ''/mnt/'') 0 sim_start = Inr (0, s') \<and> conf_wf (gconf s')"
  using sim_conf_ctor conf_ctor_range [of sim_env9 "Some ''/mnt/''" 0 sim_start 0] sim_start_wf by blast

lemma environment_wins_witness:
  "\<exists>s'. conf_ctor sim_env9 (Some ''/mnt/'') 0 sim_start = Inr (0, s') \<and> c_max_retry (gconf s') = 9"
proof -
  have "os_getenv sim_env9 ''DROPLETFS_MAX_RETRY'' w = Some ''9''" for w by (simp add: sim_env9_def)
  moreover have "(''DROPLETFS_MAX_RETRY'', c_max_retry) \<in> set env_ints" by (simp add: env_ints_def)
  moreover obtain s' where "conf_ctor sim_env9 (Some ''/mnt/'') 0 sim_start = Inr (0, s')"
    using sim_conf_ctor by blast
  ultimately show ?thesis
    using nine environment_wins [of "''DROPLETFS_MAX_RETRY''" c_max_retry sim_env9 "''9''" "Some ''/mnt/''" 0 sim_start 0 s']
    by simp
qed

lemma file_excludes_nothing_witness:
  "\<exists>s'. conf_ctor sim_env9 (Some ''/mnt/'') 0 sim_start = Inr (0, s') \<and>
     re_matcher sim_env9 (c_regex (gconf s')) ''/a.tmp'' s' = Inr (False, s')"
proof -
  have "os_getenv sim_env9 ''DROPLETFS_EXCLUSION_PATTERN'' w = None" for w by (simp add: sim_env9_def)
  moreover obtain s' where "conf_ctor sim_env9 (Some ''/mnt/'') 0 sim_start = Inr (0, s')"
    using sim_conf_ctor by blast
  ultimately show ?thesis
    using file_excludes_nothing [of sim_env9 "Some ''/mnt/''" 0 sim_start 0 s' "''/a.tmp''" s'] sim_start_wf
    by simp
qed

section \<open>A configuration file\<close>

text \<open>
  The lines of a file: a setting of a number, with blanks before the key and the value, a comment, or
  nothing; the text of a line with its newline, and what the line does to the configuration.
\<close>

datatype conf_line = Setting string string string nat | Comment string string | Blank

fun line_text :: "conf_line \<Rightarrow> string" where
  "line_text (Setting pre key mid n) = pre @ key @ CHR ''='' # mid @ show_nat n @ [CHR 0x0A]"
| "line_text (Comment pre t) = pre @ CHR ''#'' # t @ [CHR 0x0A]"
| "line_text Blank = [CHR 0x0A]"

fun line_ok :: "conf_line \<Rightarrow> bool" where
  "line_ok (Setting pre key mid n) \<longleftrightarrow>
     list_all isspace pre \<and> int_key key \<noteq> None \<and> list_all isspace mid \<and> n < 2 ^ 31"
| "line_ok (Comment pre t) \<longleftrightarrow> list_all isspace pre"
| "line_ok Blank \<longleftrightarrow> True"

fun line_effect :: "conf_line \<Rightarrow> conf \<Rightarrow> conf" where
  "line_effect (Setting pre key mid n) c = the (int_key key) (int n) c"
| "line_effect (Comment pre t) c = c"
| "line_effect Blank c = c"

lemma line_run:
  assumes "line_ok l"
  shows "parse_line E (Some (butlast (line_text l))) s = Inr (0, s\<lparr>gconf := line_effect l (gconf s)\<rparr>)"
proof (cases l)
  case (Setting pre key mid n)
  then obtain put where "int_key key = Some put" using assms by auto
  moreover have "butlast (line_text l) = pre @ key @ CHR ''='' # mid @ show_nat n"
    using Setting by (simp add: butlast_append)
  ultimately show ?thesis using assms Setting number_line_run [of key put pre mid n E s] by simp
next
  case (Comment pre t)
  then have "butlast (line_text l) = pre @ CHR ''#'' # t" by (simp add: butlast_append)
  moreover have "dropWhile isspace (pre @ CHR ''#'' # t) = CHR ''#'' # t"
    using assms Comment dropWhile_blanks [of pre "CHR ''#'' # t"] by (simp add: isspace_def)
  ultimately show ?thesis using Comment by (simp add: parse_line_def)
next
  case Blank
  then show ?thesis by (simp add: parse_line_def)
qed

text \<open>\<open>fgets\<close> on a stream whose lines are \<open>lines\<close> of the world: it gives the next one that fits.\<close>

definition gives_lines :: "('w, 'm) env_scheme \<Rightarrow> nat \<Rightarrow> ('w \<Rightarrow> string list) \<Rightarrow> bool" where
  "gives_lines E fp lines \<longleftrightarrow> (\<forall>n w r w'. os_fgets E fp n w = (r, w') \<longrightarrow>
     (case lines w of [] \<Rightarrow> r = None | l # ls \<Rightarrow> length l < n \<longrightarrow> r = Some l \<and> lines w' = ls))"

lemma parse_lines:
  fixes s :: "'w gstate"
  assumes f: "gives_lines E fp lines" and "list_all line_ok ls" "\<forall>l\<in>set ls. length (line_text l) < tmpstr_max"
    and "lines (world s) = map line_text ls"
  shows "\<exists>w. loopM (parse_file_body E fp) () s = Inr (0, s\<lparr>gconf := fold line_effect ls (gconf s), world := w\<rparr>)"
  using assms(2-)
proof (induction ls arbitrary: s)
  case Nil
  obtain r w where r: "os_fgets E fp tmpstr_max (world s) = (r, w)" by fastforce
  from f [unfolded gives_lines_def, rule_format, OF r] Nil have "r = None" by simp
  with r show ?case
    by (subst loopM_unfold) (auto simp: parse_file_body_def seqM_apply ext_apply)
next
  case (Cons l ls)
  obtain r w where r: "os_fgets E fp tmpstr_max (world s) = (r, w)" by fastforce
  have n: "r = Some (line_text l) \<and> lines w = map line_text ls"
    using f [unfolded gives_lines_def, rule_format, OF r] Cons.prems by simp
  let ?s = "s\<lparr>world := w, gconf := line_effect l (gconf s)\<rparr>"
  have "line_ok l" using Cons.prems by simp
  from line_run [OF this, of E "s\<lparr>world := w\<rparr>"] r n
  have "parse_file_body E fp () s = Inr (Inl (), ?s)"
    by (simp add: parse_file_body_def seqM_apply ext_apply)
  moreover obtain v where "loopM (parse_file_body E fp) () ?s =
      Inr (0, ?s\<lparr>gconf := fold line_effect ls (gconf ?s), world := v\<rparr>)"
    using Cons.IH [of ?s] Cons.prems n by auto
  ultimately show ?case by (subst loopM_unfold) auto
qed

text \<open>
  C29. A configuration file of settings \<open>key=number\<close>, comments and empty lines, each shorter than
  the buffer, is read to its end, and each setting is applied in the order of the file, so that the last one of a key counts;
  nothing else of the configuration changes.
\<close>

theorem file_sets_numbers:
  assumes "os_fopen E path ''r'' (world s) = (Inr fp, w)" and "gives_lines E fp lines"
    and "lines w = map line_text ls" and "list_all line_ok ls"
    and "\<forall>l\<in>set ls. length (line_text l) < tmpstr_max"
  shows "\<exists>w'. parse_file E path s = Inr (0, s\<lparr>gconf := fold line_effect ls (gconf s), world := w'\<rparr>)"
  using parse_lines [OF assms(2,4,5), of "s\<lparr>world := w\<rparr>"] assms(1,3)
  by (auto simp: parse_file_def seqM_apply ext_apply)

definition sim_lines :: "sim env" where
  "sim_lines = sim_env\<lparr>os_fgets := (\<lambda>fp n w.
     case sim_names w of [] \<Rightarrow> (None, w) | l # ls \<Rightarrow> (Some l, w\<lparr>sim_names := ls\<rparr>))\<rparr>"

lemma file_sets_numbers_witness:
  "\<exists>w'. parse_file sim_lines ''/etc/dplfs.conf''
       (sim_state\<lparr>world := sim_world\<lparr>sim_names :=
         [''# retry'' @ [CHR 0x0A], [CHR 0x0A], ''max_retry= 12'' @ [CHR 0x0A], ''max_retry=3'' @ [CHR 0x0A]]\<rparr>\<rparr>) =
     Inr (0, sim_state\<lparr>gconf := sim_conf\<lparr>c_max_retry := 3\<rparr>, world := w'\<rparr>)"
proof -
  let ?ls = "[Comment [] '' retry'', Blank, Setting [] ''max_retry'' '' '' 12, Setting [] ''max_retry'' [] 3]"
  have "gives_lines sim_lines 7 sim_names"
    by (auto simp: gives_lines_def sim_lines_def split: list.splits)
  moreover have "os_fopen sim_lines p m w = (Inr 7, w)" for p m w by (simp add: sim_lines_def sim_defs)
  ultimately show ?thesis
    using file_sets_numbers [where E = sim_lines and lines = sim_names and ls = ?ls and path = "''/etc/dplfs.conf''"
        and s = "sim_state\<lparr>world := sim_world\<lparr>sim_names := map line_text ?ls\<rparr>\<rparr>"]
    by (simp add: int_key.simps isspace_def show_nat.simps digit_char_def tmpstr_max_def sim_state_def)
qed

end
