(* ===== verification/Log.thy ===== *)
theory Log
  imports Cachedir Conf
begin

text \<open>
  What the program logs and prints: the macro \<open>LOG\<close> of \<open>src/log.h\<close>, the table and the
  configuration as they are logged (\<open>src/hash.c\<close>, \<open>src/dropletfs.c\<close>), and the texts of \<open>main\<close>.
  A message is sent if its priority passes the level of the configuration; its arguments are
  looked at only then.  The place in the source that \<open>LOG\<close> puts before the text is left out.
\<close>

section \<open>Output\<close>

text \<open>
  The logger, the two streams, the fields of the context of libdroplet that are printed, and
  the texts of its statuses.
\<close>

record 'w lenv = "'w penv" +
  os_syslog :: "int \<Rightarrow> string \<Rightarrow> 'w \<Rightarrow> 'w"
  os_stdout :: "string \<Rightarrow> 'w \<Rightarrow> 'w"
  os_stderr :: "string \<Rightarrow> 'w \<Rightarrow> 'w"
  d_ctx_int :: "string \<Rightarrow> 'w \<Rightarrow> int"
  d_ctx_str :: "string \<Rightarrow> 'w \<Rightarrow> string option"
  d_status_str :: "dpl_status \<Rightarrow> string"

definition show_int :: "int \<Rightarrow> string" where
  "show_int n = (if n < 0 then ''-'' @ show_nat (nat (- n)) else show_nat (nat n))"

definition newline :: string where "newline = [CHR 0x0A]"
definition tab :: string where "tab = [CHR 0x09]"

definition LOG :: "('w, 'm) lenv_scheme \<Rightarrow> int \<Rightarrow> ('w, string) dprog \<Rightarrow> ('w, unit) dprog" where
  "LOG E priority text' =
     seqM (getS conf_null) (\<lambda>null.
     if null then crash NullDeref
     else
       seqM (getS gconf) (\<lambda>conf.
       if priority > c_log_level conf then ret ()
       else seqM text' (\<lambda>t. ext (\<lambda>w. ((), os_syslog E priority t w)))))"

section \<open>The table\<close>

text \<open>An entry; \<open>%.*s\<close> prints the digest up to its end or to a NUL.\<close>

definition print :: "('w, 'm) lenv_scheme \<Rightarrow> string \<Rightarrow> addr \<Rightarrow> ('w, unit) dprog" where
  "print E path a =
     LOG E LOG_DEBUG
       (seqM (get_pe a) (\<lambda>pe.
        seqM (derefM UninitRead (pe_filetype pe)) (\<lambda>type.
        seqM (derefM UninitRead (pe_digest pe)) (\<lambda>digest.
        ret (''key='' @ path @ '', path='' @ cstr (pe_path pe) @ '', fd='' @ show_int (pe_fd pe) @
          '', type='' @ pentry_type_to_str type @ '', digest='' @
          takeWhile (\<lambda>c. c \<noteq> CHR 0x00) (take MD5_DIGEST_LENGTH digest))))))"

fun print_each :: "('w, 'm) lenv_scheme \<Rightarrow> string list \<Rightarrow> ('w, unit) dprog" where
  "print_each E [] = ret ()"
| "print_each E (path # paths) =
     seqM (hash_lookup (Some path)) (\<lambda>found.
     seqM (case found of None \<Rightarrow> ret () | Some a \<Rightarrow> print E path a) (\<lambda>_.
     print_each E paths))"

definition hash_print_all :: "('w, 'm) lenv_scheme \<Rightarrow> ('w, unit) dprog" where
  "hash_print_all E = seqM (getS (\<lambda>s. g_keys E (ghash s))) (print_each E)"

section \<open>The texts of main\<close>

definition say :: "('w, 'm) lenv_scheme \<Rightarrow> string \<Rightarrow> ('w, unit) dprog" where
  "say E t = ext (\<lambda>w. ((), os_stdout E t w))"

definition complain :: "('w, 'm) lenv_scheme \<Rightarrow> string \<Rightarrow> ('w, unit) dprog" where
  "complain E t = ext (\<lambda>w. ((), os_stderr E t w))"

text \<open>\<open>PP\<close>: one field of the context, a number or a string.\<close>

datatype ctx_field = Num string | Str string

definition PP :: "('w, 'm) lenv_scheme \<Rightarrow> ctx_field \<Rightarrow> ('w, unit) dprog" where
  "PP E f =
     (case f of
        Num name \<Rightarrow> seqM (ask (d_ctx_int E name)) (\<lambda>n. say E (name @ '': '' @ show_int n @ newline))
      | Str name \<Rightarrow> seqM (ask (d_ctx_str E name)) (\<lambda>p. say E (name @ '': '' @ cstr p @ newline)))"

definition ctx_fields :: "ctx_field list" where
  "ctx_fields =
     [Num ''n_conn_buckets'', Num ''n_conn_max'', Num ''n_conn_max_hits'', Num ''conn_idle_time'',
      Num ''conn_timeout'', Num ''read_timeout'', Num ''write_timeout'', Num ''use_https'',
      Str ''host'', Num ''port'', Str ''access_key'', Str ''ssl_cert_file'', Str ''ssl_ca_list'',
      Num ''trace_level'', Str ''pricing'', Num ''read_buf_size'', Str ''encrypt_key'', Str ''delim'',
      Num ''n_conn_fds'', Str ''cur_bucket'', Str ''droplet_dir'']"

fun each_field :: "('w, 'm) lenv_scheme \<Rightarrow> ctx_field list \<Rightarrow> ('w, unit) dprog" where
  "each_field E [] = ret ()"
| "each_field E (f # fs) = seqM (PP E f) (\<lambda>_. each_field E fs)"

definition droplet_pp :: "('w, 'm) lenv_scheme \<Rightarrow> ('w, unit) dprog" where
  "droplet_pp E = each_field E ctx_fields"

definition usage :: "('w, 'm) lenv_scheme \<Rightarrow> string \<Rightarrow> ('w, unit) dprog" where
  "usage E prog =
     seqM (say E (''Usage: '' @ prog @ '' <bucket> [-d] <mountpoint> [options]'' @ newline)) (\<lambda>_.
     seqM (say E (tab @ ''<bucket>'' @ tab @ ''the name of your remote bucket'' @ newline)) (\<lambda>_.
     seqM (say E (tab @ ''-d'' @ tab @ tab @
       ''set the debug mode. Information are written in syslog'' @ newline)) (\<lambda>_.
     seqM (say E (tab @ ''<mountpoint>'' @ tab @
       ''the directory you want to use as mount point.'' @ newline)) (\<lambda>_.
     seqM (say E (tab @ tab @ tab @ ''The directory must exist'' @ newline)) (\<lambda>_.
     say E (tab @ ''[options]'' @ tab @ ''fuse/mount options'' @ newline))))))"

text \<open>The configuration.\<close>

definition log_num :: "('w, 'm) lenv_scheme \<Rightarrow> string \<Rightarrow> int \<Rightarrow> ('w, unit) dprog" where
  "log_num E what n = LOG E LOG_ERR (ret (what @ show_int n))"

definition log_str :: "('w, 'm) lenv_scheme \<Rightarrow> string \<Rightarrow> sptr \<Rightarrow> ('w, unit) dprog" where
  "log_str E what p = LOG E LOG_ERR (seqM (sptr_show p) (\<lambda>t. ret (what @ t)))"

definition conf_log :: "('w, 'm) lenv_scheme \<Rightarrow> ('w, unit) dprog" where
  "conf_log E =
     seqM (getS gconf) (\<lambda>conf.
     seqM (log_num E ''zlib level: '' (c_zlib_level conf)) (\<lambda>_.
     seqM (log_str E ''encryption method: '' (c_encryption_method conf)) (\<lambda>_.
     seqM (log_str E ''compression method: '' (c_compression_method conf)) (\<lambda>_.
     seqM (log_str E ''local cache directory: '' (c_cache_dir conf)) (\<lambda>_.
     seqM (log_num E ''max number I/O attempts: '' (c_max_retry conf)) (\<lambda>_.
     seqM (log_num E ''gc loop delay: '' (c_gc_loop_delay conf)) (\<lambda>_.
     seqM (log_num E ''gc age threshold: '' (c_gc_age_threshold conf)) (\<lambda>_.
     seqM (log_num E ''sc loop delay: '' (c_sc_loop_delay conf)) (\<lambda>_.
     seqM (log_num E ''sc age threshold: '' (c_sc_age_threshold conf)) (\<lambda>_.
     seqM (log_num E ''cache max size: '' (c_cache_max_size conf)) (\<lambda>_.
     seqM (LOG E LOG_ERR (seqM (log_level_to_str (c_log_level conf)) (\<lambda>name.
       ret (''debug level: '' @ show_int (c_log_level conf) @ '' ('' @ name @ '')'')))) (\<lambda>_.
     LOG E LOG_ERR (seqM (sptr_show (re_str (c_regex conf))) (\<lambda>t.
       ret (''exclusion regex: '' @ [CHR 0x27] @ t @ [CHR 0x27])))))))))))))))"

section \<open>What is logged\<close>

text \<open>A message that does not pass changes nothing; one that does is sent once.\<close>

lemma LOG_run:
  "LOG E priority m s =
     (if conf_null s then Inl NullDeref
      else if priority > c_log_level (gconf s) then Inr ((), s)
      else case m s of Inl f \<Rightarrow> Inl f
        | Inr (t, s') \<Rightarrow> Inr ((), s'\<lparr>world := os_syslog E priority t (world s')\<rparr>))"
  by (simp add: LOG_def seqM_apply ext_apply split: sum.split prod.split)

lemma worldly_LOG [worldly_intro]: "worldly m \<Longrightarrow> worldly (LOG E priority m)"
  unfolding LOG_def by (intro worldly_intro)

text \<open>The messages that are sent, in order.\<close>

fun send_all :: "('w, 'm) lenv_scheme \<Rightarrow> int \<Rightarrow> string list \<Rightarrow> 'w \<Rightarrow> 'w" where
  "send_all E priority [] w = w"
| "send_all E priority (t # ts) w = send_all E priority ts (os_syslog E priority t w)"

definition shown :: "sptr \<Rightarrow> string" where
  "shown p = (case p of Live t \<Rightarrow> t | _ \<Rightarrow> ''(null)'')"

lemma sptr_show_shown: "p \<noteq> Dangling \<Longrightarrow> sptr_show p s = Inr (shown p, s)"
  by (cases p) (simp_all add: sptr_show_def shown_def cstr_def)

definition conf_lines :: "conf \<Rightarrow> string list" where
  "conf_lines c =
     [''zlib level: '' @ show_int (c_zlib_level c),
      ''encryption method: '' @ shown (c_encryption_method c),
      ''compression method: '' @ shown (c_compression_method c),
      ''local cache directory: '' @ shown (c_cache_dir c),
      ''max number I/O attempts: '' @ show_int (c_max_retry c),
      ''gc loop delay: '' @ show_int (c_gc_loop_delay c),
      ''gc age threshold: '' @ show_int (c_gc_age_threshold c),
      ''sc loop delay: '' @ show_int (c_sc_loop_delay c),
      ''sc age threshold: '' @ show_int (c_sc_age_threshold c),
      ''cache max size: '' @ show_int (c_cache_max_size c),
      ''debug level: '' @ show_int (c_log_level c) @ '' ('' @
         fst (projr (log_level_to_str (c_log_level c) ())) @ '')'',
      ''exclusion regex: '' @ [CHR 0x27] @ shown (re_str (c_regex c)) @ [CHR 0x27]]"

lemma log_level_named:
  "0 \<le> l \<Longrightarrow> l \<le> 7 \<Longrightarrow> log_level_to_str l s = Inr (fst (projr (log_level_to_str l ())), s)"
  by (auto simp: log_level_to_str_def log_levels)

lemma conf_log_run:
  fixes s :: "'w gstate"
  assumes "conf_wf (gconf s)" "\<not> conf_null s"
    and "c_encryption_method (gconf s) \<noteq> Dangling" "c_compression_method (gconf s) \<noteq> Dangling"
      "c_cache_dir (gconf s) \<noteq> Dangling" "re_str (c_regex (gconf s)) \<noteq> Dangling"
  shows "conf_log E s = Inr ((), if LOG_ERR > c_log_level (gconf s) then s
     else s\<lparr>world := send_all E LOG_ERR (conf_lines (gconf s)) (world s)\<rparr>)"
proof -
  have "0 \<le> c_log_level (gconf s)" "c_log_level (gconf s) \<le> 7" using assms(1) by (simp_all add: conf_wf_def)
  note name = log_level_named [OF this, where s = t for t :: "'w gstate"]
  have str: "sptr_show p t = Inr (shown p, t)" if "p \<noteq> Dangling" for p and t :: "'w gstate"
    using that by (rule sptr_show_shown)
  show ?thesis
    using assms(2)
    by (simp add: conf_log_def log_num_def log_str_def LOG_run seqM_apply conf_lines_def name
        str [OF assms(3)] str [OF assms(4)] str [OF assms(5)] str [OF assms(6)])
qed

text \<open>At the debug level, an entry without a digest cannot be logged.\<close>

lemma print_undigested:
  assumes "pes s a = Some pe" "pe_digest pe = None" "\<not> conf_null s" "LOG_DEBUG \<le> c_log_level (gconf s)"
  shows "print E path a s = Inl UninitRead"
  using assms by (cases "pe_filetype pe") (simp_all add: print_def LOG_run seqM_apply get_pe_def)

end
