(* ===== verification/Dropletfs.thy ===== *)
theory Dropletfs
  imports Attrs Io Gc Log
begin

text \<open>
  The program of \<open>src/dropletfs.c\<close>: the operations that are stubs, the table of operations
  that FUSE calls, the end of a mount (\<open>dfs_destroy\<close>) and \<open>main\<close>.  The states of a mounted
  file system are those that any sequence of requests and of rounds of the two threads leads
  to; the lemmas show the invariant of these states and how the program ends.
\<close>

section \<open>Stubs\<close>

definition dfs_getxattr :: "string \<Rightarrow> string \<Rightarrow> ('w, int) dprog" where
  "dfs_getxattr path name = ret 0"

definition dfs_listxattr :: "string \<Rightarrow> ('w, int) dprog" where
  "dfs_listxattr path = ret 0"

definition dfs_removexattr :: "string \<Rightarrow> string \<Rightarrow> ('w, int) dprog" where
  "dfs_removexattr path name = ret 0"

definition dfs_flush :: "string \<Rightarrow> addr option \<Rightarrow> ('w, int) dprog" where
  "dfs_flush path fh = ret 0"

definition dfs_truncate :: "string \<Rightarrow> int \<Rightarrow> ('w, int) dprog" where
  "dfs_truncate path off = ret 0"

definition dfs_utime :: "string \<Rightarrow> ('w, int) dprog" where
  "dfs_utime path = ret 0"

definition dfs_releasedir :: "string \<Rightarrow> ('w, int) dprog" where
  "dfs_releasedir path = ret 0"

definition dfs_fsyncdir :: "string \<Rightarrow> int \<Rightarrow> ('w, int) dprog" where
  "dfs_fsyncdir path datasync = ret 0"

definition dfs_access :: "string \<Rightarrow> int \<Rightarrow> ('w, int) dprog" where
  "dfs_access path perm = ret 0"

definition dfs_ftruncate :: "string \<Rightarrow> int \<Rightarrow> addr option \<Rightarrow> ('w, int) dprog" where
  "dfs_ftruncate path off fh = ret 0"

definition dfs_lock :: "string \<Rightarrow> int \<Rightarrow> ('w, int) dprog" where
  "dfs_lock path cmd = ret 0"

definition dfs_utimens :: "string \<Rightarrow> ('w, int) dprog" where
  "dfs_utimens path = ret 0"

definition dfs_bmap :: "string \<Rightarrow> nat \<Rightarrow> ('w, int) dprog" where
  "dfs_bmap path blocksize = ret 0"

lemmas stub_defs = dfs_getxattr_def dfs_listxattr_def dfs_removexattr_def dfs_flush_def
  dfs_truncate_def dfs_utime_def dfs_releasedir_def dfs_fsyncdir_def dfs_access_def
  dfs_ftruncate_def dfs_lock_def dfs_utimens_def dfs_bmap_def

section \<open>Requests\<close>

text \<open>A request of FUSE with its arguments; \<open>fh\<close> is the handle an open left.\<close>

datatype request =
    Getattr string
  | Mkdir string
  | Write string string int "addr option"
  | Readdir string
  | Opendir string
  | Unlink string
  | Rmdir string
  | Statfs string statvfs
  | Read string nat int "addr option"
  | Release string "addr option" "32 word"
  | Open string "32 word"
  | Fsync string int
  | Setxattr string string string nat int
  | Create string mode_t "32 word" "addr option"
  | Chmod string mode_t
  | Chown string "32 word" "32 word"
  | Mknod string
  | Readlink string string nat
  | Symlink string string
  | Rename string string
  | Getxattr string string
  | Listxattr string
  | Removexattr string string
  | Truncate string int
  | Utime string
  | Flush string "addr option"
  | Fsyncdir string int
  | Access string int
  | Releasedir string
  | Ftruncate string int "addr option"
  | Lock string int
  | Utimens string
  | Bmap string nat

text \<open>Some answers are a number and something else; FUSE is told the number.\<close>

definition status :: "('w, int \<times> 'a) dprog \<Rightarrow> ('w, int) dprog" where
  "status m = seqM m (\<lambda>(r, _). ret r)"

text \<open>\<open>fill\<close> is the callback of \<open>readdir\<close>, \<open>depth\<close> the bound of \<open>rename\<close>.\<close>

fun dfs_ops ::
  "('w, 'm) env_scheme \<Rightarrow> (string \<Rightarrow> 'w \<Rightarrow> int \<times> 'w) \<Rightarrow> nat \<Rightarrow> request \<Rightarrow> ('w, int) dprog" where
  "dfs_ops E fill depth (Getattr path) = status (dfs_getattr E path)"
| "dfs_ops E fill depth (Mkdir path) = dfs_mkdir E path"
| "dfs_ops E fill depth (Write path buf off fh) = dfs_write E path buf off fh"
| "dfs_ops E fill depth (Readdir path) = dfs_readdir E path fill"
| "dfs_ops E fill depth (Opendir path) = dfs_opendir E path"
| "dfs_ops E fill depth (Unlink path) = dfs_unlink E path"
| "dfs_ops E fill depth (Rmdir path) = dfs_rmdir E path"
| "dfs_ops E fill depth (Statfs path buf) = status (dfs_statfs path buf)"
| "dfs_ops E fill depth (Read path n off fh) = status (dfs_read E path n off fh)"
| "dfs_ops E fill depth (Release path fh flags) = dfs_release E path fh flags"
| "dfs_ops E fill depth (Open path flags) = status (dfs_open E path flags)"
| "dfs_ops E fill depth (Fsync path issync) = dfs_fsync E path issync"
| "dfs_ops E fill depth (Setxattr path name val n flag) = dfs_setxattr path name val n flag"
| "dfs_ops E fill depth (Create path mode flags fh) = status (dfs_create E path mode flags fh)"
| "dfs_ops E fill depth (Chmod path mode) = dfs_chmod E path mode"
| "dfs_ops E fill depth (Chown path uid gid) = dfs_chown E path uid gid"
| "dfs_ops E fill depth (Mknod path) = dfs_mknod E path"
| "dfs_ops E fill depth (Readlink path buf n) = status (dfs_readlink E path buf n)"
| "dfs_ops E fill depth (Symlink oldpath newpath) = dfs_symlink E oldpath newpath"
| "dfs_ops E fill depth (Rename oldpath newpath) = dfs_rename E depth oldpath newpath"
| "dfs_ops E fill depth (Getxattr path name) = dfs_getxattr path name"
| "dfs_ops E fill depth (Listxattr path) = dfs_listxattr path"
| "dfs_ops E fill depth (Removexattr path name) = dfs_removexattr path name"
| "dfs_ops E fill depth (Truncate path off) = dfs_truncate path off"
| "dfs_ops E fill depth (Utime path) = dfs_utime path"
| "dfs_ops E fill depth (Flush path fh) = dfs_flush path fh"
| "dfs_ops E fill depth (Fsyncdir path datasync) = dfs_fsyncdir path datasync"
| "dfs_ops E fill depth (Access path perm) = dfs_access path perm"
| "dfs_ops E fill depth (Releasedir path) = dfs_releasedir path"
| "dfs_ops E fill depth (Ftruncate path off fh) = dfs_ftruncate path off fh"
| "dfs_ops E fill depth (Lock path cmd) = dfs_lock path cmd"
| "dfs_ops E fill depth (Utimens path) = dfs_utimens path"
| "dfs_ops E fill depth (Bmap path blocksize) = dfs_bmap path blocksize"

lemma keeps_wf_ops: "keeps (spare D) (dfs_ops E fill depth r)"
  by (cases r; simp only: dfs_ops.simps status_def stub_defs; intro keeps_intro wf_intro)

section \<open>A mounted file system\<close>

text \<open>The threads that \<open>dfs_init\<close> starts when the file system is mounted.\<close>

datatype thread = GcThread | CachedirThread

definition dfs_init :: "thread list" where
  "dfs_init = [GcThread, CachedirThread]"

text \<open>
  What happens to the table, in any order: a request, a round of the garbage collector, and
  of the other thread its start, a round, and a job of its pool.
\<close>

datatype event = Request request | GcRound | CacheStart tmpstrs | CacheRound | Job tmpstrs job

fun event_step ::
  "('w, 'm) penv_scheme \<Rightarrow> (string \<Rightarrow> 'w \<Rightarrow> int \<times> 'w) \<Rightarrow> nat \<Rightarrow> event \<Rightarrow> ('w, unit) dprog" where
  "event_step E fill depth (Request r) = seqM (dfs_ops E fill depth r) (\<lambda>_. ret ())"
| "event_step E fill depth GcRound = gc_round E"
| "event_step E fill depth (CacheStart ring) = seqM (thread_cachedir_start E ring) (\<lambda>_. ret ())"
| "event_step E fill depth CacheRound = seqM (cachedir_round E) (\<lambda>_. ret ())"
| "event_step E fill depth (Job ring j) = cb_get_md E ring j"

text \<open>The table \<open>dfs_fuse_main\<close> makes.\<close>

definition empty_table :: "'w gstate \<Rightarrow> bool" where
  "empty_table s \<longleftrightarrow> ghash s = Map.empty \<and> pes s = Map.empty \<and> dicts s = Map.empty"

inductive mounted ::
  "('w, 'm) penv_scheme \<Rightarrow> (string \<Rightarrow> 'w \<Rightarrow> int \<times> 'w) \<Rightarrow> nat \<Rightarrow> 'w gstate \<Rightarrow> bool"
  for E fill depth where
  start: "empty_table s \<Longrightarrow> mounted E fill depth s"
| event: "mounted E fill depth s \<Longrightarrow> event_step E fill depth e s = Inr (u, s') \<Longrightarrow> mounted E fill depth s'"

inductive_cases mounted_cases: "mounted E fill depth s"

lemma empty_table_wf: "empty_table s \<Longrightarrow> state_wf s"
  by (simp add: empty_table_def state_wf_def hash_wf_def path_wf_def dict_wf_def fresh_wf_def owns_def)

lemma keeps_wf_event: "keeps (spare D) (event_step E fill depth e)"
  by (cases e; simp only: event_step.simps; intro keeps_intro wf_intro keeps_wf_ops
      worldly_cachedir_round [THEN keeps_wf_worldly])

lemma mounted_wf: "mounted E fill depth s \<Longrightarrow> state_wf s"
proof (induction rule: mounted.induct)
  case (start s)
  then show ?case by (rule empty_table_wf)
next
  case (event s e u s')
  then show ?case
    using keepsD [of state_wf "event_step E fill depth e" s u s'] keeps_wf_event [of "{}" E fill depth e]
    by simp
qed

text \<open>
  C1. Whatever requests come and however the rounds of the two threads and the jobs of the pool fall
  between them, the table of a mounted file system stays well formed: it maps paths to distinct
  live entries and has every live entry, an entry that knows its path is under it, and no two
  entries share their metadata, which are live.
\<close>

theorem mounted_state_wf: "mounted E fill depth s \<Longrightarrow> state_wf s"
  by (rule mounted_wf)

section \<open>Unmounting\<close>

definition cb_hash_unlink :: "('w, 'm) lenv_scheme \<Rightarrow> addr \<Rightarrow> ('w, unit) dprog" where
  "cb_hash_unlink E a =
     seqM (get_pe a) (\<lambda>pe.
     if FILE_LOCAL = pe_ondisk pe then
       seqM (LOG E LOG_INFO (ret (''remove cache file '' @ [CHR 0x27] @ cstr (pe_path pe) @ [CHR 0x27]))) (\<lambda>_.
       pentry_unlink_cache_file E a)
     else ret ())"

fun unlink_all :: "('w, 'm) lenv_scheme \<Rightarrow> string list \<Rightarrow> ('w, unit) dprog" where
  "unlink_all E [] = ret ()"
| "unlink_all E (path # paths) =
     seqM (hash_lookup (Some path)) (\<lambda>found.
     seqM (case found of None \<Rightarrow> ret () | Some a \<Rightarrow> cb_hash_unlink E a) (\<lambda>_.
     unlink_all E paths))"

text \<open>\<open>g_hash_table_remove_all\<close>: the table is emptied, then the entries are released.\<close>

fun free_all :: "('w, 'm) env_scheme \<Rightarrow> addr option list \<Rightarrow> ('w, unit) dprog" where
  "free_all E [] = ret ()"
| "free_all E (a # as) =
     seqM (case a of None \<Rightarrow> ret () | Some a \<Rightarrow> pentry_free E a) (\<lambda>_. free_all E as)"

definition hash_remove_all :: "('w, 'm) env_scheme \<Rightarrow> ('w, unit) dprog" where
  "hash_remove_all E =
     seqM (getS ghash) (\<lambda>hash.
     seqM (modS (\<lambda>s. s\<lparr>ghash := Map.empty\<rparr>)) (\<lambda>_.
     free_all E (map hash (g_keys E hash))))"

record 'w menv = "'w lenv" +
  d_init :: "'w \<Rightarrow> dpl_status \<times> 'w"
  d_ctx_new :: "'w \<Rightarrow> bool \<times> 'w"
  d_ctx_free :: "'w \<Rightarrow> 'w"
  d_free :: "'w \<Rightarrow> 'w"
  \<comment> \<open>the session: a code if nothing was mounted, else what happened until the end\<close>
  f_session :: "string list \<Rightarrow> 'w \<Rightarrow> (int + event list) \<times> 'w"

text \<open>
  The configuration is released and its pointer set to null; the call of \<open>LOG\<close> that follows
  still reads it.  FUSE passes what \<open>dfs_init\<close> returned, a null pointer.  (The last call is
  reached if the library was not released before.)
\<close>

definition dfs_destroy :: "('w, 'm) menv_scheme \<Rightarrow> ('w, unit) dprog" where
  "dfs_destroy E =
     seqM (LOG E LOG_DEBUG (ret ''(nil)'')) (\<lambda>_.
     seqM (LOG E LOG_DEBUG (ret ''removing cache files'')) (\<lambda>_.
     seqM (getS (\<lambda>s. g_keys E (ghash s))) (\<lambda>keys.
     seqM (unlink_all E keys) (\<lambda>_.
     seqM (LOG E LOG_DEBUG (ret ''releasing hashtable memory'')) (\<lambda>_.
     seqM (hash_remove_all E) (\<lambda>_.
     seqM (getS conf_null) (\<lambda>null.
     seqM (if null then ret ()
           else seqM (LOG E LOG_DEBUG (ret ''releasing config memory'')) (\<lambda>_. conf_free)) (\<lambda>_.
     seqM (modS (\<lambda>s. s\<lparr>conf_null := True\<rparr>)) (\<lambda>_.
     seqM (ext (\<lambda>w. ((), d_ctx_free E w))) (\<lambda>_.
     seqM (LOG E LOG_DEBUG (ret ''freeing libdroplet context'')) (\<lambda>_.
     ext (\<lambda>w. ((), d_free E w)))))))))))))"

section \<open>main\<close>

text \<open>
  The arguments: the bucket is the first one; after \<open>argv\<close> was moved to it, it is also what
  is compared with \<open>-d\<close>.  The result is the bucket, the flag and what is left of \<open>argv\<close>.
\<close>

definition main_args :: "string list \<Rightarrow> (string \<times> int \<times> string list) option" where
  "main_args argv =
     (if length argv < 3 then None
      else
        let bucket = argv ! 1; argv = tl argv in
        if strncmp_eq (hd argv) ''-d'' 2 then Some (bucket, 1, tl argv) else Some (bucket, 0, argv))"

definition argv_at :: "string list \<Rightarrow> nat \<Rightarrow> string option" where
  "argv_at argv i = (if i < length argv then Some (argv ! i) else None)"

fun run_events ::
  "('w, 'm) menv_scheme \<Rightarrow> (string \<Rightarrow> 'w \<Rightarrow> int \<times> 'w) \<Rightarrow> nat \<Rightarrow> event list \<Rightarrow> ('w, unit) dprog" where
  "run_events E fill depth [] = ret ()"
| "run_events E fill depth (e # es) = seqM (event_step E fill depth e) (\<lambda>_. run_events E fill depth es)"

definition dfs_fuse_main ::
  "('w, 'm) menv_scheme \<Rightarrow> (string \<Rightarrow> 'w \<Rightarrow> int \<times> 'w) \<Rightarrow> nat \<Rightarrow> string list \<Rightarrow> ('w, int) dprog" where
  "dfs_fuse_main E fill depth args =
     seqM (modS (\<lambda>s. s\<lparr>ghash := Map.empty\<rparr>)) (\<lambda>_.
     seqM (ext (f_session E args)) (\<lambda>r.
     case r of Inl code \<Rightarrow> ret code
     | Inr events \<Rightarrow>
         seqM (run_events E fill depth events) (\<lambda>_.
         seqM (dfs_destroy E) (\<lambda>_. ret 0))))"

text \<open>
  The exits \<open>err3\<close> and \<open>err2\<close>.  \<open>ctx_freed\<close> is still 0 there: only \<open>dfs_destroy\<close> sets it,
  and it does not return.
\<close>

definition main_err2 :: "('w, 'm) menv_scheme \<Rightarrow> int \<Rightarrow> ('w, int) dprog" where
  "main_err2 E rc = seqM (ext (\<lambda>w. ((), d_free E w))) (\<lambda>_. ret rc)"

definition main_err3 :: "('w, 'm) menv_scheme \<Rightarrow> int \<Rightarrow> ('w, int) dprog" where
  "main_err3 E rc =
     seqM (getS conf_null) (\<lambda>null.
     seqM (if null then ret ()
           else seqM conf_free (\<lambda>_. modS (\<lambda>s. s\<lparr>conf_null := True\<rparr>))) (\<lambda>_.
     main_err2 E rc))"

definition main ::
  "('w, 'm) menv_scheme \<Rightarrow> (string \<Rightarrow> 'w \<Rightarrow> int \<times> 'w) \<Rightarrow> nat \<Rightarrow> string list \<Rightarrow> ('w, int) dprog" where
  "main E fill depth argv =
     (case main_args argv of
        None \<Rightarrow>
          seqM (usage E (cstr (argv_at argv 0))) (\<lambda>_. ret (d_status_code E DPL_FAILURE))
      | Some (name, debug, argv) \<Rightarrow>
          seqM (ext (d_init E)) (\<lambda>rc.
          if DPL_SUCCESS \<noteq> rc then
            seqM (complain E (''dpl_init: '' @ d_status_str E rc @ newline)) (\<lambda>_.
            ret (d_status_code E rc))
          else
            let rc = d_status_code E rc in
            seqM (ext (d_ctx_new E)) (\<lambda>ctx.
            if \<not> ctx then main_err2 E rc
            else
              seqM (strdup E name) (\<lambda>p.
              if p = Null then
                seqM (complain E (''strdup('' @ [CHR 0x27] @ name @ [CHR 0x27] @ '') failed'')) (\<lambda>_.
                main_err2 E rc)
              else
                seqM (modS (\<lambda>s. s\<lparr>bucket := name\<rparr>)) (\<lambda>_.
                seqM (droplet_pp E) (\<lambda>_.
                seqM (conf_new E) (\<lambda>ok.
                seqM (modS (\<lambda>s. s\<lparr>conf_null := \<not> ok\<rparr>)) (\<lambda>_.
                if \<not> ok then
                  seqM (complain E ([CHR ''c'', CHR ''a'', CHR ''n'', CHR 0x27] @ ''t allocate config'' @ newline)) (\<lambda>_.
                  main_err2 E rc)
                else
                  seqM (conf_ctor E (argv_at argv 1) debug) (\<lambda>r.
                  if r = - 1 then
                    seqM (complain E ([CHR ''c'', CHR ''a'', CHR ''n'', CHR 0x27] @ ''t build a configuration'' @ newline)) (\<lambda>_.
                    main_err3 E rc)
                  else
                    seqM (conf_log E) (\<lambda>_.
                    seqM (dfs_fuse_main E fill depth argv) (\<lambda>rc.
                    seqM (ext (\<lambda>w. ((), d_ctx_free E w))) (\<lambda>_.
                    seqM (hash_remove_all E) (\<lambda>_.
                    main_err3 E rc)))))))))))))"

section \<open>The end of the program\<close>

text \<open>Unmounting never comes to its end.\<close>

lemma seqM_never: "(\<And>a s. k a s \<noteq> Inr (u, s')) \<Longrightarrow> seqM m k s \<noteq> Inr (u, s')"
  by (auto elim: seqM_Inr)

lemma LOG_without_conf:
  "seqM (modS (\<lambda>s. s\<lparr>conf_null := True\<rparr>)) (\<lambda>_. seqM (ext f) (\<lambda>_. seqM (LOG E p m) k)) s \<noteq> Inr (u, s')"
  by (cases "f (world s)") (simp add: seqM_apply ext_apply LOG_run)

lemma destroy_faults: "dfs_destroy E s \<noteq> Inr (u, s')"
  unfolding dfs_destroy_def by (rule LOG_without_conf seqM_never)+

text \<open>
  C40. A file system that was mounted never comes to a regular end: if \<open>dfs_fuse_main\<close> returns, nothing
  was mounted.  At the end of a mount \<open>dfs_destroy\<close> tests the level of the configuration that it
  has released.
\<close>

theorem unmount_never_ends:
  assumes "dfs_fuse_main E fill depth args s = Inr (code, s')"
  shows "\<exists>w. f_session E args (world s) = (Inl code, w)"
  using assms destroy_faults
  by (auto simp: dfs_fuse_main_def seqM_apply ext_apply split: sum.splits prod.splits)

text \<open>The flag \<open>-d\<close> behind the bucket is not seen, and taken for the mount point.\<close>

lemma main_args_debug:
  assumes "\<not> strncmp_eq name ''-d'' 2"
  shows "main_args (prog # name # ''-d'' # rest) = Some (name, 0, name # ''-d'' # rest)"
    and "argv_at (name # ''-d'' # rest) 1 = Some ''-d''"
  using assms by (simp_all add: main_args_def argv_at_def)

section \<open>Properties\<close>

definition sim_table :: "sim gstate" where
  "sim_table = sim_state\<lparr>ghash := Map.empty, pes := Map.empty, dicts := Map.empty\<rparr>"

text \<open>After one request the simulated file system has an entry.\<close>

lemma sim_mounted:
  obtains s' a pe where "mounted sim_penv sim_fill 3 s'" "ghash s' ''/d'' = Some a" "pes s' a = Some pe"
    "pe_fd pe = - 1"
proof -
  have m: "mounted sim_penv sim_fill 3 sim_table"
    by (rule mounted.start) (simp add: empty_table_def sim_table_def)
  have up: "sim_fail (world sim_table) = 0" by (simp add: sim_table_def sim_state_def sim_world_def)
  have "d_mkdir sim_penv ''/d'' (world sim_table) = (DPL_SUCCESS, world sim_table)"
    by (simp add: sim_penv_def env.defs sim_defs up)
  then have call: "dfs_mkdir_timeout sim_penv ''/d'' sim_table = Inr (DPL_SUCCESS, sim_table)"
    by (simp add: dfs_mkdir_timeout_def retry_plain_success(1) [where w = "world sim_table"])
  have table: "ghash sim_table = Map.empty" "pes sim_table = Map.empty" "fresh sim_table = 2"
    by (simp_all add: sim_table_def sim_state_def)
  have mem: "os_alloc sim_penv w = (True, w)" "os_sync_init sim_penv w = (True, w)" for w
    by (simp_all add: sim_penv_def env.defs sim_defs)
  have "\<exists>s' a pe. dfs_mkdir sim_penv ''/d'' sim_table = Inr (0, s') \<and> ghash s' ''/d'' = Some a \<and>
      pes s' a = Some pe \<and> pe_fd pe = - 1"
    by (simp add: dfs_mkdir_def call mem seqM_apply hash_lookup_def populate_hash_def pentry_new_def
        pentry_set_path_def hash_insert_def state_ops strdup_def Let_def table numeral_eq_Suc)
  then obtain s' a pe where s': "dfs_mkdir sim_penv ''/d'' sim_table = Inr (0, s')" "ghash s' ''/d'' = Some a"
    "pes s' a = Some pe" "pe_fd pe = - 1" by blast
  then have "event_step sim_penv sim_fill 3 (Request (Mkdir ''/d'')) sim_table = Inr ((), s')"
    by (simp add: seqM_apply)
  with m have "mounted sim_penv sim_fill 3 s'" by (rule mounted.event)
  with s' that show thesis by blast
qed

lemma mounted_state_wf_witness:
  "\<exists>s'. mounted sim_penv sim_fill 3 s' \<and> state_wf s' \<and> ghash s' ''/d'' \<noteq> None"
proof -
  obtain s' a pe where "mounted sim_penv sim_fill 3 s'" "ghash s' ''/d'' = Some a" "pes s' a = Some pe"
    "pe_fd pe = - 1" by (rule sim_mounted)
  with mounted_state_wf [OF this(1)] show ?thesis by auto
qed

definition sim_lenv :: "sim lenv" where
  "sim_lenv = penv.extend sim_penv
     \<lparr>os_syslog = (\<lambda>p t w. w), os_stdout = (\<lambda>t w. w), os_stderr = (\<lambda>t w. w),
      d_ctx_int = (\<lambda>n w. 0), d_ctx_str = (\<lambda>n w. None), d_status_str = (\<lambda>rc. ''status'')\<rparr>"

definition sim_menv :: "sim menv" where
  "sim_menv = lenv.extend sim_lenv
     \<lparr>d_init = (\<lambda>w. (DPL_SUCCESS, w)), d_ctx_new = (\<lambda>w. (True, w)), d_ctx_free = (\<lambda>w. w),
      d_free = (\<lambda>w. w), f_session = (\<lambda>args w. (Inl 1, w))\<rparr>"

lemma unmount_never_ends_witness:
  "\<exists>s'. dfs_fuse_main sim_menv sim_fill 3 [''prog''] sim_state = Inr (1, s') \<and>
     f_session sim_menv [''prog''] (world sim_state) = (Inl 1, world s')"
proof -
  have "\<exists>s'. dfs_fuse_main sim_menv sim_fill 3 [''prog''] sim_state = Inr (1, s') \<and> world s' = world sim_state"
    by (simp add: dfs_fuse_main_def seqM_apply ext_def sim_menv_def lenv.defs)
  then obtain s' where r: "dfs_fuse_main sim_menv sim_fill 3 [''prog''] sim_state = Inr (1, s')"
    "world s' = world sim_state" by blast
  with unmount_never_ends [OF r(1)] show ?thesis by (auto simp: sim_menv_def lenv.defs)
qed

end
