(* ===== verification/Races.thy ===== *)
theory Races
  imports Gc Io
begin

text \<open>
  Steps of two threads that are not whole operations.  FUSE runs each request in a thread of its
  own, beside the garbage collector, and the table is not locked: here an open
  (\<open>src/open.c\<close>) and the collector (\<open>src/gc.c\<close>) are split where the other can come in between,
  and the lemmas show all that the two can do to each other.
\<close>

section \<open>Steps of two threads\<close>

text \<open>
  What a thread still has to do: nothing but to return a result, or a step that changes the
  shared state and says what comes next.
\<close>

datatype ('s, 'a) actor = Done 'a | Step "'s \<Rightarrow> fault + (('s, 'a) actor \<times> 's)"

definition atomically :: "('s, 'b) prog \<Rightarrow> ('b \<Rightarrow> ('s, 'a) actor) \<Rightarrow> ('s, 'a) actor" where
  "atomically m k = Step (\<lambda>s. case m s of Inl e \<Rightarrow> Inl e | Inr (x, s') \<Rightarrow> Inr (k x, s'))"

text \<open>Every order of the steps of two threads; a fault of one ends the process.\<close>

inductive interleave ::
  "('s, 'a) actor \<Rightarrow> ('s, 'b) actor \<Rightarrow> 's \<Rightarrow> fault + ('a \<times> 'b \<times> 's) \<Rightarrow> bool" where
  both_done: "interleave (Done a) (Done b) s (Inr (a, b, s))"
| left: "f s = Inr (p, s') \<Longrightarrow> interleave p q s' r \<Longrightarrow> interleave (Step f) q s r"
| left_fault: "f s = Inl e \<Longrightarrow> interleave (Step f) q s (Inl e)"
| right: "f s = Inr (q, s') \<Longrightarrow> interleave p q s' r \<Longrightarrow> interleave p (Step f) s r"
| right_fault: "f s = Inl e \<Longrightarrow> interleave p (Step f) s (Inl e)"

inductive_cases interleave_cases:
  "interleave (Done a) (Done b) s r" "interleave (Step f) (Done b) s r"
  "interleave (Done a) (Step g) s r" "interleave (Step f) (Step g) s r"

text \<open>What follows a step: the fault, or what the rest may do.\<close>

definition after ::
  "fault + ('x \<times> 's) \<Rightarrow> ('x \<Rightarrow> 's \<Rightarrow> fault + 'r \<Rightarrow> bool) \<Rightarrow> fault + 'r \<Rightarrow> bool" where
  "after m k r = (case m of Inl e \<Rightarrow> r = Inl e | Inr (x, s) \<Rightarrow> k x s r)"

lemma after_simps [simp]:
  "after (Inl e) k r \<longleftrightarrow> r = Inl e" "after (Inr (x, s)) k r \<longleftrightarrow> k x s r"
  by (simp_all add: after_def)

lemma interleave_run:
  "interleave (Done a) (Done b) s r \<longleftrightarrow> r = Inr (a, b, s)"
  "interleave (atomically m k) (Done b) s r \<longleftrightarrow> after (m s) (\<lambda>x s. interleave (k x) (Done b) s) r"
  "interleave (Done a) (atomically n l) s r \<longleftrightarrow> after (n s) (\<lambda>x s. interleave (Done a) (l x) s) r"
  "interleave (atomically m k) (atomically n l) s r \<longleftrightarrow>
     after (m s) (\<lambda>x s. interleave (k x) (atomically n l) s) r \<or>
     after (n s) (\<lambda>x s. interleave (atomically m k) (l x) s) r"
  unfolding atomically_def after_def
  by (auto split: sum.splits elim!: interleave_cases intro: interleave.intros)

section \<open>The steps of an open and of the collector\<close>

text \<open>
  \<open>dfs_open\<close> looks the path up and then works on the entry it found; the table is not locked
  between the two.
\<close>

definition open_found ::
  "('w, 'm) env_scheme \<Rightarrow> string \<Rightarrow> 32 word \<Rightarrow> addr option \<Rightarrow> ('w, int \<times> addr option) dprog" where
  "open_found E path flags found =
     (case found of
       Some a \<Rightarrow> open_entry E path flags a
     | None \<Rightarrow>
         seqM (populate_hash E path FILE_REG) (\<lambda>(r, pep).
         if r = - 1 then open_err pep
         else seqM (derefM NullDeref pep) (open_entry E path flags)))"

lemma dfs_open_steps: "dfs_open E path flags = seqM (hash_lookup (Some path)) (open_found E path flags)"
  by (simp add: dfs_open_def open_found_def [abs_def])

text \<open>\<open>gc_callback\<close> reads the number of references, and takes the lock afterwards.\<close>

definition gc_unused :: "('w, 'm) env_scheme \<Rightarrow> string \<Rightarrow> addr \<Rightarrow> nat \<Rightarrow> ('w, unit) dprog" where
  "gc_unused E path a refcount =
     seqM (getS gconf) (\<lambda>conf.
     if refcount \<noteq> 0 then ret ()
     else
       seqM (pentry_trylock a) (\<lambda>busy.
       if busy \<noteq> 0 then ret ()
       else
         seqM (get_pe a) (\<lambda>pe.
         if - 1 = pe_fd pe then pentry_unlock a
         else
           seqM (ext (os_fstat E (pe_fd pe))) (\<lambda>r.
           case r of Inl _ \<Rightarrow> gc_remove E path
           | Inr st \<Rightarrow>
               seqM (ext (os_time E)) (\<lambda>t.
               if gc_young (gc_threshold conf pe) t st then pentry_unlock a
               else gc_remove E path)))))"

lemma gc_callback_steps: "gc_callback E path a = seqM (pentry_get_refcount a) (gc_unused E path a)"
  by (rule ext) (simp add: gc_callback_def gc_unused_def seqM_apply pentry_get_refcount_def get_pe_def
      split: option.split)

definition opener ::
  "('w, 'm) env_scheme \<Rightarrow> string \<Rightarrow> 32 word \<Rightarrow> ('w gstate, int \<times> addr option) actor" where
  "opener E path flags =
     atomically (hash_lookup (Some path)) (\<lambda>found.
     atomically (open_found E path flags found) Done)"

definition collector ::
  "('w, 'm) env_scheme \<Rightarrow> string \<Rightarrow> addr \<Rightarrow> ('w gstate, unit) actor" where
  "collector E path a =
     atomically (pentry_get_refcount a) (\<lambda>refcount.
     atomically (gc_unused E path a refcount) Done)"

section \<open>What can happen\<close>

text \<open>An entry that the collector would remove, in a cache where nothing moves.\<close>

definition collectable ::
  "('w, 'm) env_scheme \<Rightarrow> 'w gstate \<Rightarrow> string \<Rightarrow> addr \<Rightarrow> tpath_entry \<Rightarrow> bool" where
  "collectable E s path a pe \<longleftrightarrow> state_wf s \<and> ghash s path = Some a \<and> pes s a = Some pe \<and>
     (\<exists>cache. c_cache_dir (gconf s) = Live cache) \<and>
     (\<exists>now stats. frozen E now stats \<and> \<not> gc_stays (gconf s) now stats pe)"

lemma collectable_unused: "collectable E s path a pe \<Longrightarrow> pe_refcount pe = 0 \<and> \<not> pe_mutex pe \<and> pe_fd pe \<noteq> - 1"
  by (auto simp: collectable_def gc_stays_def)

text \<open>
  Once the references have been found to be zero, the entry is removed, also when there is a
  reference now.
\<close>

lemma gc_unused_removes:
  fixes s :: "'w gstate"
  assumes "closes E" "collectable E s path a pe"
    and "state_wf t" "ghash t = ghash s" "gconf t = gconf s"
    and t: "pes t a = Some (pe\<lparr>pe_refcount := n, pe_ondisk := o'\<rparr>)"
  shows "\<exists>t'. gc_unused E path a 0 t = Inr ((), t') \<and> pes t' = (pes t)(a := None) \<and>
     ghash t' = (ghash t)(path := None) \<and> state_wf t'"
proof -
  from assms(2) obtain now stats cache where e: "frozen E now stats" "\<not> gc_stays (gconf s) now stats pe"
    "c_cache_dir (gconf s) = Live cache" "ghash s path = Some a" by (auto simp: collectable_def)
  let ?pe = "pe\<lparr>pe_refcount := n, pe_ondisk := o'\<rparr>"
  note u = collectable_unused [OF assms(2)]
  have lock: "state_wf (t\<lparr>pes := (pes t)(a \<mapsto> ?pe\<lparr>pe_mutex := True\<rparr>), world := w\<rparr>)" for w
    by (rule wf_lock [OF assms(3) t])
  have gone: "\<exists>t'. gc_remove E path (t\<lparr>pes := (pes t)(a \<mapsto> ?pe\<lparr>pe_mutex := True\<rparr>), world := w\<rparr>) = Inr ((), t') \<and>
      pes t' = (pes t)(a := None) \<and> ghash t' = (ghash t)(path := None) \<and> state_wf t'" for w
    using gc_remove_returns [OF assms(1) frozen_settled [OF e(1)] _ lock [of w], of path a cache] e assms(4,5)
    by auto
  obtain r w where f: "os_fstat E (pe_fd pe) (world t) = (r, w)" by fastforce
  obtain c v where c: "os_time E w = (c, v)" by fastforce
  from e(1) f c have now: "stats (pe_fd pe) = r" "now = c" unfolding frozen_def by (metis fst_conv)+
  have old: "\<not> gc_young (gc_threshold (gconf s) pe) c st" if "r = Inr st" for st
    using e(2) u that now by (auto simp: gc_stays_def gc_young_def)
  have thr: "gc_threshold (gconf s) (?pe\<lparr>pe_mutex := True\<rparr>) = gc_threshold (gconf s) pe"
    by (simp add: gc_threshold_def)
  note run = gc_unused_def seqM_apply get_pe_def lock_runs ext_apply
  show ?thesis
  proof (cases r)
    case (Inl x)
    with gone [of w] t u f show ?thesis by (simp add: run)
  next
    case (Inr st)
    with gone [of v] t u f c old thr assms(5) show ?thesis by (simp add: run)
  qed
qed

definition opened :: "tpath_entry \<Rightarrow> tpath_entry" where
  "opened pe = pe\<lparr>pe_refcount := Suc (pe_refcount pe), pe_ondisk := FILE_LOCAL\<rparr>"

text \<open>
  C4. What an open for reading and the garbage collector do to each other, when the collector has
  come to the entry of an old cached file that nobody has open: the steps of the two come in
  some order, and the outcomes are exactly four.  The open may be first, and the collector
  spares the file; the collector may be first, and the open starts without an entry.  But the
  collector may also remove the entry between the lookup and the reference of the open, which
  is then taken in released memory; or it counts the references before the open takes its own
  and removes the file after the open has returned 0, with a handle to a released entry.
\<close>

theorem open_collector_race:
  assumes "closes E" and "collectable E s path a pe" and "0 \<le> pe_fd pe"
    and "flags AND O_ACCMODE = O_RDONLY" and "flags AND O_APPEND = 0" and "flags AND O_CREAT = 0"
  shows "\<exists>lost gone. pes lost a = None \<and> ghash gone path = None \<and>
     gc_callback E path a s = Inr ((), gone) \<and>
     Collect (interleave (opener E path flags) (collector E path a) s) =
       {Inr ((0, Some a), (), s\<lparr>pes := (pes s)(a \<mapsto> opened pe)\<rparr>), Inr ((0, Some a), (), lost),
        Inl UseAfterFree, map_sum id (\<lambda>(x, t). (x, (), t)) (dfs_open E path flags gone)}"
proof -
  let ?open = "s\<lparr>pes := (pes s)(a \<mapsto> opened pe)\<rparr>"
  from assms(2) have s: "state_wf s" "ghash s path = Some a" "pes s a = Some pe"
    by (auto simp: collectable_def)
  note u = collectable_unused [OF assms(2)]
  have look: "hash_lookup (Some path) t = Inr (ghash t path, t)" for t :: "'a gstate"
    by (simp add: hash_lookup_def)
  have first: "dfs_open E path flags s = Inr ((0, Some a), ?open)"
    using open_cached [OF s(2,3) assms(3) _ assms(4-6)] u by (simp add: opened_def SEM_VALUE_MAX_def)
  then have found: "open_found E path flags (Some a) s = Inr ((0, Some a), ?open)"
    by (simp add: dfs_open_steps seqM_apply look s(2))
  have wf: "state_wf ?open"
    using keepsD [of state_wf "dfs_open E path flags", OF keeps_wf_open [where D = "{}", unfolded spare_none]]
      s(1) first by blast
  from gc_unused_removes [OF assms(1,2) s(1), where n = "pe_refcount pe" and o' = "pe_ondisk pe"] s obtain gone where
    gone: "gc_unused E path a 0 s = Inr ((), gone)" "pes gone a = None" "ghash gone path = None" by auto
  from gc_unused_removes [OF assms(1,2) wf, where n = "Suc 0" and o' = FILE_LOCAL] u obtain lost where
    lost: "gc_unused E path a 0 ?open = Inr ((), lost)" "pes lost a = None" by (auto simp: opened_def)
  have spared: "gc_unused E path a (Suc 0) ?open = Inr ((), ?open)"
    by (simp add: gc_unused_def seqM_apply)
  have count: "pentry_get_refcount a s = Inr (0, s)" "pentry_get_refcount a ?open = Inr (Suc 0, ?open)"
    using u s by (simp_all add: pentry_get_refcount_def get_pe_def seqM_apply opened_def)
  have freed: "open_found E path flags (Some a) gone = Inl UseAfterFree"
    using gone(2) by (simp add: open_found_def open_entry_def pentry_inc_refcount_def upd_pe_def seqM_apply)
  have new: "dfs_open E path flags gone = open_found E path flags None gone"
    using gone(3) by (simp add: dfs_open_steps seqM_apply look)
  have cb: "gc_callback E path a s = Inr ((), gone)"
    by (simp add: gc_callback_steps seqM_apply count gone)
  have "Collect (interleave (opener E path flags) (collector E path a) s) =
       {Inr ((0, Some a), (), ?open), Inr ((0, Some a), (), lost), Inl UseAfterFree,
        map_sum id (\<lambda>(x, t). (x, (), t)) (dfs_open E path flags gone)}"
    unfolding opener_def collector_def new
    by (cases "open_found E path flags None gone")
       (auto simp: interleave_run look s(2) count found gone(1,3) lost(1) spared freed)
  with cb gone(2,3) lost(2) show ?thesis by blast
qed

lemma sim_collectable: "collectable sim_env sim_state ''/a'' 0 sim_pe"
proof -
  have "\<not> gc_stays (gconf sim_state) sim_now (\<lambda>_. Inr sim_stat) sim_pe"
    by (simp add: gc_stays_def sim_pe_def sim_state_def sim_conf_def gc_threshold_def sim_stat_def
        sim_now_def zero_stat_def)
  with sim_frozen sim_cache sim_state_wf show ?thesis
    unfolding collectable_def by (auto simp: sim_state_def)
qed

lemma open_collector_race_witness:
  "interleave (opener sim_env ''/a'' 0) (collector sim_env ''/a'' 0) sim_state (Inl UseAfterFree)"
  using open_collector_race [OF sim_closes sim_collectable, of 0] by (auto simp: sim_pe_def)

end
