(* ===== verification/Download.thy ===== *)
theory Download
  imports Io
begin

text \<open>
  From the object to the reader: \<open>dfs_open\<close> of a file that is not cached, which goes through
  \<open>dfs_get_local_copy\<close> of \<open>src/file.c\<close>, and the reads that follow.  The theory holds the
  contract of the library and of the system under which the copy is the object, and carries it
  through the programs with the rules of \<open>ends\<close>; the operations themselves are in \<open>File\<close>,
  \<open>Open\<close> and \<open>Io\<close>.
\<close>

section \<open>The cache and the object\<close>

text \<open>
  The views of the outside world in which the properties are stated, for one file: the content
  of its local copy (\<open>v_copy\<close>), the descriptors that are open on the copy (\<open>v_on\<close>), and those of
  them that write at its end (\<open>v_tail\<close>).
\<close>

record 'w copy_view =
  v_copy :: "'w \<Rightarrow> string"
  v_on :: "int \<Rightarrow> 'w \<Rightarrow> bool"
  v_tail :: "int \<Rightarrow> 'w \<Rightarrow> bool"
  v_moved :: "'w \<Rightarrow> bool"

definition quiet :: "'w copy_view \<Rightarrow> 'w \<Rightarrow> 'w \<Rightarrow> bool" where
  "quiet V w w' \<longleftrightarrow> v_copy V w' = v_copy V w \<and> (\<forall>fd. v_tail V fd w \<longrightarrow> v_tail V fd w')"

text \<open>
  The calls on a file named \<open>local\<close>, as they are documented: opening it with \<open>O_TRUNC\<close> empties
  it and gives a descriptor at its end, what is written there is appended, and reading a
  descriptor gives the bytes from the offset; errors have positive numbers.
\<close>

definition caches :: "('w, 'm) env_scheme \<Rightarrow> string \<Rightarrow> 'w copy_view \<Rightarrow> bool" where
  "caches E local V \<longleftrightarrow>
     (\<forall>fl m w fd w'. os_open E local fl m w = (Inr fd, w') \<longrightarrow> v_on V (int fd) w' \<and>
        (if fl AND O_TRUNC \<noteq> 0 then v_copy V w' = [] \<and> v_tail V (int fd) w' else v_copy V w' = v_copy V w)) \<and>
     (\<forall>fd. appends_on E fd (v_tail V fd) (v_copy V)) \<and>
     (\<forall>fd w. v_copy V (snd (os_close E fd w)) = v_copy V w) \<and>
     (\<forall>fd m w. quiet V w (snd (os_fchmod E fd m w))) \<and>
     (\<forall>fd n off w r w'. v_on V fd w \<longrightarrow> 0 \<le> off \<longrightarrow> os_pread E fd n off w = (r, w') \<longrightarrow>
        (case r of Inl e \<Rightarrow> 0 < e | Inr data \<Rightarrow> data = take n (drop (nat off) (v_copy V w))))"

lemma cachesD:
  assumes "caches E local V"
  shows "os_open E local fl m w = (Inr fd, w') \<Longrightarrow> v_on V (int fd) w' \<and>
       (if fl AND O_TRUNC \<noteq> 0 then v_copy V w' = [] \<and> v_tail V (int fd) w' else v_copy V w' = v_copy V w)"
    and "appends_on E fd' (v_tail V fd') (v_copy V)"
    and "v_copy V (snd (os_close E fd' w)) = v_copy V w"
    and "quiet V w (snd (os_fchmod E fd' m w))"
    and "v_on V fd' w \<Longrightarrow> 0 \<le> off \<Longrightarrow> os_pread E fd' n off w = (r, w') \<Longrightarrow>
       (case r of Inl e \<Rightarrow> 0 < e | Inr data \<Rightarrow> data = take n (drop (nat off) (v_copy V w)))"
  using assms unfolding caches_def by blast+

text \<open>
  \<open>dpl_openread\<close> hands an object to its callback in pieces, until the callback refuses one; it
  reports success only if all of them were taken.
\<close>

fun fed_by :: "'w copy_view \<Rightarrow> (string \<Rightarrow> ('w, int) prog) \<Rightarrow> string list \<Rightarrow> 'w \<Rightarrow> 'w \<Rightarrow> bool" where
  "fed_by V cb [] w w' \<longleftrightarrow> quiet V w w'"
| "fed_by V cb (c # cs) w w' \<longleftrightarrow>
     (\<exists>w1 w2. quiet V w w1 \<and> cb c w1 = Inr (0, w2) \<and> fed_by V cb cs w2 w')"

text \<open>
  The object is handed out as it is stored.  The metadata that come with it have \<open>M\<close>; if there are
  none, those made from the headers have it, which is only so if \<open>H\<close>.
\<close>

definition hands_out ::
  "('w, 'm) env_scheme \<Rightarrow> string \<Rightarrow> string \<Rightarrow> (dict \<Rightarrow> bool) \<Rightarrow> bool \<Rightarrow> 'w copy_view \<Rightarrow> bool" where
  "hands_out E remote stored M H V \<longleftrightarrow> d_status_code E DPL_SUCCESS = 0 \<and>
     (\<forall>fl cb w got w'. d_openread E remote fl cb w = Inr ((DPL_SUCCESS, got), w') \<longrightarrow>
        (\<exists>cs. concat cs = stored \<and> fed_by V cb cs w w') \<and> (case got of None \<Rightarrow> H | Some md \<Rightarrow> M md)) \<and>
     (H \<longrightarrow> (\<forall>hs w rc d' w'. d_metadata_from_headers E hs Map.empty w = ((rc, d'), w') \<longrightarrow> M d'))"

lemma hands_outD:
  assumes "hands_out E remote stored M H V"
  shows "d_status_code E DPL_SUCCESS = 0"
    and "d_openread E remote fl cb w = Inr ((DPL_SUCCESS, got), w') \<Longrightarrow>
       (\<exists>cs. concat cs = stored \<and> fed_by V cb cs w w') \<and> (case got of None \<Rightarrow> H | Some md \<Rightarrow> M md)"
    and "H \<Longrightarrow> d_metadata_from_headers E hs Map.empty w = ((rc, d'), w') \<Longrightarrow> M d'"
  using assms unfolding hands_out_def by blast+

text \<open>Metadata of an object that is not compressed, and of one that is.\<close>

definition uncompressed :: "dict \<Rightarrow> bool" where
  "uncompressed md \<longleftrightarrow> (case md ''compression'' of None \<Rightarrow> True | Some c \<Rightarrow> strncmp_eq c ''none'' 4)"

definition compressed :: "dict \<Rightarrow> bool" where
  "compressed md \<longleftrightarrow> (\<exists>c. md ''compression'' = Some c \<and> strncmp_eq c ''zlib'' 4 \<and> \<not> strncmp_eq c ''none'' 4)"

text \<open>
  The calls that expand a compressed copy: the streams \<open>src\<close> and \<open>dst\<close> are on the copy and on a new
  file, which takes its name (\<open>v_moved\<close>), and holds all that was written when the stream is closed.
\<close>

definition unpacks ::
  "('w, 'm) env_scheme \<Rightarrow> string \<Rightarrow> nat \<Rightarrow> nat \<Rightarrow> 'w copy_view \<Rightarrow> 'w zview \<Rightarrow> bool" where
  "unpacks E local src dst V Z \<longleftrightarrow>
     (\<forall>w f w'. os_fopen E local ''r'' w = (Inr f, w') \<longrightarrow> f = src \<and> v_in Z w' = v_copy V w) \<and>
     (\<forall>w f w'. os_fopen E (fmt (local @ ''.tmp'')) ''w'' w = (Inr f, w') \<longrightarrow>
        f = dst \<and> v_out Z w' = [] \<and> v_in Z w' = v_in Z w) \<and>
     (\<forall>d k x w. v_out Z (snd (d_dict_update E d k x w)) = v_out Z w) \<and>
     (\<forall>w. case os_rename E (fmt (local @ ''.tmp'')) local w of
        (err, w') \<Rightarrow> err = None \<and> v_moved V w' \<and> v_out Z w' = v_out Z w) \<and>
     (\<forall>fd w. v_moved V (snd (os_close E fd w)) = v_moved V w \<and> v_out Z (snd (os_close E fd w)) = v_out Z w) \<and>
     (\<forall>m w. v_moved V (snd (os_open E local O_RDONLY m w)) = v_moved V w \<and>
        v_out Z (snd (os_open E local O_RDONLY m w)) = v_out Z w) \<and>
     (\<forall>w. v_moved V (os_fclose E src w) = v_moved V w \<and> v_out Z (os_fclose E src w) = v_out Z w) \<and>
     (\<forall>w. v_moved V w \<longrightarrow> v_copy V (os_fclose E dst w) = v_out Z w)"

text \<open>An object that is not compressed.\<close>

definition serves :: "('w, 'm) env_scheme \<Rightarrow> string \<Rightarrow> string \<Rightarrow> 'w copy_view \<Rightarrow> bool" where
  "serves E remote object V \<longleftrightarrow> d_status_code E DPL_SUCCESS = 0 \<and>
     (\<forall>fl cb w got w'. d_openread E remote fl cb w = Inr ((DPL_SUCCESS, got), w') \<longrightarrow>
        (\<exists>cs. concat cs = object \<and> fed_by V cb cs w w') \<and> (case got of None \<Rightarrow> True | Some md \<Rightarrow> uncompressed md)) \<and>
     (\<forall>hs d w rc d' w'. uncompressed d \<longrightarrow> d_metadata_from_headers E hs d w = ((rc, d'), w') \<longrightarrow> uncompressed d')"

lemma serves_hands_out: "serves E remote object V \<Longrightarrow> hands_out E remote object uncompressed True V"
  unfolding serves_def hands_out_def using uncompressed_def [of Map.empty] by fastforce

text \<open>How an object is stored: as it is, or compressed.\<close>

definition stores ::
  "('w, 'm) env_scheme \<Rightarrow> string \<Rightarrow> string \<Rightarrow> string \<Rightarrow> (dict \<Rightarrow> bool) \<Rightarrow> 'w copy_view \<Rightarrow> bool" where
  "stores E local object stored M V \<longleftrightarrow> M = uncompressed \<and> stored = object \<or>
     M = compressed \<and> (\<exists>enc src dst Z. stored = enc object \<and> inflates E enc object Z \<and> files E src dst Z \<and>
       unpacks E local src dst V Z)"

section \<open>Fetching\<close>

lemma cb_get_buffered_run:
  assumes "caches E local V" "d_status_code E DPL_SUCCESS = 0" "v_tail V fd w"
    and "cb_get_buffered E fd c w = Inr (0, w')"
  shows "v_tail V fd w' \<and> v_copy V w' = v_copy V w @ c"
proof -
  from assms(4) obtain r where r: "write_all E fd c w = Inr (r, w')" "r = 0"
    using assms(2) by (auto simp: cb_get_buffered_def seqM_apply split: sum.splits if_splits)
  from write_all_content_on [OF cachesD(2) [OF assms(1)] assms(3) r(1)] r(2) show ?thesis by auto
qed

lemma fed_by_copy:
  assumes "caches E local V" "d_status_code E DPL_SUCCESS = 0" "v_tail V fd w"
    and "fed_by V (cb_get_buffered E fd) cs w w'"
  shows "v_copy V w' = v_copy V w @ concat cs"
  using assms(3,4)
proof (induction cs arbitrary: w)
  case Nil
  then show ?case by (simp add: quiet_def)
next
  case (Cons c cs)
  then obtain w1 w2 where 1: "quiet V w w1" "cb_get_buffered E fd c w1 = Inr (0, w2)"
    "fed_by V (cb_get_buffered E fd) cs w2 w'" by auto
  then have "v_tail V fd w1" "v_copy V w1 = v_copy V w" using Cons.prems(1) by (auto simp: quiet_def)
  with cb_get_buffered_run [OF assms(1,2) this(1) 1(2)] Cons.IH [OF _ 1(3)] show ?case by simp
qed

lemma keeps_copy_close:
  assumes "caches E local V"
  shows "keeps (\<lambda>s. v_copy V (world s) = x) (safe_close E fd)"
  unfolding safe_close_def safe_close_body_def
  by (intro keeps_intro keeps_ext_frame [where P = "\<lambda>w. v_copy V w = x"]) (simp add: cachesD(3) [OF assms])

lemma handle_plain:
  assumes "dicts s m = Some md" "uncompressed md"
  shows "handle_compression E remote local fd m s = Inr ((0, fd), s)"
  using assms by (auto simp: handle_compression_def seqM_apply get_dict_def uncompressed_def split: option.splits)

lemma copy_end_run:
  assumes "copy_end m h fd s = Inr (r, s')"
  shows "r = fd \<and> world s' = world s \<and> pes s' = pes s"
  using assms by (auto simp: copy_end_def dict_free_opt_def dict_free_def seqM_apply split: option.splits)

text \<open>What an open that succeeds leaves: the object is in the copy, and the result reads it.\<close>

definition copied :: "'w copy_view \<Rightarrow> string \<Rightarrow> int \<Rightarrow> 'w gstate \<Rightarrow> bool" where
  "copied V object r s \<longleftrightarrow> r \<noteq> - 1 \<longrightarrow> 0 \<le> r \<and> v_on V r (world s) \<and> v_copy V (world s) = object"

definition marked :: "(dict \<Rightarrow> bool) \<Rightarrow> addr \<Rightarrow> 'w gstate \<Rightarrow> bool" where
  "marked M m s \<longleftrightarrow> m < fresh s \<and> (\<forall>md. dicts s m = Some md \<longrightarrow> M md)"

lemma copy_end_fails [ends_intro]: "ends P (copy_end m h (- 1)) (copied V object)"
  by (auto simp: ends_def copied_def dest: copy_end_run)

lemma copy_end_copied: "ends (copied V object fd) (copy_end m h fd) (copied V object)"
  by (auto simp: ends_def copied_def dest!: copy_end_run)

lemma fail_after [ends_intro]: "ends P (seqM (safe_close E fd) (\<lambda>_. copy_end m h (- 1))) (copied V object)"
  by (rule ends_seqM [OF ends_keeps [where I = "\<lambda>_. True"]]) (simp_all add: keeps_def copy_end_fails)

text \<open>Expanding the copy.\<close>

lemma unpacksD:
  assumes "unpacks E local src dst V Z"
  shows "os_fopen E local ''r'' w = (Inr f, w') \<Longrightarrow> f = src \<and> v_in Z w' = v_copy V w"
    and "os_fopen E (fmt (local @ ''.tmp'')) ''w'' w = (Inr f, w') \<Longrightarrow> f = dst \<and> v_out Z w' = [] \<and> v_in Z w' = v_in Z w"
    and "v_out Z (snd (d_dict_update E d k x w)) = v_out Z w"
    and "os_rename E (fmt (local @ ''.tmp'')) local w = (err, w') \<Longrightarrow> err = None \<and> v_moved V w' \<and> v_out Z w' = v_out Z w"
    and "v_moved V (snd (os_close E fd w)) = v_moved V w" "v_out Z (snd (os_close E fd w)) = v_out Z w"
    and "v_moved V (snd (os_open E local O_RDONLY m w)) = v_moved V w"
      "v_out Z (snd (os_open E local O_RDONLY m w)) = v_out Z w"
    and "v_moved V (os_fclose E src w) = v_moved V w" "v_out Z (os_fclose E src w) = v_out Z w"
    and "v_moved V w \<Longrightarrow> v_copy V (os_fclose E dst w) = v_out Z w"
  using assms unfolding unpacks_def by (auto split: prod.splits)

lemma uncompress_moves:
  assumes "unpacks E local src dst V Z" "inflates E enc object Z" "files E src dst Z"
  shows "ends (\<lambda>s. v_in Z (world s) = enc object \<and> v_out Z (world s) = [])
     (uncompress_local E (fmt (local @ ''.tmp'')) local fd m src dst)
     (\<lambda>(r, f) s. r = - 1 \<or> v_moved V (world s) \<and> v_out Z (world s) = object)"
proof -
  let ?out = "\<lambda>s. v_out Z (world s) = object" and ?Q = "\<lambda>(r :: int, f :: int) s. r = - 1 \<or> v_moved V (world s) \<and> v_out Z (world s) = object"
  let ?M = "\<lambda>s. v_moved V (world s) \<and> v_out Z (world s) = object"
  have un: "ends (\<lambda>s. v_in Z (world s) = enc object \<and> v_out Z (world s) = []) (unzip E src dst)
      (\<lambda>r s. r = Z_OK \<longrightarrow> ?out s)"
  proof (rule endsI)
    fix s :: "'a gstate" and r s'
    assume s: "v_in Z (world s) = enc object \<and> v_out Z (world s) = []" and u: "unzip E src dst s = Inr (r, s')"
    obtain rc strm w where "z_inflateInit E (world s) = ((rc, strm), w)" by (metis prod.exhaust)
    from unzip_run [OF assms(2,3) _ this] s u show "r = Z_OK \<longrightarrow> ?out s'"
      by (auto simp: unzipped_def z_codes split: if_splits)
  qed
  have mark: "ends ?out (dict_call (\<lambda>d. d_dict_update E d ''compression'' ''none'') m) (\<lambda>_. ?out)"
    unfolding keeps_iff_ends [symmetric] dict_call_def
    by (intro keeps_intro keeps_still [where P = "\<lambda>w. v_out Z w = object"] keeps_ext_frame [where P = "\<lambda>w. v_out Z w = object"])
       (simp add: unpacksD(3) [OF assms(1)])
  have move: "ends ?out (ext (os_rename E (fmt (local @ ''.tmp'')) local)) (\<lambda>err s. err = None \<and> ?M s)"
    by (rule ends_ext) (auto dest: unpacksD(4) [OF assms(1)])
  have keep: "keeps ?M (safe_close E fd)" "keeps ?M (ext (os_open E local O_RDONLY 0))"
    unfolding safe_close_def safe_close_body_def
    by (intro keeps_intro keeps_ext_frame [where P = "\<lambda>w. v_moved V w \<and> v_out Z w = object"];
        simp add: unpacksD(5-8) [OF assms(1)])+
  have reopen: "ends ?M (seqM (safe_close E fd) (\<lambda>_. seqM (ext (os_open E local O_RDONLY 0)) (\<lambda>r.
       case r of Inl _ \<Rightarrow> ret (- 1, - 1) | Inr fd \<Rightarrow> ret (0, int fd)))) ?Q"
    by (rule ends_seqM [OF ends_keeps [OF keep(1)]], simp, rule ends_seqM [OF ends_keeps [OF keep(2)]])
       (auto simp: ends_def split: sum.splits)
  show ?thesis
    unfolding uncompress_local_def
    by (rule ends_seqM [OF un], rule ends_branch, simp add: ends_def, rule ends_from [OF ends_seqM [OF mark]])
       (rule ends_branch, simp add: ends_def, rule ends_at [OF move], simp add: reopen, simp)
qed

lemma handle_coded:
  assumes u: "unpacks E local src dst V Z" and z: "inflates E enc object Z" "files E src dst Z"
    and md: "dicts s m = Some md" "compressed md" and copy: "v_copy V (world s) = enc object"
    and run: "handle_compression E remote local fd m s = Inr ((r, f), s')" "r \<noteq> - 1"
  shows "v_copy V (world s') = object"
proof -
  let ?dst = "ext (os_fopen E (fmt (local @ ''.tmp'')) ''w'')"
  let ?Q = "\<lambda>(r :: int, f :: int) s. r = - 1 \<or> v_copy V (world s) = object"
  have src: "ends (\<lambda>s. v_copy V (world s) = enc object) (ext (os_fopen E local ''r''))
      (\<lambda>r s. case r of Inl _ \<Rightarrow> True | Inr f \<Rightarrow> f = src \<and> v_in Z (world s) = enc object)"
    by (rule ends_ext) (auto dest: unpacksD(1) [OF u] split: sum.splits)
  have dst: "ends (\<lambda>s. v_in Z (world s) = enc object) ?dst
      (\<lambda>r s. case r of Inl _ \<Rightarrow> True | Inr f \<Rightarrow> f = dst \<and> v_in Z (world s) = enc object \<and> v_out Z (world s) = [])"
    by (rule ends_ext) (auto dest: unpacksD(2) [OF u] split: sum.splits)
  have close: "ends ((\<lambda>(r, f) s. r = - 1 \<or> v_moved V (world s) \<and> v_out Z (world s) = object) res)
      (close_streams E (Some src) (Some dst) res) ?Q" for res
    by (auto simp: ends_def close_streams_def seqM_apply ext_apply unpacksD(9-11) [OF u])
  have body: "ends (\<lambda>s. f = dst \<and> v_in Z (world s) = enc object \<and> v_out Z (world s) = [])
      (seqM (uncompress_local E (fmt (local @ ''.tmp'')) local fd m src f) (close_streams E (Some src) (Some f))) ?Q" for f
    by (rule ends_pre, hypsubst, rule ends_seqM [OF uncompress_moves [OF u z]], rule close)
  have fail: "ends P (close_streams E (Some src) None (- 1, fd)) ?Q" for P :: "'a gstate \<Rightarrow> bool"
    by (auto simp: ends_def close_streams_def seqM_apply ext_apply)
  have inner: "ends (\<lambda>s. v_in Z (world s) = enc object) (seqM ?dst (\<lambda>r.
      case r of Inl _ \<Rightarrow> close_streams E (Some src) None (- 1, fd)
      | Inr fpdst \<Rightarrow> seqM (uncompress_local E (fmt (local @ ''.tmp'')) local fd m src fpdst)
          (close_streams E (Some src) (Some fpdst)))) ?Q"
    by (rule ends_seqM [OF dst], rule ends_branch, rule fail, rule ends_from [OF body], simp)
  have outer: "ends (\<lambda>s. f = src \<and> v_in Z (world s) = enc object) (seqM ?dst (\<lambda>r.
      case r of Inl _ \<Rightarrow> close_streams E (Some f) None (- 1, fd)
      | Inr fpdst \<Rightarrow> seqM (uncompress_local E (fmt (local @ ''.tmp'')) local fd m f fpdst)
          (close_streams E (Some f) (Some fpdst)))) ?Q" for f
    by (rule ends_pre, hypsubst, rule inner)
  have all: "ends (\<lambda>s. v_copy V (world s) = enc object) (seqM (ext (os_fopen E local ''r'')) (\<lambda>r.
      case r of Inl _ \<Rightarrow> ret (- 1, fd)
      | Inr f \<Rightarrow> seqM ?dst (\<lambda>r. case r of Inl _ \<Rightarrow> close_streams E (Some f) None (- 1, fd)
          | Inr fpdst \<Rightarrow> seqM (uncompress_local E (fmt (local @ ''.tmp'')) local fd m f fpdst)
              (close_streams E (Some f) (Some fpdst))))) ?Q"
    by (rule ends_seqM [OF src], rule ends_branch, simp add: ends_def, rule ends_from [OF outer], simp)
  from md run(1) have "seqM (ext (os_fopen E local ''r'')) (\<lambda>r.
      case r of Inl _ \<Rightarrow> ret (- 1, fd)
      | Inr f \<Rightarrow> seqM ?dst (\<lambda>r. case r of Inl _ \<Rightarrow> close_streams E (Some f) None (- 1, fd)
          | Inr fpdst \<Rightarrow> seqM (uncompress_local E (fmt (local @ ''.tmp'')) local fd m f fpdst)
              (close_streams E (Some f) (Some fpdst)))) s = Inr ((r, f), s')"
    by (auto simp: handle_compression_def seqM_apply [of "get_dict m"] get_dict_def compressed_def Let_def)
  from endsD [OF all copy this] run(2) show ?thesis by simp
qed

lemma handle_expands:
  assumes "stores E local object stored M V"
  shows "ends (\<lambda>s. v_copy V (world s) = stored \<and> marked M m s) (handle_compression E remote local fd m)
     (\<lambda>(r, f) s. r = - 1 \<or> v_copy V (world s) = object)"
proof (rule endsI)
  fix s x s'
  assume "v_copy V (world s) = stored \<and> marked M m s" and "handle_compression E remote local fd m s = Inr (x, s')"
  then obtain r f where s: "v_copy V (world s) = stored" "marked M m s" and x: "x = (r, f)"
    and run: "handle_compression E remote local fd m s = Inr ((r, f), s')" by (cases x) auto
  from run obtain md where md: "dicts s m = Some md"
    by (auto simp: handle_compression_def seqM_apply get_dict_def split: option.splits)
  with s(2) have "M md" by (simp add: marked_def)
  have "v_copy V (world s') = object" if "r \<noteq> - 1"
    using assms [unfolded stores_def]
  proof (elim disjE exE conjE)
    assume "M = uncompressed" "stored = object"
    with \<open>M md\<close> handle_plain [OF md, of E remote local fd] run s(1) show ?thesis by simp
  next
    fix enc src dst Z
    assume "M = compressed" "stored = enc object" "inflates E enc object Z" "files E src dst Z" "unpacks E local src dst V Z"
    with \<open>M md\<close> handle_coded [OF this(5,3,4) md _ _ run that] s(1) show ?thesis by simp
  qed
  then show "(\<lambda>(r, f) s. r = - 1 \<or> v_copy V (world s) = object) x s'" by (auto simp: x)
qed

lemma fetch_end_copied:
  assumes "caches E local V" "flags AND O_TRUNC = 0" "stores E local object stored M V"
  shows "ends (\<lambda>s. v_copy V (world s) = stored \<and> marked M m s) (fetch_end E remote local flags h fd m) (copied V object)"
proof -
  let ?P = "\<lambda>s. v_copy V (world s) = object"
  have op: "ends ?P (ext (os_open E local flags 0x180)) (\<lambda>r s. case r of Inl _ \<Rightarrow> True | Inr f \<Rightarrow> copied V object (int f) s)"
    using cachesD(1) [OF assms(1)] assms(2)
    by (intro ends_ext) (fastforce simp: copied_def split: sum.splits)
  have re: "ends ?P (seqM (ext (os_open E local flags 0x180)) (\<lambda>r. case r of Inl _ \<Rightarrow> copy_end (Some m) h (- 1)
      | Inr f \<Rightarrow> copy_end (Some m) h (int f))) (copied V object)"
    by (rule ends_seqM [OF op]) (auto intro: copy_end_fails copy_end_copied split: sum.splits)
  have cl: "ends ?P (safe_close E f) (\<lambda>_. ?P)" for f
    by (rule ends_keeps [OF keeps_copy_close [OF assms(1)]]) simp
  have rest: "ends (\<lambda>s. r = - 1 \<or> ?P s) (if r = - 1 then copy_end (Some m) h (- 1)
      else seqM (safe_close E f) (\<lambda>c. if c = - 1 then copy_end (Some m) h (- 1)
        else seqM (ext (os_open E local flags 0x180)) (\<lambda>r. case r of Inl _ \<Rightarrow> copy_end (Some m) h (- 1)
          | Inr f \<Rightarrow> copy_end (Some m) h (int f)))) (copied V object)" for r f
    by (rule ends_branch, rule copy_end_fails, rule ends_from [OF ends_seqM [OF cl]])
       (auto intro: copy_end_fails re)
  show ?thesis
    unfolding fetch_end_def
    by (rule ends_seqM [OF handle_expands [OF assms(3)]], simp only: split_paired_all prod.case, rule rest)
qed

lemma keeps_marked_worldly: "worldly m \<Longrightarrow> keeps (marked M d) m"
  by (rule keeps_worldly) (simp_all add: marked_def)

lemma openread_copied:
  assumes "caches E local V" "hands_out E remote stored M H V"
  shows "ends (\<lambda>s. v_tail V fd (world s) \<and> v_copy V (world s) = [] \<and> marked (\<lambda>md. H \<longrightarrow> M md) m s)
     (ext_prog (d_openread E remote fl (cb_get_buffered E fd)))
     (\<lambda>(rc, got) s. rc = DPL_SUCCESS \<longrightarrow> v_copy V (world s) = stored \<and>
        (case got of None \<Rightarrow> marked M m s | Some d \<Rightarrow> M d))"
proof (rule endsI, clarify)
  fix s got s'
  assume s: "v_tail V fd (world s)" "v_copy V (world s) = []" "marked (\<lambda>md. H \<longrightarrow> M md) m s"
    and "ext_prog (d_openread E remote fl (cb_get_buffered E fd)) s = Inr ((DPL_SUCCESS, got), s')"
  then obtain w where o: "d_openread E remote fl (cb_get_buffered E fd) (world s) = Inr ((DPL_SUCCESS, got), w)"
    and s': "s' = s\<lparr>world := w\<rparr>"
    by (auto simp: ext_prog_def split: sum.splits)
  from hands_outD(2) [OF assms(2) o] obtain cs where cs: "concat cs = stored"
    "fed_by V (cb_get_buffered E fd) cs (world s) w" and got: "case got of None \<Rightarrow> H | Some md \<Rightarrow> M md"
    by blast
  from fed_by_copy [OF assms(1) hands_outD(1) [OF assms(2)] s(1) cs(2)] s cs got s'
  show "v_copy V (world s') = stored \<and> (case got of None \<Rightarrow> marked M m s' | Some d \<Rightarrow> M d)"
    by (auto simp: marked_def split: option.splits)
qed

lemma fetch_copied:
  assumes "caches E local V" "hands_out E remote stored M H V" "flags AND O_TRUNC = 0" "stores E local object stored M V"
  shows "ends (\<lambda>s. v_tail V fd (world s) \<and> v_copy V (world s) = [] \<and> marked (\<lambda>md. H \<longrightarrow> M md) m s)
     (fetch E remote local flags h fd m) (copied V object)"
proof -
  let ?P = "\<lambda>s. v_tail V fd (world s) \<and> v_copy V (world s) = [] \<and> marked (\<lambda>md. H \<longrightarrow> M md) m s"
  note fin = fetch_end_copied [OF assms(1,3,4)]
  have gd: "ends ?P (get_dict m) (\<lambda>_. ?P)"
    by (auto simp: ends_def get_dict_def split: option.splits)
  have ch: "ends ?P (ext (os_fchmod E fd mo)) (\<lambda>_. ?P)" for mo
  proof (rule ends_ext)
    fix s r w assume "?P s" "os_fchmod E fd mo (world s) = (r, w)"
    then show "?P (s\<lparr>world := w\<rparr>)"
      using cachesD(4) [OF assms(1), of "world s" fd mo] by (simp add: quiet_def marked_def)
  qed
  have mode: "ends ?P (case md ''mode'' of None \<Rightarrow> ret None | Some mo \<Rightarrow> ext (os_fchmod E fd (ucast (strtoul mo))))
      (\<lambda>_. ?P)" for md :: dict
    by (intro ends_branch ch ends_ret) simp
  have gone: "ends (\<lambda>s. (case (rc, got) of (rc, got) \<Rightarrow> rc = DPL_SUCCESS \<longrightarrow> v_copy V (world s) = stored \<and>
        (case got of None \<Rightarrow> marked M m s | Some d \<Rightarrow> M d)))
      (case got of
        None \<Rightarrow> if rc \<noteq> DPL_SUCCESS then seqM (safe_close E fd) (\<lambda>_. copy_end (Some m) h (- 1))
          else fetch_end E remote local flags h fd m
      | Some d \<Rightarrow> seqM (own_dict d) (\<lambda>m. if rc \<noteq> DPL_SUCCESS then seqM (safe_close E fd) (\<lambda>_. copy_end (Some m) h (- 1))
          else fetch_end E remote local flags h fd m)) (copied V object)" for rc got
  proof (cases "rc = DPL_SUCCESS")
    case True
    show ?thesis
    proof (cases got)
      case None
      with True show ?thesis by (simp add: fin)
    next
      case (Some d)
      have "ends (\<lambda>s. v_copy V (world s) = stored \<and> M d) (own_dict d)
        (\<lambda>a s. v_copy V (world s) = stored \<and> marked M a s)"
        by (auto simp: ends_def own_dict_def marked_def)
      from ends_seqM [OF this fin] True Some show ?thesis by simp
    qed
  next
    case False
    then show ?thesis
      by (auto split: option.split intro: fail_after ends_seqM [OF ends_keeps [where I = "\<lambda>_. True"]] simp: keeps_def)
  qed
  show ?thesis
    unfolding fetch_def Let_def
    by (rule ends_seqM [OF gd], rule ends_seqM [OF mode], rule ends_branch, rule fail_after,
        rule ends_seqM [OF openread_copied [OF assms(1,2)]], simp only: split_paired_all prod.case, rule gone [unfolded prod.case])
qed

lemma keeps_marked_set_usermd: "keeps (marked M m) (pentry_set_usermd E a p)"
proof (rule keepsI)
  fix s r s' assume "marked M m s" "pentry_set_usermd E a p s = Inr (r, s')"
  then show "marked M m s'"
    unfolding pentry_set_usermd_def marked_def
    by (cases p) (auto simp: dict_ops state_ops seqM_apply split: option.splits prod.splits if_splits)
qed

lemma keeps_marked_locks: "keeps (marked M m) (pentry_md_lock a)" "keeps (marked M m) (pentry_md_unlock a)"
  unfolding pentry_md_lock_def pentry_gen_lock_def pentry_md_unlock_def pentry_gen_unlock_def
  by (auto simp: keeps_def marked_def state_ops seqM_apply split: option.splits if_splits)

lemma compare_digests_away:
  "ends (\<lambda>s. away a s \<and> marked M m s) (compare_digests a h) (\<lambda>r s. r = - 1 \<and> marked M m s)"
  by (auto simp: ends_def away_def compare_digests_def get_pe_def seqM_apply)

lemma metadata_marked:
  assumes "hands_out E remote stored M H V"
  shows "ends (\<lambda>s. away a s \<and> marked (\<lambda>md. md = Map.empty) m s) (dict_call (d_metadata_from_headers E hs) m)
     (\<lambda>_ s. away a s \<and> marked (\<lambda>md. H \<longrightarrow> M md) m s)"
  using hands_outD(3) [OF assms, of hs]
  by (auto simp: ends_def away_def marked_def dict_call_def state_ops seqM_apply
      split: option.splits prod.splits)

lemma dict_new_marked:
  "ends (away a) (dict_new E) (\<lambda>new s. away a s \<and> (\<forall>m\<in>set_option new. marked (\<lambda>md. md = Map.empty) m s))"
  by (auto simp: ends_def away_def marked_def dict_new_def state_ops seqM_apply split: prod.splits if_splits)

lemma local_copy_copied:
  assumes c: "caches E local V" and s: "hands_out E remote stored M H V" and f: "flags AND O_TRUNC = 0"
    and o: "stores E local object stored M V"
    and dir: "local = fmt (dir @ remote)"
  shows "ends (\<lambda>s. c_cache_dir (gconf s) = Live dir \<and> away a s) (dfs_get_local_copy E a remote flags)
     (copied V object)"
proof -
  let ?N = "\<lambda>md. H \<longrightarrow> M md" and ?B = "\<lambda>m s. away a s \<and> marked (\<lambda>md. md = Map.empty) m s"
  let ?A = "\<lambda>m s. away a s \<and> marked ?N m s"
  have conf: "ends (\<lambda>s. c_cache_dir (gconf s) = Live dir \<and> away a s) (getS gconf)
      (\<lambda>conf s. c_cache_dir conf = Live dir \<and> away a s)"
    by (simp add: ends_def)
  have shown: "ends (\<lambda>s. c_cache_dir conf = Live dir \<and> away a s) (sptr_show (c_cache_dir conf))
      (\<lambda>x s. x = dir \<and> away a s)" for conf
    by (rule ends_pre) (simp add: ends_def sptr_show_def)
  have hdr: "ends (away a) (download_headers E remote) (\<lambda>_. away a)"
    using keeps_away_headers unfolding keeps_iff_ends .
  have hd: "ends (?B m)
      (case h of None \<Rightarrow> ret None | Some h \<Rightarrow> seqM (get_dict h) (\<lambda>d. ret (Some d)))
      (\<lambda>_. ?B m)" for h m
    by (intro ends_all keeps_intro away_intro keeps_marked_worldly worldly_intro)
  have md: "ends (?A m) (pentry_md_lock a) (\<lambda>_. ?A m)" "ends (?A m) (pentry_md_unlock a) (\<lambda>_. ?A m)"
    "ends (?A m) (pentry_set_usermd E a p) (\<lambda>_. ?A m)" for m p
    by (intro ends_all away_intro keeps_marked_locks keeps_marked_set_usermd)+
  have os: "ends (marked ?N m) (ext (os_access E local)) (\<lambda>_. marked ?N m)"
    "ends (marked ?N m) (if err = None then ext (os_unlink E local) else ret None) (\<lambda>_. marked ?N m)" for m err
    unfolding keeps_iff_ends [symmetric] by (intro keeps_marked_worldly worldly_intro)+
  have opn: "ends (marked ?N m) (ext (os_open E local (O_RDWR OR O_CREAT OR O_TRUNC) 0x1A4))
      (\<lambda>r s. case r of Inl _ \<Rightarrow> True | Inr fd \<Rightarrow> v_tail V (int fd) (world s) \<and> v_copy V (world s) = [] \<and> marked ?N m s)" for m
    using cachesD(1) [OF c] by (intro ends_ext) (auto simp: marked_def split: sum.splits)
  have rest: "ends (marked ?N m) (seqM (ext (os_access E local)) (\<lambda>err.
       seqM (if err = None then ext (os_unlink E local) else ret None) (\<lambda>_.
       seqM (ext (os_open E local (O_RDWR OR O_CREAT OR O_TRUNC) 0x1A4)) (\<lambda>r.
       case r of Inl _ \<Rightarrow> copy_end (Some m) h (- 1)
       | Inr fd \<Rightarrow> fetch E remote local flags h (int fd) m)))) (copied V object)" for m h
    by (rule ends_seqM [OF os(1)], rule ends_seqM [OF os(2)], rule ends_seqM [OF opn])
       (auto intro: copy_end_fails fetch_copied [OF c s f o] split: sum.splits)
  show ?thesis
    unfolding dfs_get_local_copy_def Let_def
    by (rule ends_seqM [OF conf], rule ends_at [OF shown], rule ends_seqM [OF hdr],
        rule ends_branch, rule ends_branch, rule copy_end_fails,
        rule ends_seqM [OF dict_new_marked], rule ends_branch, rule copy_end_fails,
        simp only: option.set ball_simps simp_thms, rule ends_seqM [OF hd],
        rule ends_seqM [OF metadata_marked [OF s]], rule ends_branch, rule copy_end_fails,
        rule ends_seqM [OF md(1)], rule ends_seqM [OF md(3)], rule ends_seqM [OF md(2)],
        rule ends_branch, rule copy_end_fails, rule ends_branch, rule copy_end_fails,
        rule ends_at [OF compare_digests_away], rule ends_branch, simp, fold dir, rule rest)
qed

section \<open>Opening and reading\<close>

definition readable :: "'w copy_view \<Rightarrow> string \<Rightarrow> addr \<Rightarrow> 'w gstate \<Rightarrow> bool" where
  "readable V object a s \<longleftrightarrow> (\<exists>pe. pes s a = Some pe \<and> copied V object (pe_fd pe) s \<and> pe_fd pe \<noteq> - 1)"

definition uncached :: "string \<Rightarrow> addr \<Rightarrow> 'w gstate \<Rightarrow> bool" where
  "uncached dir a s \<longleftrightarrow> c_cache_dir (gconf s) = Live dir \<and>
     (\<exists>pe. pes s a = Some pe \<and> pe_fd pe < 0 \<and> pe_ondisk pe \<noteq> FILE_LOCAL)"

lemma keeps_uncached:
  "worldly m \<Longrightarrow> keeps (uncached dir a) m" "keeps (uncached dir a) (pentry_inc_refcount b)"
  by (erule keeps_worldly)
     (auto simp: keeps_def uncached_def pentry_inc_refcount_def upd_pe_def
       split: option.splits if_splits)

lemma keeps_readable:
  "(\<And>pe. pe_fd (f pe) = pe_fd pe) \<Longrightarrow> keeps (readable V object a) (upd_pe b f)"
  by (auto simp: keeps_def readable_def copied_def upd_pe_def split: option.splits)

lemma open_existing_copies:
  assumes "caches E local V" "hands_out E path stored M H V" "flags AND O_TRUNC = 0" "stores E local object stored M V"
    and "local = fmt (dir @ path)"
  shows "ends (uncached dir a) (open_existing E path a flags) (\<lambda>r s. r \<noteq> - 1 \<longrightarrow> readable V object a s)"
proof -
  have get: "ends (uncached dir a) (get_pe a) (\<lambda>pe s. pe_fd pe < 0 \<and> uncached dir a s)"
    by (auto simp: ends_def uncached_def get_pe_def)
  have tree: "ends (uncached dir a) (build_cache_tree E path) (\<lambda>_. uncached dir a)"
    using keeps_uncached(1) [OF worldly_build] unfolding keeps_iff_ends .
  have copy: "ends (uncached dir a) (dfs_get_local_copy E a path flags) (copied V object)"
    using local_copy_copied [OF assms, of a] by (auto simp: ends_def uncached_def away_def)
  have put: "ends (copied V object fd) (seqM (upd_pe a (\<lambda>pe. pe\<lparr>pe_fd := fd\<rparr>)) (\<lambda>_. ret (if fd = - 1 then - 1 else 0)))
      (\<lambda>r s. r \<noteq> - 1 \<longrightarrow> readable V object a s)" for fd
    by (auto simp: ends_def readable_def copied_def upd_pe_def seqM_apply split: option.splits)
  show ?thesis
    unfolding open_existing_def
    by (rule ends_seqM [OF get], rule ends_pre, simp only: if_True,
        rule ends_seqM [OF tree], rule ends_seqM [OF copy], rule put)
qed

lemma open_fn_copies:
  assumes "caches E local V" "hands_out E path stored M H V" "stores E local object stored M V" "local = fmt (dir @ path)"
    and "get_mode_from_flags flags = mode" "mode \<noteq> MODE_CREAT"
  shows "ends (uncached dir a) (open_fn E mode path a (open_flags mode)) (\<lambda>r s. r \<noteq> - 1 \<longrightarrow> readable V object a s)"
proof -
  have fl: "open_flags mode AND O_TRUNC = 0" using assms(6) by (cases mode) (simp_all add: open_flags_def)
  note ex = open_existing_copies [OF assms(1,2) fl assms(3,4), of a]
  have dirty: "ends (\<lambda>s. r \<noteq> - 1 \<longrightarrow> readable V object a s)
      (seqM (if r = 0 then upd_pe a (\<lambda>pe. pe\<lparr>pe_flag := FLAG_DIRTY\<rparr>) else ret ()) (\<lambda>_. ret r))
      (\<lambda>r s. r \<noteq> - 1 \<longrightarrow> readable V object a s)" for r
    by (auto simp: ends_def readable_def copied_def upd_pe_def seqM_apply split: option.splits)
  show ?thesis
    using assms(6) ex ends_seqM [OF ex dirty]
    by (cases mode) (simp_all add: open_fn_def open_rdonly_def open_rdwr_def open_wronly_def)
qed

lemma open_entry_copies:
  assumes "caches E local V" "hands_out E path stored M H V" "stores E local object stored M V" "local = fmt (dir @ path)"
    and "get_mode_from_flags flags \<noteq> MODE_CREAT"
  shows "ends (uncached dir a) (open_entry E path flags a) (\<lambda>(r, fh) s. fh = Some a \<and> (r \<noteq> - 1 \<longrightarrow> readable V object a s))"
proof -
  note op = open_fn_copies [OF assms(1-4) refl assms(5)]
  have inc: "ends (uncached dir a) (pentry_inc_refcount a) (\<lambda>_. uncached dir a)"
    using keeps_uncached(2) unfolding keeps_iff_ends .
  have known: "ends (\<lambda>s. r \<noteq> - 1 \<longrightarrow> readable V object a s)
      (if r = - 1 then ret (- 1, Some a) else seqM (upd_pe a (\<lambda>pe. pe\<lparr>pe_ondisk := FILE_LOCAL\<rparr>)) (\<lambda>_. ret (0, Some a)))
      (\<lambda>(r, fh) s. fh = Some a \<and> (r \<noteq> - 1 \<longrightarrow> readable V object a s))" for r
    by (auto simp: ends_def readable_def copied_def upd_pe_def seqM_apply split: option.splits)
  show ?thesis
    unfolding open_entry_def Let_def
    by (rule ends_seqM [OF inc], rule ends_seqM [OF op], rule known)
qed

text \<open>
  What is read after an open that succeeded is the object, however it is stored: as it is or
  compressed.
\<close>

lemma open_stored_then_read:
  assumes "caches E (fmt (dir @ path)) V" and "hands_out E path stored M H V" and "stores E (fmt (dir @ path)) object stored M V"
    and "ghash s path = Some a" and "uncached dir a s" and "get_mode_from_flags flags \<noteq> MODE_CREAT"
    and "dfs_open E path flags s = Inr ((0, fh), s1)"
    and "dfs_read E path n off fh s1 = Inr ((r, data), s2)" and "0 \<le> off" and "0 \<le> r"
  shows "data = take n (drop (nat off) object)"
proof -
  from assms(4,7) have "open_entry E path flags a s = Inr ((0, fh), s1)"
    by (simp add: dfs_open_def seqM_apply hash_lookup_def)
  from endsD [OF open_entry_copies [OF assms(1-3) refl assms(6)] assms(5) this]
  obtain pe where fh: "fh = Some a" and pe: "pes s1 a = Some pe" "pe_fd pe \<noteq> - 1" "copied V object (pe_fd pe) s1"
    by (auto simp: readable_def)
  obtain q w where o: "os_pread E (pe_fd pe) n off (world s1) = (q, w)" by fastforce
  with pe assms(9) have "case q of Inl e \<Rightarrow> 0 < e | Inr d \<Rightarrow> d = take n (drop (nat off) object)"
    using cachesD(5) [OF assms(1) _ assms(9) o] by (auto simp: copied_def split: sum.splits)
  with assms(8,10) fh pe o show ?thesis
    by (auto simp: dfs_read_def seqM_apply get_pe_def ext_def copied_def split: sum.splits)
qed

section \<open>Without a download\<close>

text \<open>A library that does not hand the object out.\<close>

definition refuses :: "('w, 'm) env_scheme \<Rightarrow> string \<Rightarrow> bool" where
  "refuses E remote \<longleftrightarrow> (\<forall>fl cb w. case d_openread E remote fl cb w of
     Inl f \<Rightarrow> True | Inr ((rc, got), w') \<Rightarrow> rc \<noteq> DPL_SUCCESS)"

lemma copy_end_refused: "ends P (copy_end m h (- 1)) (\<lambda>r s. r = - 1)"
  by (auto simp: ends_def dest: copy_end_run)

lemma fetch_refused:
  assumes "refuses E remote"
  shows "ends P (fetch E remote local flags h fd m) (\<lambda>r s. r = - 1)"
proof -
  have no: "ends Q (ext_prog (d_openread E remote fl cb)) (\<lambda>(rc, got) s. rc \<noteq> DPL_SUCCESS)" for Q fl cb
    using assms [unfolded refuses_def, rule_format, of fl cb]
    by (fastforce simp: ends_def ext_prog_def split: sum.splits)
  have late: "ends (\<lambda>s. rc \<noteq> DPL_SUCCESS) (case got of
        None \<Rightarrow> if rc \<noteq> DPL_SUCCESS then seqM (safe_close E fd) (\<lambda>_. copy_end (Some m) h (- 1))
          else fetch_end E remote local flags h fd m
      | Some d \<Rightarrow> seqM (own_dict d) (\<lambda>m. if rc \<noteq> DPL_SUCCESS then seqM (safe_close E fd) (\<lambda>_. copy_end (Some m) h (- 1))
          else fetch_end E remote local flags h fd m)) (\<lambda>r s. r = - 1)" for rc got
    by (cases "rc = DPL_SUCCESS")
       (simp add: ends_def, auto intro!: ends_any copy_end_refused split: option.split)
  show ?thesis
    unfolding fetch_def Let_def
    by (intro ends_any, rule ends_branch, intro ends_any copy_end_refused, rule ends_seqM [OF no])
       (simp only: split_paired_all prod.case, rule late)
qed

lemma local_copy_refused:
  assumes "refuses E remote"
  shows "ends (away a) (dfs_get_local_copy E a remote flags) (\<lambda>r s. r = - 1)"
proof -
  have cmp: "ends (away a) (compare_digests a h) (\<lambda>r s. r = - 1 \<and> True)" for h
    by (auto simp: ends_def away_def compare_digests_def get_pe_def seqM_apply)
  have rest: "ends (away a) (seqM (compare_digests a h) (\<lambda>r.
       if r = 0 then seqM (get_pe a) (\<lambda>pe. copy_end (Some m) h (pe_fd pe))
       else seqM (ext (os_access E local)) (\<lambda>err.
         seqM (if err = None then ext (os_unlink E local) else ret None) (\<lambda>_.
         seqM (ext (os_open E local (O_RDWR OR O_CREAT OR O_TRUNC) 0x1A4)) (\<lambda>r.
         case r of Inl _ \<Rightarrow> copy_end (Some m) h (- 1)
         | Inr fd \<Rightarrow> fetch E remote local flags h (int fd) m))))) (\<lambda>r s. r = - 1)" for h m local
    by (rule ends_at [OF cmp], simp, intro ends_any ends_branch copy_end_refused fetch_refused [OF assms])
  show ?thesis
    unfolding dfs_get_local_copy_def Let_def
    by (intro rest copy_end_refused ends_branch ends_through away_intro keeps_intro)
qed

text \<open>A file that has no descriptor and no local copy.\<close>

definition unread :: "addr \<Rightarrow> 'w gstate \<Rightarrow> bool" where
  "unread a s \<longleftrightarrow> (\<exists>pe. pes s a = Some pe \<and> pe_fd pe < 0 \<and> pe_ondisk pe \<noteq> FILE_LOCAL)"

lemma keeps_unread:
  "worldly m \<Longrightarrow> keeps (unread a) m" "keeps (unread a) (pentry_inc_refcount b)"
  by (erule keeps_worldly)
     (auto simp: keeps_def unread_def pentry_inc_refcount_def upd_pe_def split: option.splits if_splits)

lemma open_existing_refused:
  assumes "refuses E path"
  shows "ends (unread a) (open_existing E path a flags) (\<lambda>r s. r = - 1)"
proof -
  have get: "ends (unread a) (get_pe a) (\<lambda>pe s. pe_fd pe < 0 \<and> unread a s)"
    by (auto simp: ends_def unread_def get_pe_def)
  have copy: "ends (unread a) (dfs_get_local_copy E a path flags) (\<lambda>r s. r = - 1 \<and> True)"
    using local_copy_refused [OF assms, of a] by (auto simp: ends_def unread_def away_def)
  show ?thesis
    unfolding open_existing_def
    by (rule ends_seqM [OF get], rule ends_pre, simp only: if_True,
        rule ends_through [OF keeps_unread(1) [OF worldly_build]], rule ends_at [OF copy])
       (auto intro: ends_any ends_ret)
qed

lemma open_entry_refused:
  assumes "refuses E path" "get_mode_from_flags flags \<noteq> MODE_CREAT"
  shows "ends (unread a) (open_entry E path flags a) (\<lambda>(r, fh) s. r = - 1)"
proof -
  have ex: "ends (unread a) (open_existing E path a fl) (\<lambda>r s. r = - 1 \<and> True)" for fl
    using open_existing_refused [OF assms(1)] by simp
  have wr: "ends (unread a) (open_wronly E path a fl) (\<lambda>r s. r = - 1 \<and> True)" for fl
    unfolding open_wronly_def by (rule ends_at [OF ex]) (simp add: ends_def)
  have fn: "ends (unread a) (open_fn E (get_mode_from_flags flags) path a fl) (\<lambda>r s. r = - 1 \<and> True)" for fl
    using assms(2) ex [of fl] wr [of fl]
    by (cases "get_mode_from_flags flags") (simp_all add: open_fn_def open_rdonly_def open_rdwr_def)
  show ?thesis
    unfolding open_entry_def Let_def
    by (rule ends_through [OF keeps_unread(2)], rule ends_at [OF fn]) (simp add: ends_def)
qed

lemma open_refused:
  assumes "refuses E path" "get_mode_from_flags flags \<noteq> MODE_CREAT" "state_wf s"
    and "\<And>a. ghash s path = Some a \<Longrightarrow> unread a s"
    and "dfs_open E path flags s = Inr ((r, fh), s')"
  shows "r = - 1"
proof (cases "ghash s path")
  case (Some a)
  with assms(5) have "open_entry E path flags a s = Inr ((r, fh), s')"
    by (simp add: dfs_open_def seqM_apply hash_lookup_def)
  from endsD [OF open_entry_refused [OF assms(1,2)] assms(4) [OF Some] this] show ?thesis by simp
next
  case None
  with assms(5) obtain rc p s1 where p: "populate_hash E path FILE_REG s = Inr ((rc, p), s1)"
    and k: "(if rc = - 1 then open_err p else seqM (derefM NullDeref p) (open_entry E path flags)) s1
      = Inr ((r, fh), s')"
    by (auto simp: dfs_open_def hash_lookup_def elim!: seqM_Inr)
  show ?thesis
  proof (cases "rc = - 1")
    case False
    with populate_hash_run [OF assms(3) p] obtain known where
      "p = Some (fresh s)" "pes s1 (fresh s) = Some (entry_of path FILE_REG known)" by auto
    moreover from this have "unread (fresh s) s1" by (simp add: unread_def entry_of_def new_pentry_def)
    ultimately show ?thesis
      using k False endsD [OF open_entry_refused [OF assms(1,2)]] by fastforce
  next
    case True
    with k show ?thesis by (auto simp: open_err_def seqM_apply split: sum.splits)
  qed
qed

section \<open>Properties\<close>

text \<open>
  C3. What is read is what the object holds: when a known file that is not in the cache and
  whose object is not compressed is opened for reading or for appending, and the open succeeds,
  a read that succeeds returns the bytes of the object at its offset.
\<close>

theorem open_then_read:
  assumes "caches E (fmt (dir @ path)) V" and "serves E path object V"
    and "ghash s path = Some a" and "uncached dir a s" and "get_mode_from_flags flags \<noteq> MODE_CREAT"
    and "dfs_open E path flags s = Inr ((0, fh), s1)"
    and "dfs_read E path n off fh s1 = Inr ((r, data), s2)" and "0 \<le> off" and "0 \<le> r"
  shows "data = take n (drop (nat off) object)"
  using open_stored_then_read [OF assms(1) serves_hands_out [OF assms(2)] _ assms(3-9)]
  by (simp add: stores_def)

definition sim_down :: "sim env" where
  "sim_down = sim_env\<lparr>
     os_open := (\<lambda>p fl m w. (Inr 3, if fl AND O_TRUNC \<noteq> 0 then w\<lparr>sim_out := []\<rparr> else w)),
     os_pread := (\<lambda>fd n off w. (Inr (take n (drop (nat off) (sim_out w))), w)),
     os_stat := (\<lambda>p w. (Inr sim_stat, w)),
     d_openread := (\<lambda>p fl cb. seqM (cb ''remote'') (\<lambda>r. ret (if r = 0 then DPL_SUCCESS else DPL_FAILURE, None)))\<rparr>"

definition sim_copy_view :: "sim copy_view" where
  "sim_copy_view = \<lparr>v_copy = sim_out, v_on = (\<lambda>_ _. True), v_tail = (\<lambda>_ _. True), v_moved = (\<lambda>_. True)\<rparr>"

lemma sim_caches: "caches sim_down local sim_copy_view"
  by (auto simp: caches_def quiet_def appends_on_def sim_copy_view_def sim_down_def sim_defs min_def split: if_splits)

lemma sim_serves: "serves sim_down path ''remote'' sim_copy_view"
proof -
  have "\<exists>cs. concat cs = ''remote'' \<and> fed_by sim_copy_view cb cs w w'"
    if "cb ''remote'' w = Inr (0, w')" for cb :: "string \<Rightarrow> (sim, int) prog" and w w'
    using that by (intro exI [of _ "[''remote'']"]) (auto simp: quiet_def)
  then show ?thesis
    by (auto simp: serves_def sim_down_def sim_defs seqM_apply split: sum.splits if_splits)
qed

definition sim_cold :: "sim gstate" where
  "sim_cold = sim_state\<lparr>pes := [0 \<mapsto> sim_pe\<lparr>pe_fd := - 1\<rparr>]\<rparr>"

lemma sim_down_calls:
  "os_alloc sim_down w = (True, w)" "os_stat sim_down p w = (Inr sim_stat, w)"
  "os_open sim_down p fl m w = (Inr 3, if fl AND O_TRUNC \<noteq> 0 then w\<lparr>sim_out := []\<rparr> else w)"
  "os_access sim_down p w = (Some ENOENT, w)" "os_close sim_down fd w = (None, w)"
  "os_write sim_down fd buf w = (Inr (min 4 (length buf)), w\<lparr>sim_out := sim_out w @ take 4 buf\<rparr>)"
  "os_pread sim_down fd n off w = (Inr (take n (drop (nat off) (sim_out w))), w)"
  "d_status_code sim_down DPL_SUCCESS = 0"
  "d_namei sim_down p i w = (case sim_call w of (rc, w) \<Rightarrow> ((rc, Some DPL_FTYPE_REG, p), w))"
  "d_head_all sim_down p w = ((DPL_SUCCESS, sim_cloud w p), w)"
  "d_metadata_from_headers sim_down hs d w = ((DPL_SUCCESS, d), w)"
  "d_dict_copy sim_down d e w = ((DPL_SUCCESS, d ++ e), w)"
  "d_openread sim_down p fl cb = seqM (cb ''remote'') (\<lambda>r. ret (if r = 0 then DPL_SUCCESS else DPL_FAILURE, None))"
  by (simp_all add: sim_down_def sim_defs)

lemma sim_get: "cb_get_buffered sim_down fd ''remote'' w = Inr (0, w\<lparr>sim_out := sim_out w @ ''remote''\<rparr>)"
  unfolding cb_get_buffered_def write_all_def
  by (simp add: loopM_unfold [of "write_all_body sim_down fd" "''remote''"]
      loopM_unfold [of "write_all_body sim_down fd" "''te''"] write_all_body_def wext_def seqM_apply sim_down_calls)

lemma sim_cold_headers: "download_headers sim_down ''/a'' s = Inr ((0, None), s)"
  if "sim_fail (world s) = 0" "sim_cloud (world s) = Map.empty"
  using that noent_policy.no_retry_on_success [of "d_namei sim_down ''/a'' None" s "(Some DPL_FTYPE_REG, ''/a'')" "world s" sim_down]
    noent_policy.no_retry_on_success [of "d_head_all sim_down ''/a''" s "None" "world s" sim_down]
  by (simp add: download_headers_def timeout_defs seqM_apply sim_down_calls sim_call_def)

lemma sim_cold_tree: "c_cache_dir (gconf s) = Live d \<Longrightarrow> \<exists>l. build_cache_tree sim_down p s = Inr (l, s)"
  by (simp add: build_cache_tree_def Let_def seqM_apply sptr_show_def ext_apply sim_down_calls)

lemma sim_cold_close: "safe_close sim_down fd s = Inr (0, s)"
  by (simp add: safe_close_def loopM_unfold [of "safe_close_body sim_down fd"] safe_close_body_def
      seqM_apply ext_apply sim_down_calls)

lemma sim_cold_copy:
  assumes "s = sim_cold\<lparr>pes := [0 \<mapsto> sim_pe\<lparr>pe_fd := - 1, pe_refcount := 1\<rparr>]\<rparr>"
  shows "\<exists>s'. dfs_get_local_copy sim_down 0 ''/a'' 0 s = Inr (3, s') \<and>
     pes s' = [0 \<mapsto> sim_pe\<lparr>pe_fd := - 1, pe_refcount := 1, pe_usermd := Some 3\<rparr>]"
proof -
  have s: "gconf s = sim_conf" "pes s = [0 \<mapsto> sim_pe\<lparr>pe_fd := - 1, pe_refcount := 1\<rparr>]"
    "dicts s = [1 \<mapsto> [''mode'' \<mapsto> ''33188'']]" "fresh s = 2" "world s = sim_world"
    using assms by (simp_all add: sim_cold_def sim_state_def)
  have w: "sim_fail sim_world = 0" "sim_cloud sim_world = Map.empty" by (simp_all add: sim_world_def)
  show ?thesis
    by (simp add: dfs_get_local_copy_def seqM_apply s w sptr_show_def sim_conf_def Let_def ext_apply sim_down_calls
       sim_cold_headers dict_new_def dict_call_def own_dict_def get_dict_def set_dict_def pentry_md_lock_def pentry_gen_lock_def
       get_pe_def upd_pe_def sim_pe_def pentry_md_unlock_def pentry_gen_unlock_def pentry_set_usermd_def dict_free_opt_def dict_free_def
       check_permissions_def compare_digests_def fetch_def ext_prog_def sim_get fetch_end_def handle_plain uncompressed_def
       sim_cold_close copy_end_def)
qed

lemma sim_cold_open:
  "\<exists>s' pe. dfs_open sim_down ''/a'' 0 sim_cold = Inr ((0, Some 0), s') \<and> pes s' 0 = Some pe \<and> pe_fd pe = 3"
proof -
  have s: "gconf sim_cold = sim_conf" "ghash sim_cold = [''/a'' \<mapsto> 0]" "pes sim_cold = [0 \<mapsto> sim_pe\<lparr>pe_fd := - 1\<rparr>]"
    by (simp_all add: sim_cold_def sim_state_def)
  let ?s = "sim_cold\<lparr>pes := [0 \<mapsto> sim_pe\<lparr>pe_fd := - 1, pe_refcount := 1\<rparr>]\<rparr>"
  obtain l where l: "build_cache_tree sim_down ''/a'' ?s = Inr (l, ?s)"
    using sim_cold_tree [of ?s "''/tmp/b''"] by (auto simp: s sim_conf_def)
  obtain t where t: "dfs_get_local_copy sim_down 0 ''/a'' 0 ?s = Inr (3, t)"
    "pes t = [0 \<mapsto> sim_pe\<lparr>pe_fd := - 1, pe_refcount := 1, pe_usermd := Some 3\<rparr>]"
    using sim_cold_copy [OF refl] by blast
  have inc: "pentry_inc_refcount 0 sim_cold = Inr ((), ?s)"
    by (simp add: pentry_inc_refcount_def upd_pe_def s SEM_VALUE_MAX_def sim_pe_def)
  show ?thesis
    by (simp add: dfs_open_def hash_lookup_def open_entry_def inc upd_pe_def s l [unfolded One_nat_def] t [unfolded One_nat_def]
      get_mode_from_flags_def open_fn_def open_rdonly_def open_existing_def get_pe_def seqM_apply open_flags_def)
qed

lemma open_then_read_witness:
  "\<exists>s1 s2 r. dfs_open sim_down ''/a'' 0 sim_cold = Inr ((0, Some 0), s1) \<and>
     dfs_read sim_down ''/a'' 4 2 (Some 0) s1 = Inr ((r, ''mote''), s2)"
proof -
  obtain s1 pe where o: "dfs_open sim_down ''/a'' 0 sim_cold = Inr ((0, Some 0), s1)"
    and pe: "pes s1 0 = Some pe" "pe_fd pe = 3" using sim_cold_open by blast
  let ?d = "take 4 (drop 2 (sim_out (world s1)))"
  have r: "dfs_read sim_down ''/a'' 4 2 (Some 0) s1 = Inr ((int (length ?d), ?d), s1)"
    using pe to_int_small [of "length ?d"]
    by (simp add: dfs_read_def seqM_apply get_pe_def ext_apply sim_down_calls)
  have "uncached ''/tmp/b'' 0 sim_cold" "ghash sim_cold ''/a'' = Some 0" "get_mode_from_flags 0 \<noteq> MODE_CREAT"
    by (simp_all add: uncached_def sim_cold_def sim_state_def sim_conf_def sim_pe_def get_mode_from_flags_def)
  with open_then_read [OF sim_caches sim_serves _ _ _ o r] have "?d = ''mote''" by simp
  with o r show ?thesis by auto
qed

text \<open>
  The hypotheses for a compressed object can hold too: streams 7 and 8 are on the copy, file 3,
  and on the expanded file, and closing stream 8 completes the copy.
\<close>

definition sim_unpack :: "sim env" where
  "sim_unpack = sim_env\<lparr>
     os_fopen := (\<lambda>p m w. if m = ''r'' then (Inr 7, w\<lparr>sim_files := (sim_files w)(7 := sim_files w 3)\<rparr>)
       else (Inr 8, w\<lparr>sim_files := (sim_files w)(8 := [])\<rparr>)),
     os_fread := (\<lambda>fp n w. ((take n (sim_files w 7), False, length (sim_files w 7) < n),
       w\<lparr>sim_files := (sim_files w)(7 := drop n (sim_files w 7))\<rparr>)),
     os_fwrite := (\<lambda>fp buf w. (True, w\<lparr>sim_files := (sim_files w)(8 := sim_files w 8 @ buf)\<rparr>)),
     os_fclose := (\<lambda>fp w. if fp = 8 then w\<lparr>sim_files := (sim_files w)(3 := sim_files w 8)\<rparr> else w)\<rparr>"

definition sim_unpack_zview :: "sim zview" where
  "sim_unpack_zview = sim_unview\<lparr>v_in := (\<lambda>w. sim_files w 7), v_out := (\<lambda>w. sim_files w 8)\<rparr>"

definition sim_unpack_view :: "sim copy_view" where
  "sim_unpack_view = sim_copy_view\<lparr>v_copy := (\<lambda>w. sim_files w 3)\<rparr>"

lemmas sim_unpack_defs = sim_unpack_def sim_unpack_zview_def sim_unpack_view_def sim_copy_view_def
  sim_unview_def sim_zview_def sim_defs

lemma sim_unpack_z:
  "z_inflate sim_unpack strm = sim_inflate" "z_inflate sim_env strm = sim_inflate"
  "z_inflateInit sim_unpack w = ((0, 1), w\<lparr>sim_zin := []\<rparr>)" "z_inflateEnd sim_unpack strm w = w"
  "sim_files (snd (sim_inflate inp n w)) = sim_files w"
  "v_fed sim_unpack_zview = v_fed sim_unview" "v_put sim_unpack_zview = v_put sim_unview"
  "v_in sim_unpack_zview = (\<lambda>w. sim_files w 7)" "v_out sim_unpack_zview = (\<lambda>w. sim_files w 8)"
  by (simp_all add: sim_unpack_def sim_unpack_zview_def sim_defs sim_inflate_def Let_def)

lemma sim_unpack_inflates: "inflates sim_unpack sim_codec d sim_unpack_zview"
  unfolding inflates_def
proof (intro conjI allI impI)
  show "sim_codec d \<noteq> []" by (rule inflatesD(1) [OF sim_inflates])
  fix strm w w'
  assume "z_inflateInit sim_unpack w = ((Z_OK, strm), w')"
  then have w': "w' = w\<lparr>sim_zin := []\<rparr>" by (simp add: sim_unpack_z)
  show "same_files sim_unpack_zview w w'" by (simp add: same_files_def sim_unpack_z w')
  have "v_fed sim_unview w' = [] \<and> v_put sim_unview w' = []"
    using inflatesD(2) [OF sim_inflates, of w 1 w'] w' by (simp add: sim_defs z_codes)
  then show "v_fed sim_unpack_zview w' = []" "v_put sim_unpack_zview w' = []" by (simp_all add: sim_unpack_z)
next
  fix strm inp coming w rc out left w'
  assume a: "v_fed sim_unpack_zview w @ inp @ coming = sim_codec d"
    "v_put sim_unpack_zview w = take (length (v_put sim_unpack_zview w)) d"
    and z: "z_inflate sim_unpack strm inp CHUNK w = ((rc, out, left), w')"
  have "sim_files w' = sim_files w" using z sim_unpack_z(5) [of inp CHUNK w] by (simp add: sim_unpack_z(1))
  with inflatesD(3) [OF sim_inflates a [unfolded sim_unpack_z(6,7)], of strm rc out left w'] z
  show "inflate_step sim_codec d sim_unpack_zview inp coming w rc out left w'"
    by (simp add: inflate_step_def same_files_def sim_unpack_z(1,2,6-9))
qed (simp add: same_files_def sim_unpack_z)

lemma sim_stores_compressed: "stores sim_unpack local f (sim_codec f) compressed sim_unpack_view"
proof -
  have "files sim_unpack 7 8 sim_unpack_zview"
    by (auto simp: files_def same_stream_def sim_unpack_defs)
  moreover have "unpacks sim_unpack local 7 8 sim_unpack_view sim_unpack_zview"
    by (auto simp: unpacks_def sim_unpack_defs)
  ultimately show ?thesis unfolding stores_def using sim_unpack_inflates by blast
qed

end
