(* ===== verification/Entries.thy ===== *)
theory Entries
  imports Dropletfs Races Download
begin

text \<open>
  What holds of every entry of a mounted file system.  \<open>each P\<close> says that all entries have the
  property \<open>P\<close>; the locale \<open>entry_law\<close> is what the operations ask of such a law, and proves that
  all of them, the rounds of the threads and the jobs keep it.  \<open>entry_ok\<close> is the law of the
  entries: the range of their counters and descriptors, that the lock the collector takes is not
  held between two operations, and that nobody has ever stored a digest.  From it follows that a
  file without a descriptor cannot be opened without a download.
\<close>

section \<open>All entries\<close>

definition each :: "(tpath_entry \<Rightarrow> bool) \<Rightarrow> 'w gstate \<Rightarrow> bool" where
  "each P s \<longleftrightarrow> (\<forall>a pe. pes s a = Some pe \<longrightarrow> P pe)"

lemma eachD: "each P s \<Longrightarrow> pes s a = Some pe \<Longrightarrow> P pe"
  by (auto simp: each_def)

lemma each_update [simp]:
  "each P (s\<lparr>world := w\<rparr>) = each P s" "each P (s\<lparr>ghash := h\<rparr>) = each P s"
  "each P (s\<lparr>dicts := d\<rparr>) = each P s" "each P (s\<lparr>fresh := n\<rparr>) = each P s"
  "each P (s\<lparr>gconf := c\<rparr>) = each P s"
  by (simp_all add: each_def)

lemma each_put:
  "each P s \<Longrightarrow> P pe \<Longrightarrow> each P (s\<lparr>pes := (pes s)(a \<mapsto> pe)\<rparr>)"
  "each P s \<Longrightarrow> P pe \<Longrightarrow> each P (s\<lparr>world := w, pes := (pes s)(a \<mapsto> pe)\<rparr>)"
  by (simp_all add: each_def)

lemma each_delete: "each P s \<Longrightarrow> each P (s\<lparr>pes := (pes s)(a := None)\<rparr>)"
  by (simp add: each_def)

named_theorems each_intro "rules that show that a program keeps a law of the entries"

lemma keeps_each_worldly: "worldly m \<Longrightarrow> keeps (each P) m"
  by (rule keeps_worldly) simp_all

lemmas keeps_each_calls [each_intro] =
  worldly_basic [THEN keeps_each_worldly] worldly_sptr [THEN keeps_each_worldly]
  worldly_strdup [THEN keeps_each_worldly]
  worldly_safe_close [THEN keeps_each_worldly] worldly_retry [THEN keeps_each_worldly]
  worldly_hash [THEN keeps_each_worldly] worldly_zip [THEN keeps_each_worldly]
  worldly_timeouts [THEN keeps_each_worldly] worldly_file [THEN keeps_each_worldly]
  worldly_mkdir [THEN keeps_each_worldly] worldly_build [THEN keeps_each_worldly]
  worldly_matcher [THEN keeps_each_worldly] worldly_readdir [THEN keeps_each_worldly]
  worldly_io [THEN keeps_each_worldly] worldly_cachedir_round [THEN keeps_each_worldly]

lemma keeps_each_upd_pe:
  "(\<And>pe. P pe \<Longrightarrow> P (f pe)) \<Longrightarrow> keeps (each P) (upd_pe a f)"
  by (auto simp: keeps_def upd_pe_def intro: each_put dest: eachD split: option.splits)

lemma keeps_each_dicts [each_intro]:
  "keeps (each P) (set_dict d x)" "keeps (each P) (own_dict x)" "keeps (each P) (dict_free d)"
  by (auto simp: keeps_def set_dict_def own_dict_def dict_free_def split: option.splits)

lemma keeps_each_dict_ops [each_intro]:
  "keeps (each P) (dict_new E)" "keeps (each P) (dict_free_opt p)" "keeps (each P) (dict_call f d)"
  unfolding dict_ops by (intro keeps_intro each_intro)+

lemma keeps_each_free [each_intro]: "keeps (each P) (pentry_free E a)"
  unfolding pentry_free_def
  by (intro keeps_intro each_intro keeps_modS) (simp add: each_delete)

lemma keeps_each_table [each_intro]:
  "keeps (each P) (hash_insert E key a)" "keeps (each P) (hash_remove E key)"
  unfolding hash_insert_def hash_remove_def
  by (intro keeps_intro each_intro keeps_modS; simp)+

text \<open>An entry that has a descriptor, if the result is not -1.\<close>

definition has_fd :: "int \<Rightarrow> addr \<Rightarrow> 'w gstate \<Rightarrow> bool" where
  "has_fd r a s \<longleftrightarrow> r = - 1 \<or> (\<exists>pe. pes s a = Some pe \<and> 0 \<le> pe_fd pe)"

text \<open>
  What the operations need of a law of the entries to keep it: it holds of a new entry and does
  not depend on most of the fields; descriptors start at -1 and nothing knows a digest.
\<close>

locale entry_law =
  fixes ok :: "tpath_entry \<Rightarrow> bool"
  assumes new: "ok new_pentry"
    and put: "ok pe \<Longrightarrow> ok (pe\<lparr>pe_path := p\<rparr>)" "ok pe \<Longrightarrow> ok (pe\<lparr>pe_usermd := u\<rparr>)"
      "ok pe \<Longrightarrow> ok (pe\<lparr>pe_md_mutex := b\<rparr>)" "ok pe \<Longrightarrow> ok (pe\<lparr>pe_flag := f\<rparr>)"
      "ok pe \<Longrightarrow> ok (pe\<lparr>pe_exclude := b\<rparr>)" "ok pe \<Longrightarrow> ok (pe\<lparr>pe_filetype := t\<rparr>)"
      "ok pe \<Longrightarrow> ok (pe\<lparr>pe_dirent := ns\<rparr>)" "ok pe \<Longrightarrow> ok (pe\<lparr>pe_ondisk := FILE_REMOTE\<rparr>)"
      "ok pe \<Longrightarrow> ok (pe\<lparr>pe_atime := now\<rparr>)" "ok pe \<Longrightarrow> ok (pe\<lparr>pe_mutex := False\<rparr>)"
    and count: "ok pe \<Longrightarrow> pe_refcount pe < SEM_VALUE_MAX \<Longrightarrow> ok (pe\<lparr>pe_refcount := Suc (pe_refcount pe)\<rparr>)"
      "ok pe \<Longrightarrow> ok (pe\<lparr>pe_refcount := pe_refcount pe - Suc 0\<rparr>)"
    and unopened: "ok pe \<Longrightarrow> - 1 \<le> fd \<Longrightarrow> pe_ondisk pe \<noteq> FILE_LOCAL \<Longrightarrow> ok (pe\<lparr>pe_fd := fd\<rparr>)"
    and opened: "ok pe \<Longrightarrow> 0 \<le> fd \<Longrightarrow> ok (pe\<lparr>pe_fd := fd\<rparr>)"
    and local: "ok pe \<Longrightarrow> 0 \<le> pe_fd pe \<Longrightarrow> ok (pe\<lparr>pe_ondisk := FILE_LOCAL\<rparr>)"
      "ok pe \<Longrightarrow> pe_ondisk pe = FILE_LOCAL \<Longrightarrow> 0 \<le> pe_fd pe"
    and fd_range: "ok pe \<Longrightarrow> - 1 \<le> pe_fd pe"
    and no_digest: "ok pe \<Longrightarrow> pe_digest pe = None"
begin

lemma keeps_counts [each_intro]:
  "keeps (each ok) (pentry_inc_refcount a)" "keeps (each ok) (pentry_dec_refcount a)"
  unfolding pentry_inc_refcount_def pentry_dec_refcount_def
  by (intro keeps_intro each_intro keeps_each_upd_pe; simp add: count)+

lemma keeps_locks [each_intro]:
  "keeps (each ok) (pentry_md_trylock a)" "keeps (each ok) (pentry_md_lock a)"
  "keeps (each ok) (pentry_md_unlock a)" "keeps (each ok) (pentry_unlock a)"
  unfolding pentry_md_trylock_def pentry_md_lock_def pentry_md_unlock_def pentry_unlock_def
    pentry_gen_trylock_def pentry_gen_lock_def pentry_gen_unlock_def
  by (intro keeps_intro each_intro keeps_each_upd_pe; simp add: put)+

lemma keeps_fields [each_intro]:
  "keeps (each ok) (pentry_remove_dirent a p)" "keeps (each ok) (pentry_add_dirent E a q)"
  "keeps (each ok) (pentry_set_path E a p)" "keeps (each ok) (pentry_set_usermd E a d)"
  unfolding pentry_remove_dirent_def pentry_add_dirent_def pentry_set_path_def pentry_set_usermd_def
  by (intro keeps_intro each_intro keeps_each_upd_pe; simp add: put)+

lemma keeps_new [each_intro]: "keeps (each ok) (pentry_new E)"
  unfolding pentry_new_def
  by (intro keeps_intro each_intro keeps_modS) (simp add: each_def new)

lemma keeps_populate [each_intro]: "keeps (each ok) (populate_hash E path type)"
proof (rule keepsI)
  fix s :: "'a gstate" and r s'
  assume e: "each ok s" and "populate_hash E path type s = Inr (r, s')"
  then obtain new s1 where n: "pentry_new E s = Inr (new, s1)"
    and k: "(case new of None \<Rightarrow> ret (- 1, None)
     | Some a \<Rightarrow> seqM (upd_pe a (\<lambda>pe. pe\<lparr>pe_fd := - 1, pe_filetype := Some type\<rparr>)) (\<lambda>_.
         seqM (pentry_set_path E a (Some path)) (\<lambda>_. seqM (ext (os_alloc E)) (\<lambda>ok.
         if \<not> ok then seqM (pentry_free E a) (\<lambda>_. ret (- 1, Some a))
         else seqM (hash_insert E path a) (\<lambda>_. ret (0, Some a)))))) s1 = Inr (r, s')"
    by (auto simp: populate_hash_def elim: seqM_Inr)
  have e1: "each ok s1" using keepsD [OF keeps_new e n] .
  show "each ok s'"
  proof (cases new)
    case None
    with k e1 show ?thesis by simp
  next
    case (Some a)
    with n have a: "pes s1 a = Some new_pentry" by (cases rule: pentry_new_run) auto
    let ?pe = "new_pentry\<lparr>pe_fd := - 1, pe_filetype := Some type\<rparr>"
    have "ok ?pe" using put(6) [OF new, of "Some type"] by (simp add: new_pentry_def)
    with e1 have "each ok (s1\<lparr>pes := (pes s1)(a \<mapsto> ?pe)\<rparr>)" by (rule each_put(1))
    moreover have "keeps (each ok) (seqM (pentry_set_path E a (Some path)) (\<lambda>_. seqM (ext (os_alloc E)) (\<lambda>ok.
         if \<not> ok then seqM (pentry_free E a) (\<lambda>_. ret (- 1, Some a))
         else seqM (hash_insert E path a) (\<lambda>_. ret (0, Some a)))))"
      by (intro keeps_intro each_intro)
    ultimately show ?thesis
      using k Some a by (auto simp: seqM_apply [of "upd_pe a f" for f] upd_pe_def dest: keepsD)
  qed
qed

lemma keeps_digests [each_intro]: "keeps (each ok) (compare_digests a h)"
proof (rule keepsI)
  fix s :: "'a gstate" and r s'
  assume e: "each ok s" and r: "compare_digests a h s = Inr (r, s')"
  then obtain pe where "pes s a = Some pe"
    by (auto simp: compare_digests_def seqM_apply get_pe_def split: option.splits)
  moreover from eachD [OF e this] have "pe_digest pe = None" by (rule no_digest)
  ultimately have "s' = s"
    using r by (auto simp: compare_digests_def seqM_apply get_pe_def get_dict_def derefM_def
        split: option.splits if_splits)
  with e show "each ok s'" by simp
qed

text \<open>A program that returns a descriptor.\<close>

definition gives_fd :: "('w, int) dprog \<Rightarrow> bool" where
  "gives_fd m \<longleftrightarrow> ends (each ok) m (\<lambda>r s. each ok s \<and> - 1 \<le> r)"

lemma gives_fd_seqM: "keeps (each ok) m \<Longrightarrow> (\<And>a. gives_fd (k a)) \<Longrightarrow> gives_fd (seqM m k)"
  unfolding gives_fd_def keeps_iff_ends by (rule ends_seqM)

lemma gives_fd_branch:
  "(b \<Longrightarrow> gives_fd m) \<Longrightarrow> (\<not> b \<Longrightarrow> gives_fd n) \<Longrightarrow> gives_fd (if b then m else n)"
  "(x = None \<Longrightarrow> gives_fd m) \<Longrightarrow> (\<And>a. x = Some a \<Longrightarrow> gives_fd (f a)) \<Longrightarrow>
   gives_fd (case x of None \<Rightarrow> m | Some a \<Rightarrow> f a)"
  "(\<And>e. y = Inl e \<Longrightarrow> gives_fd (l e)) \<Longrightarrow> (\<And>a. y = Inr a \<Longrightarrow> gives_fd (g a)) \<Longrightarrow>
   gives_fd (case y of Inl e \<Rightarrow> l e | Inr a \<Rightarrow> g a)"
  "(\<And>a b. z = (a, b) \<Longrightarrow> gives_fd (q a b)) \<Longrightarrow> gives_fd (case z of (a, b) \<Rightarrow> q a b)"
  unfolding gives_fd_def by (intro ends_intro; simp)+

lemma gives_fd_end: "- 1 \<le> fd \<Longrightarrow> gives_fd (copy_end m h fd)"
  unfolding copy_end_def
  by (intro gives_fd_seqM each_intro) (simp add: gives_fd_def ends_def)

lemma gives_fd_known: "gives_fd (seqM (get_pe a) (\<lambda>pe. copy_end m h (pe_fd pe)))"
  unfolding gives_fd_def
proof (rule endsI)
  fix s :: "'a gstate" and r s'
  assume e: "each ok s" and "seqM (get_pe a) (\<lambda>pe. copy_end m h (pe_fd pe)) s = Inr (r, s')"
  then obtain pe where "pes s a = Some pe" "copy_end m h (pe_fd pe) s = Inr (r, s')"
    by (auto simp: seqM_apply get_pe_def split: option.splits)
  with gives_fd_end [OF fd_range [OF eachD [OF e]], of a pe m h] e
  show "each ok s' \<and> - 1 \<le> r" by (auto simp: gives_fd_def ends_def)
qed

lemma keeps_headers [each_intro]:
  "keeps (each ok) (download_headers E remote)" "keeps (each ok) (handle_compression E remote local fd md)"
  unfolding download_headers_def handle_compression_def uncompress_local_def Let_def
  by (intro keeps_intro each_intro)+

lemma gives_fd_fetch_end: "gives_fd (fetch_end E remote local flags h fd m)"
  unfolding fetch_end_def
  by (intro gives_fd_end gives_fd_branch gives_fd_seqM each_intro) simp_all

lemma gives_fd_fetch: "gives_fd (fetch E remote local flags h fd m)"
  unfolding fetch_def Let_def
  by (intro gives_fd_fetch_end gives_fd_end gives_fd_branch gives_fd_seqM keeps_intro each_intro) simp_all

lemma gives_fd_copy: "gives_fd (dfs_get_local_copy E a remote flags)"
  unfolding dfs_get_local_copy_def Let_def
  by (intro gives_fd_known gives_fd_fetch gives_fd_end gives_fd_branch gives_fd_seqM keeps_intro each_intro) simp_all

text \<open>An entry that gets its descriptor has no local copy yet, and has one once it is open.\<close>

lemma keeps_open_existing: "keeps (each ok) (open_existing E path a flags)"
  and open_existing_fd: "ends (each ok) (open_existing E path a flags) (\<lambda>r. has_fd r a)"
proof -
  have "ends (each ok) (open_existing E path a flags) (\<lambda>r s. each ok s \<and> has_fd r a s)"
  proof (rule endsI)
    fix s :: "'a gstate" and r s'
    assume e: "each ok s" and run: "open_existing E path a flags s = Inr (r, s')"
    then obtain pe where pe: "pes s a = Some pe"
      by (auto simp: open_existing_def seqM_apply get_pe_def split: option.splits)
    show "each ok s' \<and> has_fd r a s'"
    proof (cases "pe_fd pe < 0")
      case False
      with run pe e show ?thesis by (simp add: open_existing_def seqM_apply get_pe_def has_fd_def)
    next
      case True
      with local(2) [OF eachD [OF e pe]] pe have "away a s" by (auto simp: away_def)
      from run True pe obtain l s1 fd s2 where b: "build_cache_tree E path s = Inr (l, s1)"
        and c: "dfs_get_local_copy E a path flags s1 = Inr (fd, s2)"
        and u: "upd_pe a (\<lambda>pe. pe\<lparr>pe_fd := fd\<rparr>) s2 = Inr ((), s')" "r = (if fd = - 1 then - 1 else 0)"
        by (auto simp: open_existing_def get_pe_def seqM_apply [of "get_pe a"] elim!: seqM_Inr)
      have e1: "each ok s1"
        by (rule keepsD [of "each ok" "build_cache_tree E path", OF _ e b]) (intro each_intro)
      have "away a s1"
        by (rule keepsD [of "away a" "build_cache_tree E path", OF _ \<open>away a s\<close> b]) (intro away_intro)
      from keepsD [OF keeps_away_copy this c] have aw: "away a s2" .
      from endsD [OF gives_fd_copy [unfolded gives_fd_def] e1 c] have e2: "each ok s2" "- 1 \<le> fd" by auto
      from aw obtain pe' where pe': "pes s2 a = Some pe'" "pe_ondisk pe' \<noteq> FILE_LOCAL" by (auto simp: away_def)
      from unopened [OF eachD [OF e2(1) pe'(1)] e2(2) pe'(2)] e2 pe' u show ?thesis
        by (auto simp: seqM_apply upd_pe_def has_fd_def intro: each_put split: if_splits)
    qed
  qed
  then show "keeps (each ok) (open_existing E path a flags)"
    and "ends (each ok) (open_existing E path a flags) (\<lambda>r. has_fd r a)"
    by (auto simp: ends_def keeps_def)
qed

lemma open_fn_fd:
  "ends (each ok) (open_fn E smode path a flags) (\<lambda>r s. each ok s \<and> has_fd r a s)"
proof -
  have ex: "ends (each ok) (open_existing E path a flags) (\<lambda>r s. each ok s \<and> has_fd r a s)"
    using keeps_open_existing [of E path a flags] open_existing_fd [of E path a flags]
    by (auto simp: ends_def keeps_def)
  have creat: "ends (each ok) (open_creat E path a flags) (\<lambda>r s. each ok s \<and> has_fd r a s)"
  proof (rule endsI)
    fix s :: "'a gstate" and r s'
    assume e: "each ok s" and "open_creat E path a flags s = Inr (r, s')"
    then obtain l s1 where b: "build_cache_tree E path s = Inr (l, s1)"
      and k: "(case l of None \<Rightarrow> ret (- 1) | Some l \<Rightarrow> seqM (ext (os_open E l flags 0x1A4)) (\<lambda>r.
         case r of Inl _ \<Rightarrow> ret (- 1) | Inr fd \<Rightarrow>
           seqM (upd_pe a (\<lambda>pe. pe\<lparr>pe_fd := int fd, pe_flag := FLAG_DIRTY\<rparr>)) (\<lambda>_. ret 0))) s1 = Inr (r, s')"
      by (auto simp: open_creat_def elim: seqM_Inr)
    have e1: "each ok s1"
      by (rule keepsD [of "each ok" "build_cache_tree E path", OF _ e b]) (intro each_intro)
    have "ok (pe\<lparr>pe_fd := int fd, pe_flag := FLAG_DIRTY\<rparr>)" if "ok pe" for pe fd
      using put(4) [OF opened [OF that, of "int fd"]] by simp
    with k e1 show "each ok s' \<and> has_fd r a s'"
      by (auto simp: seqM_apply ext_apply upd_pe_def has_fd_def intro!: each_put dest: eachD
          split: option.splits sum.splits prod.splits)
  qed
  have wr: "ends (each ok) (open_wronly E path a flags) (\<lambda>r s. each ok s \<and> has_fd r a s)"
    unfolding open_wronly_def
    by (rule ends_seqM [OF ex]) (auto simp: ends_def seqM_apply upd_pe_def has_fd_def put
        intro!: each_put dest: eachD split: option.splits if_splits)
  from ex creat wr show ?thesis
    by (cases smode) (simp_all add: open_fn_def open_rdonly_def open_rdwr_def)
qed

lemma keeps_open_entry [each_intro]: "keeps (each ok) (open_entry E path flags a)"
proof -
  have entry: "keeps (each ok) (seqM (open_fn E smode path a fl) (\<lambda>r. if r = - 1 then ret (- 1, Some a)
       else seqM (upd_pe a (\<lambda>pe. pe\<lparr>pe_ondisk := FILE_LOCAL\<rparr>)) (\<lambda>_. ret (0, Some a))))" for smode fl
    unfolding keeps_iff_ends
    by (rule ends_seqM [OF open_fn_fd]) (auto simp: ends_def seqM_apply upd_pe_def has_fd_def
        intro!: each_put local(1) dest: eachD split: option.splits if_splits)
  show ?thesis
    unfolding open_entry_def Let_def by (rule keeps_seqM [OF keeps_counts(1) entry])
qed

lemma keeps_open [each_intro]: "keeps (each ok) (dfs_open E path flags)"
  unfolding dfs_open_def open_err_def by (intro keeps_intro each_intro)

lemma keeps_assign [each_intro]:
  "keeps (each ok) (assign_meta_to_dict E d k v)" "keeps (each ok) (fill_metadata_from_stat E d st)"
  unfolding fill_metadata_from_stat_def assign_meta_to_dict_def by (intro keeps_intro each_intro)+

lemma keeps_create [each_intro]: "keeps (each ok) (dfs_create E path mode flags fh)"
  unfolding dfs_create_def create_opened_def create_md_def create_end_def
  by (intro keeps_intro each_intro keeps_each_upd_pe; simp add: put)

lemma keeps_getattr [each_intro]: "keeps (each ok) (dfs_getattr E path)"
  unfolding dfs_getattr_def getattr_miss_def getattr_dispatch_def getattr_enter_def getattr_unset_def
    getattr_found_def getattr_local_def getattr_remote_def getattr_end_def unset_entry_def
    unset_attributes_def set_default_stat_def set_filetype_from_stat_def hash_fill_dirent_def Let_def
  by (intro keeps_intro each_intro keeps_each_upd_pe; simp add: put)

lemma keeps_release_err [each_intro]:
  "keeps (each ok) (release_err E fh v r)" "keeps (each ok) (release_exc a r)"
  unfolding release_err_def release_exc_def
  by (intro keeps_intro each_intro keeps_each_upd_pe; simp add: put)+

lemma keeps_release [each_intro]: "keeps (each ok) (dfs_release E path fh flags)"
  unfolding dfs_release_def release_upload_def release_compress_def release_send_def
    compress_before_sending_def Let_def
  by (intro keeps_intro each_intro)

lemma keeps_names [each_intro]:
  "keeps (each ok) (dfs_mkdir E path)" "keeps (each ok) (dfs_mknod E path)"
  "keeps (each ok) (dfs_opendir E path)" "keeps (each ok) (dfs_rmdir E path)"
  "keeps (each ok) (dfs_unlink E path)" "keeps (each ok) (live_string age made)"
  unfolding dfs_mkdir_def dfs_mknod_def dfs_opendir_def dfs_rmdir_def dfs_unlink_def live_string_def Let_def
  by (intro keeps_intro each_intro keeps_each_upd_pe; simp add: put)+

lemma keeps_rename_file [each_intro]: "keeps (each ok) (rename_file E p q)"
  unfolding rename_file_def by (intro keeps_intro each_intro)

lemma keeps_rename_directory [each_intro]: "keeps (each ok) (rename_directory E fuel age p q)"
proof (induction fuel arbitrary: age p q)
  case (Suc fuel)
  show ?case unfolding rename_directory.simps Let_def by (intro keeps_intro each_intro Suc)
qed (simp add: keeps_def)

lemma keeps_rename [each_intro]: "keeps (each ok) (dfs_rename E fuel p q)"
  unfolding dfs_rename_def Let_def by (intro keeps_intro each_intro)

lemma keeps_request: "keeps (each ok) (dfs_ops E fill depth r)"
proof -
  have more: "keeps (each ok) (dfs_chmod E path mode)" "keeps (each ok) (dfs_chown E path uid gid)"
    "keeps (each ok) (dfs_symlink E path path')" "keeps (each ok) (dfs_readlink E path buf n)"
    "keeps (each ok) (dfs_setxattr path name val n flag)" "keeps (each ok) (dfs_statfs path st)"
    for E :: "('w, 'm) env_scheme" and path mode uid gid path' buf n name val flag st
    unfolding dfs_chmod_def dfs_chown_def push_attributes_def dfs_symlink_def symlink_end_def
      dfs_readlink_def dfs_setxattr_def dfs_statfs_def Let_def
    by (intro keeps_intro each_intro)+
  show ?thesis
    by (cases r; simp only: dfs_ops.simps status_def stub_defs; intro keeps_intro each_intro more)
qed

text \<open>The garbage collector holds the lock of an entry until it removes the entry.\<close>

lemma gc_callback_each:
  assumes "each ok s" "ghash s path = Some a" "gc_callback E path a s = Inr (u, s')"
  shows "each ok s'"
proof -
  from assms(3) obtain pe where pe: "pes s a = Some pe"
    by (auto simp: gc_callback_steps seqM_apply pentry_get_refcount_def get_pe_def split: option.splits)
  obtain keep w where v: "gc_verdict E (gconf s) pe (world s) = (keep, w)" by fastforce
  show ?thesis
  proof (cases keep)
    case True
    with assms(1,3) v show ?thesis by (auto simp: gc_callback_run [OF pe])
  next
    case False
    let ?t = "s\<lparr>pes := (pes s)(a \<mapsto> pe\<lparr>pe_mutex := True\<rparr>), world := w\<rparr>"
    from assms(3) v False have "gc_remove E path ?t = Inr (u, s')" by (simp add: gc_callback_run [OF pe])
    then obtain v where "pentry_free E a (?t\<lparr>world := v, ghash := (ghash s)(path := None)\<rparr>) = Inr ((), s')"
      using assms(2) by (cases "c_cache_dir (gconf s)")
        (auto simp: gc_remove_def seqM_apply ext_apply sptr_show_def hash_remove_def split: sum.splits prod.splits)
    then have "pes s' = (pes s)(a := None)" by (rule pentry_free_run) simp
    with assms(1) show ?thesis by (auto simp: each_def)
  qed
qed

lemma keeps_gc [each_intro]: "keeps (each ok) (gc_round E)"
proof -
  have "keeps (each ok) (gc_foreach E ps)" for E :: "('w, 'm) env_scheme" and ps
  proof (rule keepsI)
    show "each ok s \<Longrightarrow> gc_foreach E ps s = Inr (u, s') \<Longrightarrow> each ok s'" for s u s'
      by (induction ps arbitrary: s)
         (auto simp: seqM_apply hash_lookup_def split: option.splits sum.splits dest: gc_callback_each)
  qed
  then show ?thesis unfolding gc_round_def gc_pass_def by (intro keeps_intro each_intro)
qed

lemma keeps_event: "keeps (each ok) (event_step E fill depth e)"
proof -
  have jobs: "keeps (each ok) (cb_get_md E ring j)" for E :: "('w, 'm) penv_scheme" and ring j
    unfolding cb_get_md_def by (cases j; simp only: job.case; intro keeps_intro each_intro)
  have start: "keeps (each ok) (thread_cachedir_start E ring)" for E :: "('w, 'm) penv_scheme" and ring
    unfolding thread_cachedir_start_def root_dir_preload_def preload_entry_def getattr_enter_def
    by (intro keeps_intro each_intro keeps_each_upd_pe worldly_cachedir [THEN keeps_each_worldly];
        simp add: put)
  show ?thesis
    by (cases e; simp only: event_step.simps; intro keeps_intro keeps_request jobs start each_intro)
qed

lemma mounted_each: "mounted E fill depth s \<Longrightarrow> each ok s"
proof (induction rule: mounted.induct)
  case (start s)
  then show ?case by (simp add: empty_table_def each_def)
next
  case (event s e u s')
  from keepsD [OF keeps_event this(3,2)] show ?case .
qed

end

section \<open>The law of the entries\<close>

definition entry_ok :: "tpath_entry \<Rightarrow> bool" where
  "entry_ok pe \<longleftrightarrow> pe_refcount pe \<le> SEM_VALUE_MAX \<and> - 1 \<le> pe_fd pe \<and> pe_digest pe = None \<and> \<not> pe_mutex pe \<and>
     (pe_ondisk pe = FILE_LOCAL \<longrightarrow> 0 \<le> pe_fd pe)"

interpretation entries: entry_law entry_ok
  by unfold_locales (auto simp: entry_ok_def new_pentry_def SEM_VALUE_MAX_def)

text \<open>
  C5. Every entry of a mounted file system is of its type: whatever requests, rounds and jobs led
  to the state, the entry of a path is allocated, its references fit a semaphore, its descriptor
  is -1 or not negative, and not negative if the entry says that there is a local copy; no digest
  was ever stored in it, and its lock \<open>mutex\<close> is free. (Of the lock \<open>md_mutex\<close> this does not hold:
  an operation can leave it taken.)
\<close>

theorem mounted_entries_ok:
  assumes "mounted E fill depth s" and "ghash s path = Some a"
  shows "\<exists>pe. pes s a = Some pe \<and> pe_refcount pe \<le> SEM_VALUE_MAX \<and> - 1 \<le> pe_fd pe \<and>
     (pe_ondisk pe = FILE_LOCAL \<longrightarrow> 0 \<le> pe_fd pe) \<and> pe_digest pe = None \<and> \<not> pe_mutex pe"
proof -
  from mounted_wf [OF assms(1)] assms(2) obtain pe where pe: "pes s a = Some pe"
    unfolding state_wf_def hash_wf_def by (metis domD ranI)
  with eachD [OF entries.mounted_each [OF assms(1)] pe] show ?thesis by (simp add: entry_ok_def)
qed

text \<open>
  C35. Without a download there is no open, however good the copy in the cache is: the digests that
  should save it are never compared. In every state of a mounted file system, when a file whose
  entry has no descriptor, or that has no entry yet, is opened for reading or for appending and the
  library does not hand the object out, \<open>dfs_open\<close> fails, whatever the headers of the object and
  the files of the cache are: no entry has a digest, and \<open>compare_digests\<close> answers that the copy
  differs.
\<close>

theorem open_needs_download:
  assumes "mounted E' fill depth s" and "refuses E path" and "get_mode_from_flags flags \<noteq> MODE_CREAT"
    and "case view s path of None \<Rightarrow> True | Some pe \<Rightarrow> pe_fd pe < 0"
    and "dfs_open E path flags s = Inr ((r, fh), s')"
  shows "r = - 1 \<and> (case view s path of None \<Rightarrow> True | Some pe \<Rightarrow> pe_digest pe = None)"
proof -
  have e: "entry_ok pe" if "pes s a = Some pe" for a pe
    using eachD [OF entries.mounted_each [OF assms(1)] that] .
  have "unread a s" if "ghash s path = Some a" for a
  proof -
    from view_defined [OF mounted_wf [OF assms(1)], of path] that
    obtain pe where "pes s a = Some pe" by (auto simp: view_def)
    with assms(4) that e [OF this] show ?thesis by (auto simp: view_def unread_def entry_ok_def)
  qed
  from open_refused [OF assms(2,3) mounted_wf [OF assms(1)] this assms(5)] have "r = - 1" .
  with e show ?thesis by (auto simp: view_def entry_ok_def split: option.split)
qed

lemma mounted_entries_ok_witness:
  "\<exists>s' a pe. mounted sim_penv sim_fill 3 s' \<and> ghash s' ''/d'' = Some a \<and> pes s' a = Some pe \<and> \<not> pe_mutex pe"
proof -
  obtain s' a pe where m: "mounted sim_penv sim_fill 3 s'" "ghash s' ''/d'' = Some a" "pes s' a = Some pe"
    "pe_fd pe = - 1" by (rule sim_mounted)
  from mounted_entries_ok [OF this(1,2)] m show ?thesis by auto
qed

text \<open>A library that is out of order: a file that is not known is opened without success.\<close>

definition sim_off :: "sim env" where
  "sim_off = sim_down\<lparr>d_openread := (\<lambda>p fl cb w. Inr ((DPL_FAILURE, None), w))\<rparr>"

lemma sim_off_calls:
  "os_alloc sim_off w = (True, w)" "os_access sim_off p w = (Some ENOENT, w)" "os_sync_init sim_off w = (True, w)"
  "os_open sim_off p fl m w = (Inr 3, if fl AND O_TRUNC \<noteq> 0 then w\<lparr>sim_out := []\<rparr> else w)"
  "os_stat sim_off p w = (Inr sim_stat, w)" "os_close sim_off fd w = (None, w)"
  "d_namei sim_off p i w = (case sim_call w of (rc, w) \<Rightarrow> ((rc, Some DPL_FTYPE_REG, p), w))"
  "d_head_all sim_off p w = ((DPL_SUCCESS, sim_cloud w p), w)"
  "d_metadata_from_headers sim_off hs d w = ((DPL_SUCCESS, d), w)"
  "d_dict_copy sim_off d e w = ((DPL_SUCCESS, d ++ e), w)"
  "d_openread sim_off p fl cb w = Inr ((DPL_FAILURE, None), w)"
  by (simp_all add: sim_off_def sim_down_def sim_defs)

lemma sim_off_headers: "download_headers sim_off ''/a'' s = Inr ((0, None), s)"
  if "sim_fail (world s) = 0" "sim_cloud (world s) = Map.empty"
  using that noent_policy.no_retry_on_success [of "d_namei sim_off ''/a'' None" s "(Some DPL_FTYPE_REG, ''/a'')" "world s" sim_off]
    noent_policy.no_retry_on_success [of "d_head_all sim_off ''/a''" s "None" "world s" sim_off]
  by (simp add: download_headers_def timeout_defs seqM_apply sim_off_calls sim_call_def)

lemma sim_off_tree: "c_cache_dir (gconf s) = Live d \<Longrightarrow> \<exists>l. build_cache_tree sim_off p s = Inr (l, s)"
  by (simp add: build_cache_tree_def Let_def seqM_apply sptr_show_def ext_apply sim_off_calls)

lemma sim_off_close: "safe_close sim_off fd s = Inr (0, s)"
  by (simp add: safe_close_def loopM_unfold [of "safe_close_body sim_off fd"] safe_close_body_def
      seqM_apply ext_apply sim_off_calls)

definition sim_found :: "sim gstate" where
  "sim_found = sim_table\<lparr>ghash := [''/a'' \<mapsto> 2],
     pes := [2 \<mapsto> (entry_of ''/a'' FILE_REG True)\<lparr>pe_refcount := 1\<rparr>], fresh := 3\<rparr>"

lemma sim_off_copy: "\<exists>s'. dfs_get_local_copy sim_off 2 ''/a'' 0 sim_found = Inr (- 1, s') \<and> pes s' 2 \<noteq> None"
proof -
  have s: "gconf sim_found = sim_conf" "pes sim_found = [2 \<mapsto> (entry_of ''/a'' FILE_REG True)\<lparr>pe_refcount := 1\<rparr>]"
    "dicts sim_found = Map.empty" "fresh sim_found = 3" "world sim_found = sim_world"
    by (simp_all add: sim_found_def sim_table_def sim_state_def)
  have w: "sim_fail sim_world = 0" "sim_cloud sim_world = Map.empty" by (simp_all add: sim_world_def)
  show ?thesis
    by (simp add: dfs_get_local_copy_def seqM_apply s w sptr_show_def sim_conf_def Let_def ext_apply sim_off_calls
       sim_off_headers dict_new_def dict_call_def own_dict_def get_dict_def set_dict_def pentry_md_lock_def
       pentry_gen_lock_def get_pe_def upd_pe_def entry_of_def new_pentry_def pentry_md_unlock_def pentry_gen_unlock_def
       pentry_set_usermd_def dict_free_opt_def dict_free_def check_permissions_def compare_digests_def fetch_def
       ext_prog_def sim_off_close copy_end_def)
qed

lemma sim_off_open: "\<exists>fh s'. dfs_open sim_off ''/a'' 0 sim_table = Inr ((- 1, fh), s')"
proof -
  let ?s = "sim_found\<lparr>pes := [2 \<mapsto> entry_of ''/a'' FILE_REG True]\<rparr>"
  have p: "populate_hash sim_off ''/a'' FILE_REG sim_table = Inr ((0, Some 2), ?s)"
    by (simp add: populate_hash_def pentry_new_def pentry_set_path_def hash_insert_def seqM_apply state_ops
        sim_off_calls sim_found_def sim_table_def sim_state_def numeral_eq_Suc entry_of_def new_pentry_def)
  have inc: "pentry_inc_refcount 2 ?s = Inr ((), sim_found)"
    by (simp add: pentry_inc_refcount_def upd_pe_def SEM_VALUE_MAX_def sim_found_def entry_of_def new_pentry_def)
  obtain l where l: "build_cache_tree sim_off ''/a'' sim_found = Inr (l, sim_found)"
    using sim_off_tree [of sim_found "''/tmp/b''"]
    by (auto simp: sim_found_def sim_table_def sim_state_def sim_conf_def)
  obtain t where t: "dfs_get_local_copy sim_off 2 ''/a'' 0 sim_found = Inr (- 1, t)" "pes t 2 \<noteq> None"
    using sim_off_copy by blast
  have h: "ghash sim_table ''/a'' = None" by (simp add: sim_table_def)
  have fd: "pes sim_found 2 = Some ((entry_of ''/a'' FILE_REG True)\<lparr>pe_refcount := 1\<rparr>)"
    "pe_fd (entry_of ''/a'' FILE_REG True) < 0"
    by (simp_all add: sim_found_def entry_of_def new_pentry_def)
  from t(2) obtain pe where "pes t 2 = Some pe" by blast
  then show ?thesis
    by (simp add: dfs_open_def hash_lookup_def h open_entry_def p inc l t(1) fd get_mode_from_flags_def open_fn_def
      open_rdonly_def open_existing_def get_pe_def upd_pe_def seqM_apply open_flags_def)
qed

lemma open_needs_download_witness:
  "\<exists>fh s'. mounted sim_penv sim_fill 3 sim_table \<and> dfs_open sim_off ''/a'' 0 sim_table = Inr ((- 1, fh), s')"
proof -
  obtain fh s' where o: "dfs_open sim_off ''/a'' 0 sim_table = Inr ((- 1, fh), s')" using sim_off_open by blast
  have m: "mounted sim_penv sim_fill 3 sim_table"
    by (rule mounted.start) (simp add: empty_table_def sim_table_def)
  have "refuses sim_off ''/a''" by (simp add: refuses_def sim_off_calls)
  moreover have "get_mode_from_flags 0 \<noteq> MODE_CREAT" by (simp add: get_mode_from_flags_def)
  moreover have "view sim_table ''/a'' = None" by (simp add: view_def sim_table_def)
  ultimately have "- 1 = (- 1 :: int)" using open_needs_download [OF m _ _ _ o] by simp
  with m o show ?thesis by blast
qed

end
