(* ===== verification/Upload.thy ===== *)
theory Upload
  imports Release
begin

text \<open>
  Sending a file with compression: \<open>dfs_release\<close> packs the local copy with \<open>compress_before_sending\<close>
  and \<open>zip\<close> into a file beside it and sends that.  The theory holds the contract of the calls on the
  two files and carries it through the programs of \<open>Zip\<close>, \<open>File\<close> and \<open>Release\<close>; its counterpart for
  opening a compressed object is in \<open>Download\<close>.
\<close>

section \<open>The files of an upload\<close>

record 'w stages =
  u_text :: "'w \<Rightarrow> string"
  u_left :: "'w \<Rightarrow> string"
  u_zleft :: "'w \<Rightarrow> string"
  u_zip :: "'w zview"
  u_sent :: "'w \<Rightarrow> string"
  u_attrs :: "'w \<Rightarrow> dict"

text \<open>Calls that do not move the descriptor of the entry.\<close>

definition zip_aside :: "('w, 'm) env_scheme \<Rightarrow> nat \<Rightarrow> nat \<Rightarrow> ('w \<Rightarrow> string) \<Rightarrow> bool" where
  "zip_aside E src dst left \<longleftrightarrow>
     (\<forall>l w. left (snd (z_deflateInit E l w)) = left w) \<and>
     (\<forall>z i fl n w. left (snd (z_deflate E z i fl n w)) = left w) \<and>
     (\<forall>z w. left (z_deflateEnd E z w) = left w) \<and>
     (\<forall>n w. left (snd (os_fread E src n w)) = left w) \<and>
     (\<forall>b w. left (snd (os_fwrite E dst b w)) = left w)"

lemma zip_aside_keeps:
  assumes "zip_aside E src dst left"
  shows "keeps (\<lambda>s. left (world s) = x) (zip E src dst level)"
  using assms
  unfolding zip_def zip_body_def deflate_body_def close_with_def zip_aside_def
  by (intro keeps_intro keeps_ext_frame [where P = "\<lambda>w. left w = x"]; simp)

text \<open>
  The views of one upload: the content of the local copy (\<open>u_text\<close>), what is left to read of its
  descriptor (\<open>u_left\<close>) and of the packed file's (\<open>u_zleft\<close>), the streams \<open>src\<close> and \<open>dst\<close> on the two
  files (\<open>u_zip\<close>), and the object with its metadata.  \<open>stages\<close> is what the calls on the two files do
  to them: opening a stream on the copy reads it from its start, the packed file is new, empty and
  apart from the copy, and rewinding its descriptor \<open>zfd\<close> makes all that was written to it readable.
\<close>

definition stages :: "('w, 'm) env_scheme \<Rightarrow> int \<Rightarrow> string \<Rightarrow> nat \<Rightarrow> nat \<Rightarrow> int \<Rightarrow> 'w stages \<Rightarrow> bool" where
  "stages E fd local src dst zfd U \<longleftrightarrow> 0 < zfd \<and>
     unmoved E fd (u_text U) \<and>
     (\<forall>w f w'. os_fopen E local ''r'' w = (Inr f, w') \<longrightarrow>
        f = src \<and> v_in (u_zip U) w' = u_text U w \<and> u_left U w' = u_left U w) \<and>
     (\<forall>w r w'. os_fopen E (fmt (local @ ''.tmp'')) ''w+'' w = (r, w') \<longrightarrow> u_left U w' = u_left U w \<and>
        (case r of Inl _ \<Rightarrow> True | Inr f \<Rightarrow> f = dst \<and> v_out (u_zip U) w' = [] \<and> v_in (u_zip U) w' = v_in (u_zip U) w)) \<and>
     (\<forall>w. u_left U (os_fflush E dst w) = u_left U w \<and> v_out (u_zip U) (os_fflush E dst w) = v_out (u_zip U) w) \<and>
     (\<forall>w. os_fileno E dst w = zfd) \<and>
     (\<forall>w. u_left U (snd (os_fstat E zfd w)) = u_left U w \<and> v_out (u_zip U) (snd (os_fstat E zfd w)) = v_out (u_zip U) w) \<and>
     (\<forall>w. u_zleft U (snd (os_rewind E zfd w)) = v_out (u_zip U) w) \<and>
     (\<forall>f w. u_sent U (os_fclose E f w) = u_sent U w \<and> u_attrs U (os_fclose E f w) = u_attrs U w) \<and>
     (\<forall>p w. u_sent U (snd (os_unlink E p w)) = u_sent U w \<and> u_attrs U (snd (os_unlink E p w)) = u_attrs U w)"

lemma stagesD:
  assumes "stages E fd local src dst zfd U"
  shows "0 < zfd"
    and "unmoved E fd (u_text U)"
    and "os_fopen E local ''r'' w = (Inr f, w') \<Longrightarrow>
       f = src \<and> v_in (u_zip U) w' = u_text U w \<and> u_left U w' = u_left U w"
    and "os_fopen E (fmt (local @ ''.tmp'')) ''w+'' w = (r, w') \<Longrightarrow> u_left U w' = u_left U w \<and>
       (case r of Inl _ \<Rightarrow> True | Inr f \<Rightarrow> f = dst \<and> v_out (u_zip U) w' = [] \<and> v_in (u_zip U) w' = v_in (u_zip U) w)"
    and "u_left U (os_fflush E dst w) = u_left U w" "v_out (u_zip U) (os_fflush E dst w) = v_out (u_zip U) w"
    and "os_fileno E dst w = zfd"
    and "u_left U (snd (os_fstat E zfd w)) = u_left U w" "v_out (u_zip U) (snd (os_fstat E zfd w)) = v_out (u_zip U) w"
    and "u_zleft U (snd (os_rewind E zfd w)) = v_out (u_zip U) w"
    and "u_sent U (os_fclose E f w) = u_sent U w" "u_attrs U (os_fclose E f w) = u_attrs U w"
    and "u_sent U (snd (os_unlink E p w)) = u_sent U w" "u_attrs U (snd (os_unlink E p w)) = u_attrs U w"
  using assms unfolding stages_def by blast+

text \<open>What is ready to be sent: the file, or its compressed form with the mark in its metadata.\<close>

definition raw :: "'w stages \<Rightarrow> string \<Rightarrow> addr \<Rightarrow> dict \<Rightarrow> 'w gstate \<Rightarrow> bool" where
  "raw U c dict md s \<longleftrightarrow> u_left U (world s) = c \<and> dicts s dict = Some md"

definition packed :: "'w stages \<Rightarrow> string \<Rightarrow> addr \<Rightarrow> dict \<Rightarrow> 'w gstate \<Rightarrow> bool" where
  "packed U z dict md s \<longleftrightarrow> u_zleft U (world s) = z \<and> dicts s dict = Some (md(''compression'' \<mapsto> ''zlib''))"

lemma zip_packs:
  assumes "deflates E enc bound (u_zip U)" "files E src dst (u_zip U)" "zip_aside E src dst (u_left U)"
  shows "ends (\<lambda>s. raw U c dict md s \<and> v_in (u_zip U) (world s) = c \<and> v_out (u_zip U) (world s) = [])
     (zip E src dst level) (\<lambda>r s. raw U c dict md s \<and> (r = Z_OK \<longrightarrow> v_out (u_zip U) (world s) = enc c))"
proof (rule endsI)
  fix s :: "'a gstate" and r s'
  assume s: "raw U c dict md s \<and> v_in (u_zip U) (world s) = c \<and> v_out (u_zip U) (world s) = []"
    and z: "zip E src dst level s = Inr (r, s')"
  obtain rc strm w where i: "z_deflateInit E level (world s) = ((rc, strm), w)" by (metis prod.exhaust)
  from zip_run [OF assms(1,2) i] z s have "r = Z_OK \<longrightarrow> v_out (u_zip U) (world s') = enc c"
    by (auto simp: zipped_def z_codes split: if_splits)
  moreover have "u_left U (world s') = u_left U (world s)"
    using keepsD [OF zip_aside_keeps [OF assms(3)] _ z, of "u_left U (world s)"] by simp
  moreover have "dicts s' = dicts s" by (rule worldly_frame(6) [OF worldly_zip(1) z])
  ultimately show "raw U c dict md s' \<and> (r = Z_OK \<longrightarrow> v_out (u_zip U) (world s') = enc c)"
    using s by (simp add: raw_def)
qed

lemma compress_packs:
  assumes st: "stages E fd local src dst zfd U" and up: "dict_updates E"
    and u: "uploads E zfd (u_zleft U) (u_sent U) (u_attrs U)"
    and "deflates E enc bound (u_zip U)" "files E src dst (u_zip U)" "zip_aside E src dst (u_left U)"
  shows "ends (\<lambda>s. raw U c dict md s \<and> v_in (u_zip U) (world s) = c \<and> v_out (u_zip U) (world s) = [])
     (compress_before_sending E src dst dict)
     (\<lambda>(z, n) s. z = 0 \<and> raw U c dict md s \<or> z = zfd \<and> packed U (enc c) dict md s)"
proof -
  let ?Q = "\<lambda>(z, n :: 64 word) s. z = 0 \<and> raw U c dict md s \<or> z = zfd \<and> packed U (enc c) dict md s"
  let ?Z = "\<lambda>s. raw U c dict md s \<and> v_out (u_zip U) (world s) = enc c"
  have conf: "ends P (getS gconf) (\<lambda>_. P)" for P :: "'a gstate \<Rightarrow> bool" by (simp add: ends_def)
  have give_up: "ends (\<lambda>s. raw U c dict md s \<and> (b \<longrightarrow> A s)) (ret (0, 0)) ?Q" for b A
    by (simp add: ends_def)
  have flush: "ends ?Z (ext (\<lambda>w. ((), os_fflush E dst w))) (\<lambda>_. ?Z)"
    by (rule ends_ext) (auto simp: raw_def stagesD(5,6) [OF st])
  have no: "ends ?Z (ask (os_fileno E dst)) (\<lambda>z s. z = zfd \<and> ?Z s)"
    by (simp add: ends_def ask_def stagesD(7) [OF st])
  have stat: "ends ?Z (ext (os_fstat E zfd)) (\<lambda>_. ?Z)"
  proof (rule ends_ext)
    fix s r w assume "?Z s" "os_fstat E zfd (world s) = (r, w)"
    then show "?Z (s\<lparr>world := w\<rparr>)"
      using stagesD(8,9) [OF st, of "world s"] by (simp add: raw_def)
  qed
  have rewind: "ends ?Z (ext (os_rewind E zfd)) (\<lambda>_ s. u_zleft U (world s) = enc c \<and> dicts s dict = Some md)"
  proof (rule ends_ext)
    fix s r w assume "?Z s" "os_rewind E zfd (world s) = (r, w)"
    then show "u_zleft U (world (s\<lparr>world := w\<rparr>)) = enc c \<and> dicts (s\<lparr>world := w\<rparr>) dict = Some md"
      using stagesD(10) [OF st, of "world s"] by (simp add: raw_def)
  qed
  have mark: "ends (\<lambda>s. u_zleft U (world s) = enc c \<and> dicts s dict = Some md)
      (dict_call (\<lambda>d. d_dict_update E d ''compression'' ''zlib'') dict)
      (\<lambda>rc s. rc = DPL_SUCCESS \<and> packed U (enc c) dict md s)"
  proof (rule endsI)
    fix s :: "'a gstate" and rc s'
    assume s: "u_zleft U (world s) = enc c \<and> dicts s dict = Some md"
      and r: "dict_call (\<lambda>d. d_dict_update E d ''compression'' ''zlib'') dict s = Inr (rc, s')"
    obtain w where w: "d_dict_update E md ''compression'' ''zlib'' (world s) =
        ((DPL_SUCCESS, md(''compression'' \<mapsto> ''zlib'')), w)"
      using up unfolding dict_updates_def by blast
    then have "u_zleft U w = enc c"
      using uploadsD(8) [OF u, of md "''compression''" "''zlib''" "world s"] s by simp
    with s r w show "rc = DPL_SUCCESS \<and> packed U (enc c) dict md s'"
      by (auto simp: dict_call_def get_dict_def set_dict_def seqM_apply ext_apply packed_def)
  qed
  have ok: "ends ?Z (seqM (ext (\<lambda>w. ((), os_fflush E dst w))) (\<lambda>_.
       seqM (ask (os_fileno E dst)) (\<lambda>zfd.
       if zfd = - 1 then ret (0, 0)
       else
         seqM (ext (os_fstat E zfd)) (\<lambda>r.
         case r of Inl _ \<Rightarrow> ret (0, 0)
         | Inr zst \<Rightarrow>
             seqM (ext (os_rewind E zfd)) (\<lambda>_.
             seqM (dict_call (\<lambda>d. d_dict_update E d ''compression'' ''zlib'') dict) (\<lambda>rc.
             if rc \<noteq> DPL_SUCCESS then ret (0, 0) else ret (zfd, st_size zst))))))) ?Q"
    by (rule ends_seqM [OF flush], rule ends_at [OF no], rule ends_branch, simp add: ends_def,
        rule ends_seqM [OF stat], rule ends_branch, simp add: ends_def,
        rule ends_seqM [OF rewind], rule ends_seqM [OF mark], rule ends_branch)
       (simp_all add: ends_def)
  show ?thesis
    unfolding compress_before_sending_def
    by (rule ends_seqM [OF conf], rule ends_seqM [OF zip_packs [OF assms(4-6)]], rule ends_branch,
        simp add: ends_def, rule ends_from [OF ok]) simp
qed

section \<open>The upload\<close>

definition delivered :: "'w stages \<Rightarrow> string \<Rightarrow> string \<Rightarrow> dict \<Rightarrow> 'w gstate \<Rightarrow> bool" where
  "delivered U c z md s \<longleftrightarrow>
     u_sent U (world s) = c \<and> u_attrs U (world s) = md \<or>
     u_sent U (world s) = z \<and> u_attrs U (world s) = md(''compression'' \<mapsto> ''zlib'')"

lemma stages_clean: "stages E fd local src dst zfd U \<Longrightarrow> cleans_up E v (u_sent U) (u_attrs U)"
  by (simp add: stages_def cleans_up_def)

lemma release_err_fails: "ends P (release_err E fh v (- 1)) (\<lambda>r s. r = 0 \<longrightarrow> Q s)"
proof (cases fh)
  case None
  then show ?thesis by (auto simp: ends_def release_err_def elim!: seqM_Inr)
next
  case (Some a)
  show ?thesis unfolding Some by (auto simp: ends_def dest!: release_err_code)
qed

lemma send_delivers:
  assumes "stages E fd local src dst zfd U" "uploads E fd' left (u_sent U) (u_attrs U)"
  shows "ends (\<lambda>s. left (world s) = c \<and> dicts s dict = Some md) (release_send E path a v dict fd' n)
     (\<lambda>r s. r = 0 \<longrightarrow> u_sent U (world s) = c \<and> u_attrs U (world s) = md)"
  by (rule endsI) (auto dest!: release_send_delivers [OF assms(2) stages_clean [OF assms(1)], rotated])

lemma compress_delivers:
  assumes st: "stages E fd local src dst zfd U" and up: "dict_updates E"
    and u: "uploads E fd (u_left U) (u_sent U) (u_attrs U)" "uploads E zfd (u_zleft U) (u_sent U) (u_attrs U)"
    and z: "deflates E enc bound (u_zip U)" "files E src dst (u_zip U)" "zip_aside E src dst (u_left U)"
  shows "ends (\<lambda>s. raw U c dict md s \<and> u_text U (world s) = c) (release_compress E path a local v dict fd n)
     (\<lambda>r s. r = 0 \<longrightarrow> delivered U c (enc c) md s)"
proof -
  let ?Q = "\<lambda>r s. r = 0 \<longrightarrow> delivered U c (enc c) md s"
  have sent: "ends (raw U c dict md) (release_send E path a v dict fd n) ?Q" for v
    by (rule ends_weaken [OF ends_from [OF send_delivers [OF st u(1)]]]) (auto simp: raw_def delivered_def)
  have zsent: "ends (packed U (enc c) dict md) (release_send E path a v dict zfd n) ?Q" for v n
    by (rule ends_weaken [OF ends_from [OF send_delivers [OF st u(2)]]]) (auto simp: packed_def delivered_def)
  have src: "ends (\<lambda>s. raw U c dict md s \<and> u_text U (world s) = c) (ext (os_fopen E local ''r''))
      (\<lambda>r s. case r of Inl _ \<Rightarrow> True | Inr f \<Rightarrow> f = src \<and> raw U c dict md s \<and> v_in (u_zip U) (world s) = c)"
    by (rule ends_ext) (auto simp: raw_def dest: stagesD(3) [OF st] split: sum.splits)
  have dst: "ends (\<lambda>s. raw U c dict md s \<and> v_in (u_zip U) (world s) = c) (ext (os_fopen E (fmt (local @ ''.tmp'')) ''w+''))
      (\<lambda>r s. raw U c dict md s \<and> (case r of Inl _ \<Rightarrow> True | Inr f \<Rightarrow>
        f = dst \<and> v_in (u_zip U) (world s) = c \<and> v_out (u_zip U) (world s) = []))"
    by (rule ends_ext) (auto simp: raw_def dest: stagesD(4) [OF st] split: sum.splits)
  have last: "ends (\<lambda>s. z = 0 \<and> raw U c dict md s \<or> z = zfd \<and> packed U (enc c) dict md s)
      (if z < 0 then release_err E (Some a) v (- 1)
       else if z > 0 then release_send E path a v dict z k else release_send E path a v dict fd n) ?Q" for z k v
  proof -
    consider "z < 0" | "z = 0" | "0 < z" by linarith
    then show ?thesis
    proof cases
      case 1
      then show ?thesis by (simp add: release_err_fails)
    next
      case 2
      then show ?thesis using stagesD(1) [OF st] by (auto intro: ends_from [OF sent])
    next
      case 3
      have "ends (\<lambda>s. z = zfd \<and> packed U (enc c) dict md s) (release_send E path a v dict z k) ?Q"
        by (rule ends_pre) (simp add: zsent)
      with 3 show ?thesis by (auto intro: ends_from)
    qed
  qed
  have pack: "ends (\<lambda>s. raw U c dict md s \<and> v_in (u_zip U) (world s) = c \<and> v_out (u_zip U) (world s) = [])
      (seqM (compress_before_sending E src dst dict) (\<lambda>(zfd, zsize).
       if zfd < 0 then release_err E (Some a) v (- 1)
       else if zfd > 0 then release_send E path a v dict zfd zsize
       else release_send E path a v dict fd n)) ?Q" for v
    by (rule ends_seqM [OF compress_packs [OF st up u(2) z]])
       (simp only: split_paired_all prod.case, rule last)
  have to: "ends (\<lambda>s. f = dst \<and> raw U c dict md s \<and> v_in (u_zip U) (world s) = c \<and> v_out (u_zip U) (world s) = [])
      (seqM (compress_before_sending E src f dict) (\<lambda>(zfd, zsize).
       if zfd < 0 then release_err E (Some a) v (- 1)
       else if zfd > 0 then release_send E path a v dict zfd zsize
       else release_send E path a v dict fd n)) ?Q" for f v
    by (rule ends_pre, hypsubst, rule pack)
  have both: "ends (\<lambda>s. raw U c dict md s \<and> v_in (u_zip U) (world s) = c)
      (seqM (ext (os_fopen E (fmt (local @ ''.tmp'')) ''w+'')) (\<lambda>r.
       case r of Inl _ \<Rightarrow> release_send E path a v dict fd n
       | Inr fpdst \<Rightarrow> seqM (compress_before_sending E src fpdst dict) (\<lambda>(zfd, zsize).
           if zfd < 0 then release_err E (Some a) (v\<lparr>rv_fpdst := Some fpdst\<rparr>) (- 1)
           else if zfd > 0 then release_send E path a (v\<lparr>rv_fpdst := Some fpdst\<rparr>) dict zfd zsize
           else release_send E path a (v\<lparr>rv_fpdst := Some fpdst\<rparr>) dict fd n))) ?Q" for v
    by (rule ends_seqM [OF dst], rule ends_branch, rule ends_from [OF sent], simp, rule ends_from [OF to], auto)
  have from': "ends (\<lambda>s. f = src \<and> raw U c dict md s \<and> v_in (u_zip U) (world s) = c)
      (seqM (ext (os_fopen E (fmt (local @ ''.tmp'')) ''w+'')) (\<lambda>r.
       case r of Inl _ \<Rightarrow> release_send E path a v dict fd n
       | Inr fpdst \<Rightarrow> seqM (compress_before_sending E f fpdst dict) (\<lambda>(zfd, zsize).
           if zfd < 0 then release_err E (Some a) (v\<lparr>rv_fpdst := Some fpdst\<rparr>) (- 1)
           else if zfd > 0 then release_send E path a (v\<lparr>rv_fpdst := Some fpdst\<rparr>) dict zfd zsize
           else release_send E path a (v\<lparr>rv_fpdst := Some fpdst\<rparr>) dict fd n))) ?Q" for f v
    by (rule ends_pre, hypsubst, rule both)
  show ?thesis
    unfolding release_compress_def Let_def
    by (rule ends_seqM [OF src], rule ends_branch, rule release_err_fails, rule ends_from [OF from'], simp)
qed

section \<open>Properties\<close>

text \<open>
  A release with compression sends the file or its compressed form, and says which: when
  \<open>dfs_release\<close> of a file open for writing returns 0 with the method \<open>zlib\<close>, the object holds either
  the content of the file, with its attributes as metadata, or the compressed content, and then
  the metadata have in addition the mark that \<open>dfs_get_local_copy\<close> looks for.
\<close>

theorem release_sends_compressed:
  fixes s :: "'w gstate"
  assumes "stages E (pe_fd pe) (fmt (cache @ ''/'' @ path)) src dst zfd U" and "dict_updates E"
    and "uploads E (pe_fd pe) (u_left U) (u_sent U) (u_attrs U)" and "uploads E zfd (u_zleft U) (u_sent U) (u_attrs U)"
    and "deflates E enc bound (u_zip U)" and "files E src dst (u_zip U)" and "zip_aside E src dst (u_left U)"
    and "pes s a = Some pe" and "0 \<le> pe_fd pe" and "\<not> pe_exclude pe" and "flags AND O_ACCMODE \<noteq> O_RDONLY"
    and "c_compression_method (gconf s) = Live m" and "strncasecmp_eq m ''zlib'' 4" and "c_cache_dir (gconf s) = Live cache"
    and "u_left U (world s) = u_text U (world s)" and "os_fstat E (pe_fd pe) (world s) = (Inr st, w)"
    and "dfs_release E path (Some a) flags s = Inr (0, s')"
  shows "u_sent U (world s') = u_text U (world s) \<and> u_attrs U (world s') = md_of_stat st \<or>
     u_sent U (world s') = enc (u_text U (world s)) \<and> u_attrs U (world s') = (md_of_stat st)(''compression'' \<mapsto> ''zlib'')"
proof (rule release_reaches [OF assms(2,8-12,16,17)])
  let ?c = "u_text U (world s)"
  fix s2 d local
  assume l: "\<And>cache. c_cache_dir (gconf s) = Live cache \<Longrightarrow> local = fmt (cache @ ''/'' @ path)"
    and d: "dicts s2 d = Some (md_of_stat st)"
    and v: "\<And>look :: 'w \<Rightarrow> string. unmoved E (pe_fd pe) look \<Longrightarrow> look (world s2) = look (world s)"
    and r: "(if strncasecmp_eq m ''zlib'' 4
       then release_compress E path a local (no_vars\<lparr>rv_dict := Some d\<rparr>) d (pe_fd pe) (st_size st)
       else release_send E path a (no_vars\<lparr>rv_dict := Some d\<rparr>) d (pe_fd pe) (st_size st)) s2 = Inr (0, s')"
  from r assms(13) l [OF assms(14)] have run: "release_compress E path a (fmt (cache @ ''/'' @ path))
      (no_vars\<lparr>rv_dict := Some d\<rparr>) d (pe_fd pe) (st_size st) s2 = Inr (0, s')" by simp
  have "raw U ?c d (md_of_stat st) s2 \<and> u_text U (world s2) = ?c"
    using d v [OF uploads_unmoved [OF assms(3)]] v [OF stagesD(2) [OF assms(1)]] assms(15) by (simp add: raw_def)
  from endsD [OF compress_delivers [OF assms(1-7)] this run] show ?thesis by (simp add: delivered_def)
qed

text \<open>
  An example: streams 7 and 8 are the file and its compressed form, which file 9 holds from where
  its descriptor is.
\<close>

definition sim_pack :: "sim env" where
  "sim_pack = sim_send\<lparr>
     os_fopen := (\<lambda>p m w. if m = ''r'' then (Inr 7, w\<lparr>sim_files := (sim_files w)(7 := sim_files w 3)\<rparr>)
       else (Inr 8, w\<lparr>sim_files := (sim_files w)(8 := [])\<rparr>)),
     os_fread := (\<lambda>fp n w. ((take n (sim_files w 7), False, length (sim_files w 7) < n),
       w\<lparr>sim_files := (sim_files w)(7 := drop n (sim_files w 7))\<rparr>)),
     os_fwrite := (\<lambda>fp buf w. (True, w\<lparr>sim_files := (sim_files w)(8 := sim_files w 8 @ buf)\<rparr>)),
     os_fileno := (\<lambda>fp w. 8),
     os_rewind := (\<lambda>fd w. (None, if fd = 8 then w\<lparr>sim_files := (sim_files w)(9 := sim_files w 8)\<rparr> else w)),
     os_read := (\<lambda>fd n w. if fd = 8
       then (Inr (take n (sim_files w 9)), w\<lparr>sim_files := (sim_files w)(9 := drop n (sim_files w 9))\<rparr>)
       else (Inr (take n (sim_unread w)), w\<lparr>sim_unread := drop n (sim_unread w)\<rparr>))\<rparr>"

definition sim_stages :: "sim stages" where
  "sim_stages = \<lparr>u_text = (\<lambda>w. sim_files w 3), u_left = sim_unread, u_zleft = (\<lambda>w. sim_files w 9),
     u_zip = sim_zview\<lparr>v_in := (\<lambda>w. sim_files w 7), v_out := (\<lambda>w. sim_files w 8)\<rparr>,
     u_sent = sim_out, u_attrs = sim_attrs\<rparr>"

lemmas sim_pack_defs = sim_pack_def sim_send_def sim_defs sim_stages_def sim_zview_def

lemma sim_staged: "stages sim_pack 3 local 7 8 8 sim_stages"
  by (auto simp: stages_def unmoved_def sim_pack_defs sim_attrs_def split: if_splits)

lemma sim_pack_uploads:
  "uploads sim_pack 3 (u_left sim_stages) (u_sent sim_stages) (u_attrs sim_stages)"
  "uploads sim_pack 8 (u_zleft sim_stages) (u_sent sim_stages) (u_attrs sim_stages)"
  by (auto simp: uploads_def reads_def sends_def sim_pack_defs sim_attrs_def)

lemma sim_pack_zip:
  "deflates sim_pack sim_codec (\<lambda>f. 2 * length f + 1) (u_zip sim_stages)"
  "files sim_pack 7 8 (u_zip sim_stages)" "zip_aside sim_pack 7 8 (u_left sim_stages)"
proof -
  show "deflates sim_pack sim_codec (\<lambda>f. 2 * length f + 1) (u_zip sim_stages)"
    unfolding deflates_def deflate_step_def
    by (auto simp: sim_pack_defs sim_deflate_def same_files_def z_codes sim_enc_append sim_enc_length
        sim_codec_def CHUNK_def Let_def split: if_splits)
  show "files sim_pack 7 8 (u_zip sim_stages)"
    by (auto simp: files_def sim_pack_defs same_stream_def)
  show "zip_aside sim_pack 7 8 (u_left sim_stages)"
    by (auto simp: zip_aside_def sim_pack_defs sim_deflate_def Let_def)
qed

lemma sim_pack_zips:
  assumes "sim_files (world s) 7 = ''abcdef''" "sim_files (world s) 8 = []"
  shows "\<exists>w. zip sim_pack 7 8 3 s = Inr (Z_OK, s\<lparr>world := w\<rparr>) \<and> sim_files w 8 = sim_codec ''abcdef'' \<and>
     sim_unread w = sim_unread (world s)"
proof -
  let ?f = "''abcdef''"
  define w where "w = (world s)\<lparr>sim_zin := [], sim_zend := False\<rparr>"
  define v where "v = w\<lparr>sim_files := (sim_files w)(7 := [])\<rparr>"
  define u where "u = v\<lparr>sim_zin := ?f, sim_zend := True, sim_files := (sim_files v)(8 := sim_codec ?f)\<rparr>"
  have l: "length (sim_codec ?f) < CHUNK" by (simp add: sim_codec_def sim_enc_length CHUNK_def)
  have d: "z_deflate sim_pack 1 ?f True CHUNK v = ((1, sim_codec ?f, []), v\<lparr>sim_zin := ?f, sim_zend := True\<rparr>)"
    by (simp add: sim_pack_defs sim_deflate_def CHUNK_def sim_codec_def Let_def v_def w_def)
  have o: "os_fwrite sim_pack 8 (sim_codec ?f) (v\<lparr>sim_zin := ?f, sim_zend := True\<rparr>) = (True, u)"
    using assms(2) by (simp add: sim_pack_defs u_def v_def w_def)
  have r: "os_fread sim_pack 7 CHUNK w = ((?f, False, True), v)"
    using assms(1) by (simp add: sim_pack_defs v_def w_def CHUNK_def)
  have z: "z_deflateInit sim_pack 3 (world s) = ((Z_OK, 1), w)" "z_deflateEnd sim_pack 1 u = u"
    by (simp_all add: sim_pack_defs z_codes w_def)
  have "loopM (deflate_body sim_pack 1 8 True) ?f (s\<lparr>world := v\<rparr>) = Inr (Inr (1, []), s\<lparr>world := u\<rparr>)"
    using l by (subst loopM_unfold) (simp add: deflate_body_def seqM_apply ext_apply d [unfolded One_nat_def] o z_codes)
  then have "zip_body sim_pack 1 7 8 () (s\<lparr>world := w\<rparr>) = Inr (Inr Z_OK, s\<lparr>world := u\<rparr>)"
    by (simp add: zip_body_def close_with_def seqM_apply ext_apply r z [unfolded One_nat_def] z_codes)
  then have "zip sim_pack 7 8 3 s = Inr (Z_OK, s\<lparr>world := u\<rparr>)"
    by (simp add: zip_def seqM_apply ext_apply z [unfolded One_nat_def]
        loopM_unfold [of "zip_body sim_pack 1 7 8", unfolded One_nat_def])
  then show ?thesis by (intro exI [of _ u]) (simp add: u_def v_def w_def)
qed

lemma sim_pack_sends:
  assumes "sim_files (world s) 9 = sim_codec ''abcdef''"
  shows "\<exists>w. read_write_all_vfile sim_pack 8 1 s = Inr (0, s\<lparr>world := w\<rparr>)"
proof -
  let ?z = "sim_codec ''abcdef''"
  have "length ?z \<le> WRITE_BLOCK_SIZE" by (simp add: WRITE_BLOCK_SIZE_def sim_codec_def sim_enc_length)
  then have blk: "take WRITE_BLOCK_SIZE ?z = ?z" "drop WRITE_BLOCK_SIZE ?z = []" "?z \<noteq> []"
    by (simp_all add: sim_codec_def)
  let ?w = "(world s)\<lparr>sim_files := (sim_files (world s))(9 := []), sim_out := sim_out (world s) @ ?z\<rparr>"
  let ?t = "s\<lparr>world := ?w\<rparr>"
  have more: "read_write_body sim_pack 8 1 () s = Inr (Inl (), ?t)"
    by (simp add: read_write_body_def seqM_apply ext_def sim_pack_defs assms blk)
  have fin: "read_write_body sim_pack 8 1 () ?t = Inr (Inr 0, ?t)"
    by (simp add: read_write_body_def seqM_apply ext_def sim_pack_defs)
  have "loopM (read_write_body sim_pack 8 1) () ?t = Inr (0, ?t)" by (subst loopM_unfold) (simp only: fin, simp)
  then have "read_write_all_vfile sim_pack 8 1 s = Inr (0, ?t)"
    unfolding read_write_all_vfile_def by (subst loopM_unfold) (simp only: more, simp)
  then show ?thesis by blast
qed

lemma sim_pack_calls:
  "os_fstat sim_pack fd w = (Inr sim_stat, w)" "os_alloc sim_pack w = (True, w)"
  "d_dict_update sim_pack d k v w = ((DPL_SUCCESS, d(k \<mapsto> v)), w)"
  "d_openwrite sim_pack p flags d n w = ((DPL_SUCCESS, Some 1),
     w\<lparr>sim_out := [], sim_cloud := (sim_cloud w)(''new'' \<mapsto> d)\<rparr>)"
  "d_close sim_pack f w = (DPL_SUCCESS, w)" "os_unlink sim_pack p w = (None, w)"
  "os_fclose sim_pack f w = w" "os_fflush sim_pack f w = w" "os_fileno sim_pack f w = 8"
  "os_rewind sim_pack fd w = (None, if fd = 8 then w\<lparr>sim_files := (sim_files w)(9 := sim_files w 8)\<rparr> else w)"
  "os_fopen sim_pack p m w = (if m = ''r'' then (Inr 7, w\<lparr>sim_files := (sim_files w)(7 := sim_files w 3)\<rparr>)
     else (Inr 8, w\<lparr>sim_files := (sim_files w)(8 := [])\<rparr>))"
  by (simp_all add: sim_pack_def sim_send_def sim_defs)

lemma sim_pack_compress:
  assumes "sim_files (world s) 7 = ''abcdef''" "sim_files (world s) 8 = []" "c_zlib_level (gconf s) = 3"
    and "dicts s d = Some md"
  shows "\<exists>w. compress_before_sending sim_pack 7 8 d s = Inr ((8, st_size sim_stat), s\<lparr>world := w,
     dicts := (dicts s)(d \<mapsto> md(''compression'' \<mapsto> ''zlib''))\<rparr>) \<and> sim_files w 9 = sim_codec ''abcdef''"
proof -
  obtain w where "zip sim_pack 7 8 3 s = Inr (Z_OK, s\<lparr>world := w\<rparr>)" "sim_files w 8 = sim_codec ''abcdef''"
    using sim_pack_zips [OF assms(1,2)] by blast
  then show ?thesis
    using assms(3,4)
    by (intro exI [of _ "w\<lparr>sim_files := (sim_files w)(9 := sim_codec ''abcdef'')\<rparr>"])
       (simp add: compress_before_sending_def seqM_apply ext_apply ask_def dict_call_def get_dict_def set_dict_def
        sim_pack_calls)
qed

lemma sim_pack_release_send:
  assumes "sim_files (world s) 9 = sim_codec ''abcdef''" "c_encryption_method (gconf s) = Live e"
    and "dicts s d = Some md" "pes s a = Some pe" "rv_dict v = Some d"
  shows "\<exists>s'. release_send sim_pack p a v d 8 n s = Inr (0, s')"
proof -
  have "\<exists>w. read_write_all_vfile sim_pack 8 1 (s\<lparr>world := (world s)\<lparr>sim_out := [], sim_cloud := c\<rparr>\<rparr>) =
      Inr (0, s\<lparr>world := w\<rparr>)" for c
    using sim_pack_sends [of "s\<lparr>world := (world s)\<lparr>sim_out := [], sim_cloud := c\<rparr>\<rparr>"] assms(1) by simp
  then obtain w where "read_write_all_vfile sim_pack 8 1 (s\<lparr>world := (world s)\<lparr>sim_out := [],
      sim_cloud := (sim_cloud (world s))(''new'' \<mapsto> md)\<rparr>\<rparr>) = Inr (0, s\<lparr>world := w\<rparr>)" by blast
  then show ?thesis
    using assms(2-5)
    by (cases "rv_fpsrc v"; cases "rv_fpdst v"; cases "rv_zlocal v")
       (simp_all add: release_send_def release_err_def release_exc_def close_streams_def seqM_apply ext_apply
        get_dict_def dict_free_opt_def dict_free_def get_pe_def upd_pe_def pentry_unlock_def pentry_gen_unlock_def
        Let_def sim_pack_calls [unfolded One_nat_def] sim_pack_calls)
qed

definition sim_packing :: "sim gstate" where
  "sim_packing = sim_written\<lparr>gconf := sim_conf\<lparr>c_compression_method := Live ''zlib''\<rparr>,
     world := sim_world\<lparr>sim_files := (\<lambda>_. ''abcdef'')\<rparr>\<rparr>"

lemma sim_pack_release: "\<exists>s'. dfs_release sim_pack ''/a'' (Some 0) 1 sim_packing = Inr (0, s')"
proof -
  have p: "gconf sim_packing = sim_conf\<lparr>c_compression_method := Live ''zlib''\<rparr>" "pes sim_packing = [0 \<mapsto> sim_pe\<lparr>pe_refcount := 1\<rparr>]"
    "dicts sim_packing = [1 \<mapsto> [''mode'' \<mapsto> ''33188'']]" "fresh sim_packing = 2"
    "world sim_packing = sim_world\<lparr>sim_files := (\<lambda>_. ''abcdef'')\<rparr>"
    by (simp_all add: sim_packing_def sim_written_def sim_state_def)
  have zl: "strncasecmp_eq ''zlib'' ''zlib'' 4" by (simp add: strncasecmp_eq_def)
  define s0 where "s0 = sim_packing\<lparr>pes := [0 \<mapsto> sim_pe\<lparr>pe_refcount := 0\<rparr>],
      world := sim_world\<lparr>sim_files := (\<lambda>_. ''abcdef'')\<rparr>,
      dicts := [1 \<mapsto> [''mode'' \<mapsto> ''33188''], 2 \<mapsto> Map.empty], fresh := 3\<rparr>"
  obtain t where f: "fill_metadata_from_stat sim_pack 2 sim_stat s0 = Inr ((), t)"
    "t = s0\<lparr>world := world t, dicts := (dicts s0)(2 \<mapsto> md_of_stat sim_stat)\<rparr>"
    using fill_metadata_from_stat_run [of sim_pack s0 2 Map.empty sim_stat]
    by (auto simp: dict_updates_def sim_pack_calls s0_def)
  have "unmoved sim_pack 3 (\<lambda>w. w)" by (simp add: unmoved_def sim_pack_calls)
  from keepsD [OF fill_metadata_unmoved [OF this] _ f(1), of "world s0"] have "world t = world s0" by simp
  with f(2) have t: "t = s0\<lparr>dicts := (dicts s0)(2 \<mapsto> md_of_stat sim_stat)\<rparr>" by simp
  define s1 where "s1 = t\<lparr>world := sim_world\<lparr>sim_files := (\<lambda>_. ''abcdef'')(8 := [])\<rparr>\<rparr>"
  obtain w where c: "compress_before_sending sim_pack 7 8 2 s1 = Inr ((8, st_size sim_stat), s1\<lparr>world := w,
     dicts := (dicts s1)(2 \<mapsto> (md_of_stat sim_stat)(''compression'' \<mapsto> ''zlib''))\<rparr>)" "sim_files w 9 = sim_codec ''abcdef''"
    using sim_pack_compress [of s1 2 "md_of_stat sim_stat"] by (auto simp: s1_def t s0_def p sim_conf_def)
  have opened: "(world t)\<lparr>sim_files := (sim_files (world t))(7 := sim_files (world t) 3, 8 := [])\<rparr> = world s1"
    by (simp add: s1_def t s0_def p fun_upd_def)
  let ?z = "fmt (fmt ''/tmp/b//a'' @ ''.tmp'')"
  let ?v = "no_vars\<lparr>rv_dict := Some 2, rv_zlocal := Some ?z, rv_fpsrc := Some 7, rv_fpdst := Some 8\<rparr>"
  obtain s' where s: "release_send sim_pack ''/a'' 0 ?v 2 8 (st_size sim_stat) (s1\<lparr>world := w,
     dicts := (dicts s1)(2 \<mapsto> (md_of_stat sim_stat)(''compression'' \<mapsto> ''zlib''))\<rparr>) = Inr (0, s')"
    using sim_pack_release_send [of _ "''NONE''" 2 _ 0 "sim_pe\<lparr>pe_refcount := 0\<rparr>" ?v] c(2)
    by (fastforce simp: s1_def t s0_def p sim_conf_def)
  have comp: "release_compress sim_pack ''/a'' 0 (fmt ''/tmp/b//a'') (no_vars\<lparr>rv_dict := Some 2\<rparr>) 2 3 (st_size sim_stat) t = Inr (0, s')"
    using c(1) s opened by (simp add: release_compress_def Let_def seqM_apply ext_apply sim_pack_calls s1_def)
  have "pe_fd sim_pe = 3" "\<not> pe_exclude sim_pe" by (simp_all add: sim_pe_def)
  then have "dfs_release sim_pack ''/a'' (Some 0) 1 sim_packing = release_upload sim_pack ''/a'' 0 sim_stat 2 s0"
    by (simp add: dfs_release_def seqM_apply get_pe_def p ext_apply sim_pack_calls pentry_dec_refcount_def
       upd_pe_def dict_new_def own_dict_def s0_def)
  also have "\<dots> = Inr (0, s')"
    using comp zl \<open>pe_fd sim_pe = 3\<close> by (simp add: release_upload_def seqM_apply f(1) get_pe_def Let_def)
       (simp add: seqM_apply t s0_def p sim_conf_def sptr_show_def sptr_get_def)
  finally show ?thesis by blast
qed

lemma release_sends_compressed_witness:
  "\<exists>s'. dfs_release sim_pack ''/a'' (Some 0) 1 sim_packing = Inr (0, s') \<and>
     (sim_out (world s') = ''abcdef'' \<and> sim_attrs (world s') = md_of_stat sim_stat \<or>
      sim_out (world s') = sim_codec ''abcdef'' \<and>
      sim_attrs (world s') = (md_of_stat sim_stat)(''compression'' \<mapsto> ''zlib''))"
proof -
  let ?pe = "sim_pe\<lparr>pe_refcount := 1\<rparr>"
  have fd: "pe_fd ?pe = 3" by (simp add: sim_pe_def)
  obtain s' where r: "dfs_release sim_pack ''/a'' (Some 0) 1 sim_packing = Inr (0, s')"
    using sim_pack_release by blast
  have "dict_updates sim_pack" by (simp add: dict_updates_def sim_pack_calls)
  note sent = release_sends_compressed [where pe = ?pe and m = "''zlib''" and cache = "''/tmp/b''" and st = sim_stat
      and w = "world sim_packing", unfolded fd, OF sim_staged this sim_pack_uploads sim_pack_zip _ _ _ _ _ _ _ _ _ r]
  have "u_text sim_stages (world sim_packing) = ''abcdef''" "u_left sim_stages (world sim_packing) = ''abcdef''"
    by (simp_all add: sim_stages_def sim_packing_def sim_world_def)
  moreover have "strncasecmp_eq ''zlib'' ''zlib'' 4" by (simp add: strncasecmp_eq_def)
  ultimately have "sim_out (world s') = ''abcdef'' \<and> sim_attrs (world s') = md_of_stat sim_stat \<or>
      sim_out (world s') = sim_codec ''abcdef'' \<and>
      sim_attrs (world s') = (md_of_stat sim_stat)(''compression'' \<mapsto> ''zlib'')"
    using sent by (simp add: sim_packing_def sim_written_def sim_state_def sim_conf_def sim_pe_def sim_pack_calls sim_stages_def)
  with r show ?thesis by blast
qed

end
