(* ===== verification/Spec2Isabelle.thy ===== *)
theory Spec2Isabelle
  imports Entries Upload
begin

text \<open>
  A model of dplfs, a FUSE file system over the cloud storage library libdroplet
  (\<open>src/*.c\<close>, \<open>src/*.h\<close>).

  \<^bold>\<open>The program.\<close>  \<open>main\<close> (\<open>dropletfs.c\<close>) reads the configuration and hands a table of
  operations to FUSE.  The operations, one file each, share a hash table from paths to path
  entries (\<open>hash.c\<close>); an entry has the metadata, the state and the open copy of its file in a
  cache directory.  They call the library through wrappers that try again (\<open>timeout.c\<close>).  Two
  threads work on the table: one removes old files from the cache (\<open>gc.c\<close>), the other is meant
  to refresh metadata (\<open>cachedir.c\<close>).

  \<^bold>\<open>How it is modelled.\<close>  A program is a function from a state to a result and a state, or to a
  fault (\<open>Prelude\<close>: \<open>prog\<close>, \<open>seqM\<close>, \<open>fault\<close>).  A fault is what C leaves undefined or what stops
  the program: a null or dangling pointer, a read of a variable that was not set, a failed
  assertion, a lock that is never released, a loop that does not end.  A loop is \<open>loopM\<close>, built
  on \<open>while_option\<close>: it has no bound, and the value \<open>Inl Diverges\<close> if it runs for ever.  The
  state \<open>gstate\<close> (\<open>State\<close>) has the globals \<open>conf\<close> and \<open>hash\<close>, the entries and the dictionaries by
  address, and the outside world, of any type.  The system, zlib and libdroplet, which
  are not part of the repository, are fields of a record \<open>env\<close> of functions on that world, and so
  are the order in which glib visits a table and its thread pool.  glib's hash table itself is
  not a field: the table is a map in the state, and its lookup, insertion and removal, with the
  call of the destructor that \<open>g_hash_table_new_full\<close> documents, are definitions of \<open>Hash\<close> and
  \<open>Dropletfs\<close> (\<open>hash_lookup\<close>, \<open>hash_insert\<close>, \<open>hash_remove\<close>, \<open>hash_remove_all\<close>).
  What a theorem relies on of them is a hypothesis with a name (\<open>closes\<close>, \<open>dict_updates\<close>,
  \<open>appends\<close>, \<open>reads\<close>, \<open>sends\<close>, \<open>uploads\<close>, \<open>file_like\<close>, \<open>lists\<close>, \<open>keeps_metadata\<close>, \<open>deflates\<close>,
  \<open>inflates\<close>, \<open>caches\<close>, \<open>serves\<close>, \<open>stages\<close>, \<open>mkdir_documented\<close>, \<open>ticks\<close>, \<open>gives_lines\<close>, ...).  \<open>Sim\<close> has a
  small world in which they hold, for the examples.  Machine integers are words of their
  width; \<open>int\<close> results of C are \<open>int\<close> within the range, with \<open>to_int32\<close> where C narrows.  Where C
  leaves an overflow undefined (the doubled delay of \<open>timeout.c\<close> after 31 retries, ten times the
  threshold in \<open>gc.c\<close>), the model wraps around.

  \<^bold>\<open>The theories.\<close>
  \<^item> \<open>Prelude\<close>, \<open>Cstring\<close>, \<open>State\<close>: programs, loops and their rules; strings and numbers of C; the
    state, the environment, and the two notions the proofs share: \<open>worldly\<close> (a program that
    changes the outside world only) and \<open>keeps\<close> (it preserves an invariant), with rules for
    each construct that \<open>intro\<close> composes; \<open>ends\<close> is the form with a pre- and a postcondition.
  \<^item> \<open>Clist\<close> (\<open>list.c\<close>): lists of cells in a heap, with what each operation does to the heap;
    \<open>Dirents\<close>: the names of a directory as such a list, refining a list of strings.
  \<^item> \<open>Tmpstr\<close> (\<open>tmpstr.c\<close>): the ring of temporary strings and how long one lives.
  \<^item> \<open>Timeout\<close> (\<open>timeout.c\<close>): the wrappers, equal to a reference that lists the attempts.
  \<^item> \<open>Metadata\<close> (\<open>metadata.c\<close>), \<open>Misc\<close> (\<open>utils.c\<close>, \<open>misc.c\<close>, \<open>regex.c\<close>), \<open>Conf\<close> (\<open>conf.c\<close>, \<open>env.c\<close>).
  \<^item> \<open>Hash\<close> (\<open>hash.c\<close>): entries, their locks and references, the table; \<open>view\<close> is the table as
    a map from paths to entries, which removing and populating refine.
  \<^item> \<open>Zip\<close> (\<open>zip.c\<close>), \<open>File\<close> (\<open>file.c\<close>): streams, descriptors, the local copy of a remote file.
  \<^item> \<open>Getattr\<close>, \<open>Open\<close> (\<open>open.c\<close>, \<open>create.c\<close>), \<open>Release\<close>, \<open>Dirs\<close> (\<open>mkdir.c\<close>, \<open>mknod.c\<close>, \<open>opendir.c\<close>,
    \<open>readdir.c\<close>, \<open>rmdir.c\<close>, \<open>unlink.c\<close>, \<open>rename.c\<close>), \<open>Attrs\<close> (\<open>chmod.c\<close>, \<open>chown.c\<close>, \<open>symlink.c\<close>,
    \<open>readlink.c\<close>, \<open>setxattr.c\<close>, \<open>statfs.c\<close>), \<open>Io\<close> (\<open>read.c\<close>, \<open>write.c\<close>, \<open>fsync.c\<close>): the operations.
  \<^item> \<open>Download\<close>: what the operations of \<open>File\<close>, \<open>Open\<close> and \<open>Io\<close> do together, from the object in the
    cloud, stored as it is or compressed, over the local copy to what a reader gets; and what
    they do when the cloud does not hand the object out.
  \<^item> \<open>Upload\<close>: what \<open>Zip\<close>, \<open>File\<close> and \<open>Release\<close> do together when a file is sent compressed.
  \<^item> \<open>Gc\<close> (\<open>gc.c\<close>), \<open>Cachedir\<close> (\<open>cachedir.c\<close>): the threads.
  \<^item> \<open>Log\<close> (\<open>log.h\<close>, and what \<open>hash.c\<close> and \<open>dropletfs.c\<close> log and print): \<open>LOG\<close> and its test.
  \<^item> \<open>Dropletfs\<close> (\<open>dropletfs.c\<close>): the table of operations; \<open>mounted\<close>, the states that any sequence
    of requests, rounds and jobs leads to, and their invariant \<open>state_wf\<close>; \<open>main\<close> and its end.
  \<^item> \<open>Races\<close>: an open and the garbage collector, split into the steps between which the other
    thread can come, in every order (\<open>interleave\<close>).
  \<^item> \<open>Entries\<close>: a predicate of single entries that every operation preserves, and with it every
    history of a mounted file system (\<open>entry_law\<close>, \<open>mounted_each\<close>).

  \<^bold>\<open>Interfaces.\<close>  \<open>dirent_store\<close> is what \<open>hash.c\<close> needs of \<open>list.c\<close>, \<open>retry_policy\<close> what a wrapper
  needs of the statuses it does not retry, \<open>entry_mutex\<close> a lock in an entry, \<open>conf_invariant\<close> a
  predicate that every way to set the configuration preserves, \<open>entry_law\<close> one of the entries
  that every write to an entry preserves.  Each is interpreted on the
  model of the code.

  \<^bold>\<open>What the theorems show.\<close>  The table of a mounted file system stays well formed through any
  history (\<open>mounted_state_wf\<close>), and so does each entry: its descriptor is -1 or not negative, its
  count of references does not overflow, its first lock is free (\<open>mounted_entries_ok\<close>).  The table is a
  map from paths to entries, which removing and populating change as a map is changed; removing
  closes and releases what the entry owns (\<open>hash_remove_refines\<close>).  A pass of the garbage collector
  keeps what is open and removes exactly what is old, and its thread, unless it is disabled, goes
  on for ever and leaves after every round only what is in use or young (\<open>gc_thread_removes\<close>).
  A file that is opened and read gives the bytes of the object (\<open>open_then_read\<close>), also of a
  compressed one (\<open>open_stored_then_read\<close>); what was written to it and released is the object
  (\<open>writes_then_release\<close>, \<open>release_sends_file\<close>, over the loops \<open>send_file_complete\<close> and
  \<open>write_all_complete\<close>, which end), as it is or compressed and marked so (\<open>release_sends_compressed\<close>); \<open>unzip\<close> inverts \<open>zip\<close>, and both end (\<open>zip_round_trip\<close>,
  \<open>zip_complete\<close>).  Attributes and links come back as they went; references and attempts
  are counted; the configuration is what its file says, in range, and the environment overrides
  it.  The same model shows where the code fails: what \<open>unlink\<close>, \<open>create\<close>, \<open>conf_free\<close> and
  \<open>list_filter\<close> use after its release, the lock that \<open>getattr\<close> keeps, the four ends of an open
  while the collector runs (\<open>open_collector_race\<close>), the digests that are never compared, so that
  nothing is opened without a download (\<open>open_needs_download\<close>), the jobs of the refreshing thread
  that ask for the wrong files (\<open>refresh_jobs_misnamed\<close>), the strings that are overwritten
  before they are read, and the end of a mount.

  \<^bold>\<open>Bounds.\<close>  The one bound is \<open>depth\<close> of \<open>dfs_rename\<close>: \<open>rename_directory\<close> calls itself on the names
  that the library lists, and nothing in the code ends that; the theorems hold for all
  values.

  \<^bold>\<open>Not modelled.\<close>  The messages that the operations send to the log on their way, which change
  nothing of the table, and the file, function and line that \<open>LOG\<close> puts before a text.  The test
  of \<open>LOG\<close> is modelled where the configuration can be gone (\<open>dfs_destroy\<close>); of the arguments only
  those of the end of a failed \<open>dfs_open\<close> are, which read a missing or released entry.  Two other
  messages of the level \<open>LOG_DEBUG\<close> have arguments that are not valid, the keys that
  \<open>dfs_namei_timeout\<close> prints for callers that pass null pointers, and the type and the keys that
  \<open>getattr_unset\<close> and \<open>cb_map_dirents\<close> print after a failed lookup: of these the model tells what
  happens below that level.  Further, interleavings inside an operation, but for those of
  \<open>Races\<close>, where an open and a visit of the collector have two steps each (elsewhere requests, rounds
  and jobs are steps, and a lock that is taken twice is a fault); the position of a stream and of
  a descriptor, which belong to the world; the test program under \<open>src/tests\<close>, which is not part
  of the file system.
\<close>

section \<open>Properties that span components\<close>

text \<open>
  C11. What \<open>chmod\<close> sets, \<open>getattr\<close> shows: for a remote file with metadata that is not a link and
  whose metadata are not locked, \<open>dfs_chmod\<close> returns, and whatever it returns the next
  \<open>dfs_getattr\<close> of the path succeeds with the new mode and with the time of the change as the
  times of modification and change.
\<close>

theorem chmod_then_getattr:
  assumes "dict_updates E" and "path \<noteq> ''/''" and "ghash s path = Some a" and "pes s a = Some pe"
    and "\<not> pe_md_mutex pe" and "pe_ondisk pe = FILE_REMOTE" and "pe_usermd pe = Some d"
    and "dicts s d = Some md" and "md ''symlink'' = None"
    and "fst (os_time E (world s)) = now" and "now \<noteq> - 1"
  shows "\<exists>r s1 st s2. dfs_chmod E path mode s = Inr (r, s1) \<and> (r = 0 \<or> r = - 1) \<and>
     dfs_getattr E path s1 = Inr ((0, st), s2) \<and> st_mode st = mode \<and> st_mtime st = now \<and> st_ctime st = now"
proof -
  have "unlocked_md s path a d md" using assms by (simp add: unlocked_md_def)
  from chmod_run [OF assms(1) this, of mode] obtain r w where
    c: "dfs_chmod E path mode s = Inr (r, s\<lparr>dicts := (dicts s)(d \<mapsto> chmod_md mode now md), world := w\<rparr>)"
    "r = 0 \<or> r = - 1" using assms(10) by blast
  let ?s = "s\<lparr>dicts := (dicts s)(d \<mapsto> chmod_md mode now md), world := w\<rparr>"
  have "getattr_remote a st ?s = Inr ((0, fill_stat_from_metadata st (chmod_md mode now md)), ?s)" for st
    using assms by (intro getattr_remote_run [where pe = pe and d = d]) simp_all
  then have "\<exists>st s2. dfs_getattr E path ?s = Inr ((0, st), s2) \<and> st_mode st = mode \<and> st_mtime st = now \<and> st_ctime st = now"
    using assms stat_of_chmod_md [of md now, OF assms(9,11)]
    by (simp add: dfs_getattr_def getattr_dispatch_def Let_def seqM_apply hash_lookup_def get_pe_def upd_pe_def
        ext_def split_beta)
  with c show ?thesis by blast
qed

text \<open>
  C12. A link leads where it was made to lead: for a target below the mount point, in a cloud that
  keeps metadata, \<open>dfs_symlink\<close> succeeds, and \<open>dfs_readlink\<close> of the new path then fills the
  buffer of its caller with the target, taken relative to the mount point; the rest of the
  buffer is as it was, so that nothing marks the end of the target.
\<close>

theorem symlink_then_readlink:
  assumes "keeps_metadata E cloud" and "dict_adds E" and "allocates E"
    and "c_root_dir (gconf s) = Live root" and "length name < 10 ^ 20" and "length name \<le> n"
  shows "\<exists>s1 s2. dfs_symlink E (root @ c # name) newpath s = Inr (0, s1) \<and>
     dfs_readlink E newpath buf n s1 = Inr ((0, name @ drop (length name) buf), s2)"
proof -
  obtain s1 where s1: "dfs_symlink E (root @ c # name) newpath s = Inr (0, s1)"
    "cloud (world s1) newpath = Some (link_md name)"
    using symlink_run [OF assms(1-4) link_target_below assms(5)] by blast
  have "link_md name ''symlink'' = Some name" by (simp add: link_md_def)
  from readlink_run [OF assms(1) s1(2) this, of buf n] s1(1) show ?thesis
    by (auto simp: copy_link_fits [OF assms(6)])
qed

lemma chmod_then_getattr_witness:
  "\<exists>r s1 st s2. dfs_chmod sim_env ''/a'' 0x8180 sim_state = Inr (r, s1) \<and>
     dfs_getattr sim_env ''/a'' s1 = Inr ((0, st), s2) \<and> st_mode st = 0x8180 \<and> st_mtime st = 5000"
proof -
  have "dict_updates sim_env" by (simp add: dict_updates_def sim_defs)
  moreover have "fst (os_time sim_env (world sim_state)) = 5000" by (simp add: sim_defs)
  ultimately show ?thesis
    using chmod_then_getattr [where E = sim_env and path = "''/a''" and s = sim_state and a = 0
        and pe = sim_pe and d = 1 and md = "[''mode'' \<mapsto> ''33188'']" and now = 5000 and mode = "0x8180"]
    by (auto simp: sim_state_def sim_pe_def)
qed

lemma symlink_then_readlink_witness:
  "\<exists>s1 s2. dfs_symlink sim_env ''/mnt/a'' ''/l'' sim_state = Inr (0, s1) \<and>
     dfs_readlink sim_env ''/l'' ''xxxx'' 4 s1 = Inr ((0, ''axxx''), s2)"
proof -
  have "keeps_metadata sim_env sim_cloud" by (simp add: keeps_metadata_def sim_defs)
  moreover have "dict_adds sim_env" by (simp add: dict_adds_def sim_defs)
  moreover have "allocates sim_env" by (simp add: allocates_def sim_defs)
  moreover have "c_root_dir (gconf sim_state) = Live ''/mnt''" by (simp add: sim_state_def sim_conf_def)
  ultimately show ?thesis
    using symlink_then_readlink [where E = sim_env and cloud = sim_cloud and s = sim_state and root = "''/mnt''"
        and name = "''a''" and n = 4 and c = "CHR ''/''" and newpath = "''/l''" and buf = "''xxxx''"]
    by simp
qed

end
